theory Spec2Isabelle
  imports Main "HOL-Library.Sublist" "HOL-Library.Multiset"
begin

section \<open>JavaScript values\<close>

text \<open>
  The services keep JSON text in \<^verbatim>\<open>localStorage\<close> and work on the values that
  \<^verbatim>\<open>JSON.parse\<close> returns. A value is one of JavaScript's JSON-shaped values, with
  \<^verbatim>\<open>undefined\<close> added (a missing property reads as it). Numbers are integers: ids,
  counters and epoch-millisecond time stamps are, and below \<open>2^53\<close> the arithmetic of
  the source is exact on them. A string is a list of 8-bit characters, read as the code
  units U+0000 to U+00FF. An object is the list of its properties in insertion order.
\<close>

datatype jsval =
    JUndefined
  | JNull
  | JBool bool
  | JNum int
  | JStr string
  | JArr "jsval list"
  | JObj "(string \<times> jsval) list"

datatype error =
    SyntaxError
  | TypeError
  | QuotaExceededError
  | Error string

fun truthy :: "jsval \<Rightarrow> bool" where
  "truthy JUndefined = False"
| "truthy JNull = False"
| "truthy (JBool b) = b"
| "truthy (JNum n) = (n \<noteq> 0)"
| "truthy (JStr s) = (s \<noteq> [])"
| "truthy (JArr xs) = True"
| "truthy (JObj fs) = True"

text \<open>\<^verbatim>\<open>a || b\<close> on values.\<close>

definition orElse :: "jsval \<Rightarrow> jsval \<Rightarrow> jsval" where
  "orElse a b = (if truthy a then a else b)"

fun nullish :: "jsval \<Rightarrow> bool" where
  "nullish JUndefined = True"
| "nullish JNull = True"
| "nullish v = False"

fun isObject :: "jsval \<Rightarrow> bool" where
  "isObject (JArr xs) = True"
| "isObject (JObj fs) = True"
| "isObject v = False"

subsection \<open>Strings and numbers\<close>

text \<open>
  White space as \<^verbatim>\<open>\s\<close> and \<^verbatim>\<open>trim\<close> see it (tab, line feed, vertical tab, form feed,
  carriage return, space, no-break space), and the line terminators that \<^verbatim>\<open>.\<close> in a
  regular expression refuses.
\<close>

definition isWhiteSpace :: "char \<Rightarrow> bool" where
  "isWhiteSpace c = (of_char c \<in> {9, 10, 11, 12, 13, 32, 160 :: nat})"

definition isLineTerminator :: "char \<Rightarrow> bool" where
  "isLineTerminator c = (of_char c \<in> {10, 13 :: nat})"

definition trim :: "string \<Rightarrow> string" where
  "trim s = rev (dropWhile isWhiteSpace (rev (dropWhile isWhiteSpace s)))"

text \<open>\<^verbatim>\<open>toLowerCase\<close> on the code units below 256: A to Z, and the capital letters of
  Latin-1 (U+00C0 to U+00DE without the multiplication sign U+00D7).\<close>

definition lowerChar :: "char \<Rightarrow> char" where
  "lowerChar c =
     (let n = (of_char c :: nat) in
      if (65 \<le> n \<and> n \<le> 90) \<or> (192 \<le> n \<and> n \<le> 222 \<and> n \<noteq> 215) then char_of (n + 32)
      else c)"

definition toLowerCase :: "string \<Rightarrow> string" where
  "toLowerCase s = map lowerChar s"

text \<open>\<^verbatim>\<open>s.includes(p)\<close>: \<open>p\<close> occurs in \<open>s\<close> as a run of consecutive characters.\<close>

fun includesStr :: "string \<Rightarrow> string \<Rightarrow> bool" where
  "includesStr [] p = (p = [])"
| "includesStr (c # s) p = (prefix p (c # s) \<or> includesStr s p)"

text \<open>The decimal form of an integer, as \<^verbatim>\<open>Number.prototype.toString\<close> and template
  strings write it (for magnitudes below \<open>10^21\<close>).\<close>

definition digitChar :: "nat \<Rightarrow> char" where
  "digitChar d = char_of (48 + d)"

fun digitsOf :: "nat \<Rightarrow> string" where
  "digitsOf n = (if n < 10 then [digitChar n] else digitsOf (n div 10) @ [digitChar (n mod 10)])"

definition decimal :: "int \<Rightarrow> string" where
  "decimal i = (if i < 0 then CHR ''-'' # digitsOf (nat (- i)) else digitsOf (nat i))"

definition isDigit :: "char \<Rightarrow> bool" where
  "isDigit c = (48 \<le> (of_char c :: nat) \<and> (of_char c :: nat) \<le> 57)"

definition digitVal :: "char \<Rightarrow> nat" where
  "digitVal c = of_char c - 48"

definition natOfDigits :: "string \<Rightarrow> nat" where
  "natOfDigits s = foldl (\<lambda>a c. 10 * a + digitVal c) 0 s"

text \<open>
  The number a string converts to (\<^verbatim>\<open>ToNumber\<close>), for the strings whose number is an
  integer written in decimal: white space is trimmed, the empty string is 0, a sign may
  lead the digits. \<open>None\<close> stands for \<^verbatim>\<open>NaN\<close>; the other numeric literals of
  JavaScript (fractions, exponents, hexadecimal, \<^verbatim>\<open>Infinity\<close>) are outside the model's
  numbers and read as \<open>None\<close> too.
\<close>

definition strToNum :: "string \<Rightarrow> int option" where
  "strToNum s =
     (case trim s of
        [] \<Rightarrow> Some 0
      | c # r \<Rightarrow>
          if c = CHR ''-'' \<and> r \<noteq> [] \<and> list_all isDigit r then Some (- int (natOfDigits r))
          else if c = CHR ''+'' \<and> r \<noteq> [] \<and> list_all isDigit r then Some (int (natOfDigits r))
          else if list_all isDigit (c # r) then Some (int (natOfDigits (c # r)))
          else None)"

fun joinComma :: "string list \<Rightarrow> string" where
  "joinComma [] = []"
| "joinComma [s] = s"
| "joinComma (s # t # ss) = s @ CHR '','' # joinComma (t # ss)"

text \<open>\<^verbatim>\<open>String(v)\<close> and \<^verbatim>\<open>`${v}`\<close>: an array joins its elements with commas (null and
  undefined elements as the empty string), a plain object is \<^verbatim>\<open>[object Object]\<close>.\<close>

fun toStr :: "jsval \<Rightarrow> string" where
  "toStr JUndefined = ''undefined''"
| "toStr JNull = ''null''"
| "toStr (JBool b) = (if b then ''true'' else ''false'')"
| "toStr (JNum n) = decimal n"
| "toStr (JStr s) = s"
| "toStr (JArr xs) = joinComma (map (\<lambda>x. if nullish x then [] else toStr x) xs)"
| "toStr (JObj fs) = ''[object Object]''"

fun toNumber :: "jsval \<Rightarrow> int option" where
  "toNumber JUndefined = None"
| "toNumber JNull = Some 0"
| "toNumber (JBool b) = Some (if b then 1 else 0)"
| "toNumber (JNum n) = Some n"
| "toNumber (JStr s) = strToNum s"
| "toNumber (JArr xs) = strToNum (toStr (JArr xs))"
| "toNumber (JObj fs) = None"

text \<open>\<^verbatim>\<open>a - b\<close>; \<open>None\<close> is \<^verbatim>\<open>NaN\<close>.\<close>

definition minus :: "jsval \<Rightarrow> jsval \<Rightarrow> int option" where
  "minus a b =
     (case (toNumber a, toNumber b) of (Some x, Some y) \<Rightarrow> Some (x - y) | _ \<Rightarrow> None)"

text \<open>
  \<^verbatim>\<open>v + 1\<close>: numbers add, a string (and an array or object, through its string) takes
  the character 1 at its end. \<^verbatim>\<open>undefined + 1\<close> is \<^verbatim>\<open>NaN\<close>, which \<^verbatim>\<open>JSON.stringify\<close>
  writes as null.
\<close>

fun plusOne :: "jsval \<Rightarrow> jsval" where
  "plusOne JUndefined = JNull"
| "plusOne JNull = JNum 1"
| "plusOne (JBool b) = JNum ((if b then 1 else 0) + 1)"
| "plusOne (JNum n) = JNum (n + 1)"
| "plusOne (JStr s) = JStr (s @ ''1'')"
| "plusOne (JArr xs) = JStr (toStr (JArr xs) @ ''1'')"
| "plusOne (JObj fs) = JStr (toStr (JObj fs) @ ''1'')"

subsection \<open>Equality\<close>

text \<open>
  \<^verbatim>\<open>a === b\<close>. An array or object is equal only to itself; the services compare a value
  read from a fresh \<^verbatim>\<open>JSON.parse\<close> with an argument, which are never the same object.
\<close>

definition strictEq :: "jsval \<Rightarrow> jsval \<Rightarrow> bool" where
  "strictEq a b = (if isObject a \<or> isObject b then False else a = b)"

definition toPrimitive :: "jsval \<Rightarrow> jsval" where
  "toPrimitive v = (if isObject v then JStr (toStr v) else v)"

text \<open>\<^verbatim>\<open>a == b\<close> between two primitives that are not null or undefined: values of one
  type compare as they are, values of different types compare as numbers.\<close>

fun primEq :: "jsval \<Rightarrow> jsval \<Rightarrow> bool" where
  "primEq (JNum a) (JNum b) = (a = b)"
| "primEq (JStr s) (JStr t) = (s = t)"
| "primEq (JBool a) (JBool b) = (a = b)"
| "primEq a b = (case (toNumber a, toNumber b) of (Some x, Some y) \<Rightarrow> x = y | _ \<Rightarrow> False)"

definition looseEq :: "jsval \<Rightarrow> jsval \<Rightarrow> bool" where
  "looseEq a b =
     (if nullish a \<or> nullish b then nullish a \<and> nullish b
      else if isObject a \<and> isObject b then False
      else primEq (toPrimitive a) (toPrimitive b))"

subsection \<open>Properties\<close>

definition field :: "(string \<times> jsval) list \<Rightarrow> string \<Rightarrow> jsval" where
  "field fs k = (case map_of fs k of Some v \<Rightarrow> v | None \<Rightarrow> JUndefined)"

text \<open>\<^verbatim>\<open>x.k\<close> for a value that is not null or undefined and a name \<open>k\<close> that is not an
  array index (the services read named properties only).\<close>

fun propOf :: "jsval \<Rightarrow> string \<Rightarrow> jsval" where
  "propOf (JObj fs) k = field fs k"
| "propOf (JArr xs) k = (if k = ''length'' then JNum (int (length xs)) else JUndefined)"
| "propOf (JStr s) k = (if k = ''length'' then JNum (int (length s)) else JUndefined)"
| "propOf v k = JUndefined"

text \<open>\<^verbatim>\<open>x.k\<close>: reading a property of null or undefined throws.\<close>

definition getProp :: "jsval \<Rightarrow> string \<Rightarrow> error + jsval" where
  "getProp x k = (if nullish x then Inl TypeError else Inr (propOf x k))"

text \<open>\<^verbatim>\<open>x?.k\<close>.\<close>

definition optProp :: "jsval \<Rightarrow> string \<Rightarrow> jsval" where
  "optProp x k = (if nullish x then JUndefined else propOf x k)"

text \<open>Writing a property of an object: an existing property keeps its place, a new one
  goes last.\<close>

fun setField :: "(string \<times> jsval) list \<Rightarrow> string \<Rightarrow> jsval \<Rightarrow> (string \<times> jsval) list" where
  "setField [] k v = [(k, v)]"
| "setField ((k', v') # fs) k v = (if k' = k then (k, v) # fs else (k', v') # setField fs k v)"

text \<open>
  \<^verbatim>\<open>x[k] = v\<close> in strict code (the sources are modules), \<open>k\<close> a name: a named property
  set on an array is not part of what \<^verbatim>\<open>JSON.stringify\<close> writes, setting a property of a
  primitive, of null or of undefined throws.
\<close>

fun assignProp :: "jsval \<Rightarrow> string \<Rightarrow> jsval \<Rightarrow> error + jsval" where
  "assignProp (JObj fs) k v = Inr (JObj (setField fs k v))"
| "assignProp (JArr xs) k v = Inr (JArr xs)"
| "assignProp x k v = Inl TypeError"

text \<open>The own enumerable properties that \<^verbatim>\<open>{...x}\<close> copies.\<close>

fun ownProps :: "jsval \<Rightarrow> (string \<times> jsval) list" where
  "ownProps (JObj fs) = fs"
| "ownProps (JArr xs) = zip (map (\<lambda>i. decimal (int i)) [0..<length xs]) xs"
| "ownProps (JStr s) = zip (map (\<lambda>i. decimal (int i)) [0..<length s]) (map (\<lambda>c. JStr [c]) s)"
| "ownProps v = []"

text \<open>\<^verbatim>\<open>{...fs, ...x}\<close>: the properties of \<open>x\<close> are written over \<open>fs\<close> in their order.\<close>

definition spread :: "(string \<times> jsval) list \<Rightarrow> jsval \<Rightarrow> (string \<times> jsval) list" where
  "spread fs x = foldl (\<lambda>acc kv. setField acc (fst kv) (snd kv)) fs (ownProps x)"

text \<open>\<^verbatim>\<open>xs.push(v)\<close> on a parsed value: only an array has the method.\<close>

fun push :: "jsval \<Rightarrow> jsval \<Rightarrow> error + jsval" where
  "push (JArr xs) v = Inr (JArr (xs @ [v]))"
| "push x v = Inl TypeError"

text \<open>The elements of a parsed value on which an array method is called.\<close>

fun asArray :: "jsval \<Rightarrow> error + jsval list" where
  "asArray (JArr xs) = Inr xs"
| "asArray x = Inl TypeError"

subsection \<open>JSON text\<close>

text \<open>
  What \<^verbatim>\<open>JSON.parse(JSON.stringify(v))\<close> returns for an array or object \<open>v\<close>: a property
  whose value is undefined is left out, an undefined element of an array becomes null.
\<close>

fun jsonify :: "jsval \<Rightarrow> jsval" where
  "jsonify (JArr xs) = JArr (map (\<lambda>x. if x = JUndefined then JNull else jsonify x) xs)"
| "jsonify (JObj fs) =
     JObj (map (\<lambda>(k, v). (k, jsonify v)) (filter (\<lambda>(k, v). v \<noteq> JUndefined) fs))"
| "jsonify v = v"

text \<open>
  A stored string is kept as what \<^verbatim>\<open>JSON.parse\<close> makes of it: \<open>Json v\<close> is a text that
  parses to \<open>v\<close>, \<open>Malformed s\<close> is a text \<open>s\<close> that \<^verbatim>\<open>JSON.parse\<close> refuses. The empty
  string, the only string that is falsy, is \<open>Malformed []\<close>.
\<close>

datatype jsontext = Json jsval | Malformed string

definition JSON_stringify :: "jsval \<Rightarrow> jsontext" where
  "JSON_stringify v = Json (jsonify v)"

fun JSON_parse :: "jsontext \<Rightarrow> error + jsval" where
  "JSON_parse (Json v) = Inr v"
| "JSON_parse (Malformed s) = Inl SyntaxError"

section \<open>The storage and the effects of a call\<close>

text \<open>
  \<^verbatim>\<open>localStorage\<close> in its browser: the stored items, the browser's decision to refuse a
  write (the quota), which may depend on what is stored, on the key and on the text, and
  the message texts of the engine's own errors. These differ from engine to engine and
  may quote the text or the expression that failed; a call reads the message of at most
  one error, so one text for each kind of error is kept, and any text may be taken.
\<close>

record storage =
  items :: "string \<Rightarrow> jsontext option"
  refuses :: "(string \<Rightarrow> jsontext option) \<Rightarrow> string \<Rightarrow> jsontext \<Rightarrow> bool"
  texts :: "error \<Rightarrow> string"

text \<open>
  \<^verbatim>\<open>error.message\<close>: the text that an \<^verbatim>\<open>Error\<close> of the code was created with, and for
  an error of the engine the text that the engine gives it.
\<close>

definition message :: "storage \<Rightarrow> error \<Rightarrow> string" where
  "message st e = (case e of Error m \<Rightarrow> m | _ \<Rightarrow> texts st e)"

text \<open>A call runs on the storage and returns a value or throws; what it has written
  before it throws stays written.\<close>

type_synonym 'a io = "storage \<Rightarrow> (error + 'a) \<times> storage"

definition ok :: "'a \<Rightarrow> 'a io" where
  "ok x = (\<lambda>st. (Inr x, st))"

definition raise :: "error \<Rightarrow> 'a io" where
  "raise e = (\<lambda>st. (Inl e, st))"

definition lift :: "error + 'a \<Rightarrow> 'a io" where
  "lift r = (\<lambda>st. (r, st))"

definition bnd :: "'a io \<Rightarrow> ('a \<Rightarrow> 'b io) \<Rightarrow> 'b io" where
  "bnd m f = (\<lambda>st. case m st of (Inl e, st') \<Rightarrow> (Inl e, st') | (Inr x, st') \<Rightarrow> f x st')"

text \<open>\<^verbatim>\<open>try { m } catch (e) { h(e) }\<close>.\<close>

definition tryCatch :: "'a io \<Rightarrow> (error \<Rightarrow> 'a io) \<Rightarrow> 'a io" where
  "tryCatch m h = (\<lambda>st. case m st of (Inl e, st') \<Rightarrow> h e st' | (Inr x, st') \<Rightarrow> (Inr x, st'))"

definition getItem :: "string \<Rightarrow> jsontext option io" where
  "getItem k = (\<lambda>st. (Inr (items st k), st))"

definition setItem :: "string \<Rightarrow> jsontext \<Rightarrow> unit io" where
  "setItem k t =
     (\<lambda>st. if refuses st (items st) k t then (Inl QuotaExceededError, st)
           else (Inr (), st\<lparr>items := (items st)(k \<mapsto> t)\<rparr>))"

definition removeItem :: "string \<Rightarrow> unit io" where
  "removeItem k = (\<lambda>st. (Inr (), st\<lparr>items := (items st)(k := None)\<rparr>))"

text \<open>Whether \<^verbatim>\<open>localStorage.getItem(k)\<close> is truthy: the key is there and its string is
  not empty.\<close>

fun present :: "jsontext option \<Rightarrow> bool" where
  "present None = False"
| "present (Some t) = (t \<noteq> Malformed [])"

text \<open>\<^verbatim>\<open>JSON.parse(localStorage.getItem(k) || d)\<close>, with \<open>dflt\<close> the value of the text \<open>d\<close>.\<close>

definition parseItemOr :: "string \<Rightarrow> jsval \<Rightarrow> jsval io" where
  "parseItemOr k dflt =
     bnd (getItem k) (\<lambda>stored.
       case stored of
         None \<Rightarrow> ok dflt
       | Some t \<Rightarrow> if present stored then lift (JSON_parse t) else ok dflt)"

section \<open>BrowserChatMessageStorage\<close>

text \<open>
  The class of \<^verbatim>\<open>BrowserChatMessageStorage.ts\<close>. Its one field, \<^verbatim>\<open>storagePrefix\<close>, is the
  argument \<open>pfx\<close> of every method; \<^verbatim>\<open>Date.now()\<close> is the argument \<open>now\<close>.
\<close>

text \<open>The constructor's \<^verbatim>\<open>options.storagePrefix || "chat_"\<close>.\<close>

definition storagePrefix :: "string option \<Rightarrow> string" where
  "storagePrefix opt = (case opt of None \<Rightarrow> ''chat_'' | Some p \<Rightarrow> if p = [] then ''chat_'' else p)"

definition seedItem :: "string \<Rightarrow> jsval \<Rightarrow> unit io" where
  "seedItem k v =
     bnd (getItem k) (\<lambda>stored.
       if \<not> present stored then setItem k (JSON_stringify v) else ok ())"

definition initializeStorage :: "string \<Rightarrow> unit io" where
  "initializeStorage pfx =
     bnd (seedItem (pfx @ ''sessions'') (JArr [])) (\<lambda>_.
     bnd (seedItem (pfx @ ''messages'') (JArr [])) (\<lambda>_.
     seedItem (pfx @ ''counters'') (JObj [(''sessionId'', JNum 1), (''messageId'', JNum 1)])))"

definition getNextId :: "string \<Rightarrow> string \<Rightarrow> jsval io" where
  "getNextId pfx type =
     bnd (parseItemOr (pfx @ ''counters'') (JObj [])) (\<lambda>counters.
     bnd (lift (getProp counters type)) (\<lambda>c.
     let nextId = orElse c (JNum 1) in
     bnd (lift (assignProp counters type (plusOne nextId))) (\<lambda>counters'.
     bnd (setItem (pfx @ ''counters'') (JSON_stringify counters')) (\<lambda>_.
     ok nextId))))"

definition storeSession :: "string \<Rightarrow> jsval \<Rightarrow> jsval io" where
  "storeSession pfx title =
     bnd (parseItemOr (pfx @ ''sessions'') (JArr [])) (\<lambda>sessions.
     bnd (getNextId pfx ''sessionId'') (\<lambda>sid.
     let session = JObj [(''id'', sid), (''title'', title)] in
     bnd (lift (push sessions session)) (\<lambda>sessions'.
     bnd (setItem (pfx @ ''sessions'') (JSON_stringify sessions')) (\<lambda>_.
     ok session))))"

subsection \<open>The session title\<close>

text \<open>
  \<^verbatim>\<open>content.replace(/^(.{1,100})(\s.*|$)/, (_, a) => a)\<close>. The second group at the rest
  \<open>r\<close> of the string: a white-space character and then every character up to the next
  line terminator, or else the end of the string. The result is what stays after the
  match.
\<close>

fun group2 :: "string \<Rightarrow> string option" where
  "group2 [] = Some []"
| "group2 (c # r) = (if isWhiteSpace c then Some (dropWhile (\<lambda>d. \<not> isLineTerminator d) r) else None)"

text \<open>The first group is greedy: it takes \<open>n\<close> characters and gives one back at a time
  until the second group matches; with none left the expression does not match.\<close>

fun tryLen :: "nat \<Rightarrow> string \<Rightarrow> (string \<times> string) option" where
  "tryLen 0 s = None"
| "tryLen (Suc n) s =
     (case group2 (drop (Suc n) s) of
        Some rest \<Rightarrow> Some (take (Suc n) s, rest)
      | None \<Rightarrow> tryLen n s)"

text \<open>The longest run the first group can take: at most 100 characters, none of them a
  line terminator. Without a match \<^verbatim>\<open>replace\<close> returns the string as it is; with one,
  the match is replaced by its first group.\<close>

definition titleReplace :: "string \<Rightarrow> string" where
  "titleReplace s =
     (case tryLen (min 100 (length (takeWhile (\<lambda>d. \<not> isLineTerminator d) s))) s of
        None \<Rightarrow> s
      | Some (a, rest) \<Rightarrow> a @ rest)"

text \<open>\<^verbatim>\<open>x[x.length - 1]\<close> for a value \<open>x\<close> that is not null or undefined.\<close>

fun lastOf :: "jsval \<Rightarrow> jsval" where
  "lastOf (JArr xs) = (if xs = [] then JUndefined else last xs)"
| "lastOf (JStr s) = (if s = [] then JUndefined else JStr [last s])"
| "lastOf (JObj fs) =
     (case toNumber (field fs ''length'') of
        Some n \<Rightarrow> field fs (decimal (n - 1))
      | None \<Rightarrow> field fs ''NaN'')"
| "lastOf v = JUndefined"

text \<open>
  The title \<^verbatim>\<open>storeChat\<close> derives:
  \<^verbatim>\<open>request.messages?.[request.messages.length - 1]\<close>, then
  \<^verbatim>\<open>lastMessage?.content?.replace(...) ?? "New Chat"\<close>. A content that is neither a
  string nor null nor undefined has no \<^verbatim>\<open>replace\<close> method.
\<close>

definition deriveTitle :: "jsval \<Rightarrow> error + jsval" where
  "deriveTitle request =
     (case getProp request ''messages'' of
        Inl e \<Rightarrow> Inl e
      | Inr msgs \<Rightarrow>
          let lastMessage = (if nullish msgs then JUndefined else lastOf msgs);
              content = optProp lastMessage ''content''
          in if nullish content then Inr (JStr ''New Chat'')
             else case content of
                    JStr s \<Rightarrow> Inr (JStr (titleReplace s))
                  | _ \<Rightarrow> Inl TypeError)"

subsection \<open>Storing and retrieving\<close>

definition storeChat :: "string \<Rightarrow> jsval \<Rightarrow> jsval \<Rightarrow> jsval \<Rightarrow> int \<Rightarrow> jsval io" where
  "storeChat pfx currentMessage request response now =
     tryCatch
       (bnd (if \<not> truthy (optProp currentMessage ''sessionId'')
             then bnd (lift (deriveTitle request)) (\<lambda>title.
                  bnd (storeSession pfx title) (\<lambda>session.
                  ok (propOf session ''id'')))
             else ok (optProp currentMessage ''sessionId'')) (\<lambda>sessionId.
        bnd (parseItemOr (pfx @ ''messages'') (JArr [])) (\<lambda>messages.
        bnd (getNextId pfx ''messageId'') (\<lambda>mid.
        let msg = JObj [(''id'', mid),
                        (''sessionId'', sessionId),
                        (''previousMessageId'', orElse (optProp currentMessage ''id'') JNull),
                        (''request'', request),
                        (''response'', response),
                        (''cumulativeInputLength'', JNum 0),
                        (''updatedAt'', JNum now)] in
        bnd (lift (push messages msg)) (\<lambda>messages'.
        bnd (setItem (pfx @ ''messages'') (JSON_stringify messages')) (\<lambda>_.
        ok msg))))))
       (\<lambda>e st. raise (Error (''Failed to store chat message: '' @ message st e)) st)"

text \<open>\<^verbatim>\<open>messages.find((msg) => msg.id == id)\<close>: the first element whose id is loosely
  equal to \<open>i\<close>, undefined when there is none; reading the id of a null element throws.\<close>

fun findById :: "jsval list \<Rightarrow> jsval \<Rightarrow> error + jsval" where
  "findById [] i = Inr JUndefined"
| "findById (m # ms) i =
     (case getProp m ''id'' of
        Inl e \<Rightarrow> Inl e
      | Inr v \<Rightarrow> if looseEq v i then Inr m else findById ms i)"

definition retrieveMessageById :: "string \<Rightarrow> jsval \<Rightarrow> jsval io" where
  "retrieveMessageById pfx i =
     tryCatch
       (bnd (parseItemOr (pfx @ ''messages'') (JArr [])) (\<lambda>messages.
        bnd (lift (asArray messages)) (\<lambda>ms.
        bnd (lift (findById ms i)) (\<lambda>m.
        if \<not> truthy m then raise (Error (''Message with id '' @ toStr i @ '' not found''))
        else ok m))))
       (\<lambda>e st. if includesStr (message st e) ''not found'' then raise e st
               else raise (Error (''Failed to retrieve message: '' @ message st e)) st)"

text \<open>\<^verbatim>\<open>messages.filter((msg) => msg.sessionId == sessionId)\<close>.\<close>

fun filterBySession :: "jsval list \<Rightarrow> jsval \<Rightarrow> error + jsval list" where
  "filterBySession [] sid = Inr []"
| "filterBySession (m # ms) sid =
     (case getProp m ''sessionId'' of
        Inl e \<Rightarrow> Inl e
      | Inr v \<Rightarrow>
          (case filterBySession ms sid of
             Inl e \<Rightarrow> Inl e
           | Inr r \<Rightarrow> Inr (if looseEq v sid then m # r else r)))"

definition retrieveMessagesBySession :: "string \<Rightarrow> jsval \<Rightarrow> jsval list io" where
  "retrieveMessagesBySession pfx sid =
     tryCatch
       (bnd (parseItemOr (pfx @ ''messages'') (JArr [])) (\<lambda>messages.
        bnd (lift (asArray messages)) (\<lambda>ms.
        lift (filterBySession ms sid))))
       (\<lambda>e st. raise (Error (''Failed to retrieve messages for session: '' @ message st e)) st)"

definition retrieveAllSessions :: "string \<Rightarrow> jsval io" where
  "retrieveAllSessions pfx =
     tryCatch (parseItemOr (pfx @ ''sessions'') (JArr []))
       (\<lambda>e st. raise (Error (''Failed to retrieve sessions: '' @ message st e)) st)"

definition clearAllData :: "string \<Rightarrow> unit io" where
  "clearAllData pfx =
     tryCatch
       (bnd (removeItem (pfx @ ''sessions'')) (\<lambda>_.
        bnd (removeItem (pfx @ ''messages'')) (\<lambda>_.
        bnd (removeItem (pfx @ ''counters'')) (\<lambda>_.
        initializeStorage pfx))))
       (\<lambda>e st. raise (Error (''Failed to clear data: '' @ message st e)) st)"

section \<open>Array methods on parsed values\<close>

text \<open>
  \<^verbatim>\<open>xs.sort(compare)\<close> is a stable sort. \<open>x\<close> moves behind \<open>y\<close> only when
  \<^verbatim>\<open>compare(x, y)\<close> is positive; a result of zero or \<^verbatim>\<open>NaN\<close> leaves the two in their
  order. (With a comparison that is not consistent, as \<^verbatim>\<open>NaN\<close> results make it, the
  language leaves the order to the engine; this is the order of a stable insertion.)
\<close>

fun insertBy :: "(jsval \<Rightarrow> jsval \<Rightarrow> int option) \<Rightarrow> jsval \<Rightarrow> jsval list \<Rightarrow> jsval list" where
  "insertBy cmp x [] = [x]"
| "insertBy cmp x (y # ys) =
     (if (case cmp x y of Some d \<Rightarrow> 0 < d | None \<Rightarrow> False) then y # insertBy cmp x ys
      else x # y # ys)"

definition sortBy :: "(jsval \<Rightarrow> jsval \<Rightarrow> int option) \<Rightarrow> jsval list \<Rightarrow> jsval list" where
  "sortBy cmp xs = foldr (insertBy cmp) xs []"

text \<open>
  \<^verbatim>\<open>xs.sort((a, b) => key(b) - key(a))\<close>, newest first. The comparison reads a property
  of both elements, so it throws when an element is null; it is called on every element
  of an array of two or more.
\<close>

definition sortDesc :: "(jsval \<Rightarrow> jsval) \<Rightarrow> jsval list \<Rightarrow> error + jsval list" where
  "sortDesc key xs =
     (if 2 \<le> length xs \<and> list_ex nullish xs then Inl TypeError
      else Inr (sortBy (\<lambda>a b. minus (key b) (key a)) xs))"

text \<open>\<^verbatim>\<open>xs[i]\<close> for a number \<open>i\<close>.\<close>

definition at :: "jsval list \<Rightarrow> int \<Rightarrow> jsval" where
  "at xs i = (if 0 \<le> i \<and> nat i < length xs then xs ! nat i else JUndefined)"

text \<open>\<^verbatim>\<open>xs.find((x) => x.id === v)\<close>.\<close>

fun findStrict :: "jsval list \<Rightarrow> jsval \<Rightarrow> error + jsval" where
  "findStrict [] v = Inr JUndefined"
| "findStrict (x # xs) v =
     (case getProp x ''id'' of
        Inl e \<Rightarrow> Inl e
      | Inr w \<Rightarrow> if strictEq w v then Inr x else findStrict xs v)"

text \<open>\<^verbatim>\<open>xs.findIndex((x) => x.id === v)\<close>; \<open>None\<close> is the index -1.\<close>

fun findIndexStrict :: "jsval list \<Rightarrow> jsval \<Rightarrow> error + nat option" where
  "findIndexStrict [] v = Inr None"
| "findIndexStrict (x # xs) v =
     (case getProp x ''id'' of
        Inl e \<Rightarrow> Inl e
      | Inr w \<Rightarrow>
          if strictEq w v then Inr (Some 0)
          else (case findIndexStrict xs v of
                  Inl e \<Rightarrow> Inl e
                | Inr None \<Rightarrow> Inr None
                | Inr (Some i) \<Rightarrow> Inr (Some (Suc i))))"

text \<open>\<^verbatim>\<open>xs.filter((x) => x.id !== v)\<close>.\<close>

fun filterNotId :: "jsval list \<Rightarrow> jsval \<Rightarrow> error + jsval list" where
  "filterNotId [] v = Inr []"
| "filterNotId (x # xs) v =
     (case getProp x ''id'' of
        Inl e \<Rightarrow> Inl e
      | Inr w \<Rightarrow>
          (case filterNotId xs v of
             Inl e \<Rightarrow> Inl e
           | Inr r \<Rightarrow> Inr (if \<not> strictEq w v then x # r else r)))"

text \<open>A stored list read inside \<^verbatim>\<open>try { ... } catch { return [] }\<close>: the parsed value
  of the key when it holds a non-empty text, the empty array when it does not or when
  finding the key, reading or parsing throws.\<close>

definition readList :: "error + string \<Rightarrow> jsval io" where
  "readList key =
     tryCatch
       (bnd (lift key) (\<lambda>k.
        bnd (getItem k) (\<lambda>stored.
          case stored of
            None \<Rightarrow> ok (JArr [])
          | Some t \<Rightarrow> if present stored then lift (JSON_parse t) else ok (JArr []))))
       (\<lambda>e. ok (JArr []))"

text \<open>A list written inside \<^verbatim>\<open>try { ... } catch { console.error(...) }\<close>: what finding
  the key or the write throws is logged to the console and goes no further.\<close>

definition writeList :: "error + string \<Rightarrow> jsval \<Rightarrow> unit io" where
  "writeList key v =
     tryCatch (bnd (lift key) (\<lambda>k. setItem k (JSON_stringify v))) (\<lambda>e. ok ())"

section \<open>BrowserCheckpointService\<close>

text \<open>
  The class of \<^verbatim>\<open>BrowserCheckpointService.ts\<close>; \<open>pfx\<close> is its field
  \<^verbatim>\<open>storageKeyPrefixWithInstanceId\<close>, \<open>now\<close> is \<^verbatim>\<open>Date.now()\<close> and \<open>isoNow\<close> is
  \<^verbatim>\<open>new Date(now).toISOString()\<close>.
\<close>

definition storageKeyPrefixWithInstanceId :: "string option \<Rightarrow> string" where
  "storageKeyPrefixWithInstanceId instanceId =
     (case instanceId of
        None \<Rightarrow> ''tokenRingCheckpoints_v1_''
      | Some i \<Rightarrow> if i = [] then ''tokenRingCheckpoints_v1_''
                  else i @ ''_'' @ ''tokenRingCheckpoints_v1_'')"

definition getStorageKey :: "string \<Rightarrow> jsval \<Rightarrow> error + string" where
  "getStorageKey pfx sessionId =
     (if \<not> truthy sessionId then Inl (Error ''Session ID is required for checkpoint operations.'')
      else Inr (pfx @ toStr sessionId))"

definition getCheckpoints :: "string \<Rightarrow> jsval \<Rightarrow> jsval io" where
  "getCheckpoints pfx sessionId = readList (getStorageKey pfx sessionId)"

definition saveCheckpoints :: "string \<Rightarrow> jsval \<Rightarrow> jsval \<Rightarrow> unit io" where
  "saveCheckpoints pfx sessionId checkpoints = writeList (getStorageKey pfx sessionId) checkpoints"

definition createCheckpoint ::
    "string \<Rightarrow> jsval \<Rightarrow> jsval \<Rightarrow> jsval \<Rightarrow> int \<Rightarrow> string \<Rightarrow> jsval io" where
  "createCheckpoint pfx label currentMessage sessionId now isoNow =
     (if \<not> truthy sessionId then raise (Error ''Session ID is required.'')
      else if \<not> truthy currentMessage
      then raise (Error ''No active chat (currentMessage) to checkpoint.'')
      else
        bnd (getCheckpoints pfx sessionId) (\<lambda>checkpoints.
        let newCheckpoint =
              JObj [(''id'', JStr (decimal now)),
                    (''label'', orElse label (JStr (''Checkpoint @ '' @ isoNow))),
                    (''messageId'', propOf currentMessage ''id''),
                    (''currentMessage'', jsonify currentMessage),
                    (''timestamp'', JNum now),
                    (''createdAt'', JNum now)] in
        bnd (lift (push checkpoints newCheckpoint)) (\<lambda>checkpoints'.
        bnd (saveCheckpoints pfx sessionId checkpoints') (\<lambda>_.
        ok newCheckpoint))))"

definition timestampOf :: "jsval \<Rightarrow> jsval" where
  "timestampOf cp = propOf cp ''timestamp''"

definition retrieveCheckpoint :: "string \<Rightarrow> jsval \<Rightarrow> jsval \<Rightarrow> jsval io" where
  "retrieveCheckpoint pfx idOrIdx sessionId =
     (if \<not> truthy sessionId then raise (Error ''Session ID is required.'')
      else
        bnd (getCheckpoints pfx sessionId) (\<lambda>checkpoints.
        bnd (lift (asArray checkpoints)) (\<lambda>cps.
        bnd (case idOrIdx of
               JNum i \<Rightarrow> bnd (lift (sortDesc timestampOf cps)) (\<lambda>sortedCheckpoints.
                          ok (at sortedCheckpoints i))
             | _ \<Rightarrow> lift (findStrict cps idOrIdx)) (\<lambda>checkpoint.
        ok (orElse checkpoint JNull)))))"

definition listCheckpoint :: "string \<Rightarrow> jsval \<Rightarrow> jsval list io" where
  "listCheckpoint pfx sessionId =
     (if \<not> truthy sessionId then raise (Error ''Session ID is required.'')
      else
        bnd (getCheckpoints pfx sessionId) (\<lambda>checkpoints.
        bnd (lift (asArray checkpoints)) (\<lambda>cps.
        lift (sortDesc timestampOf cps))))"

definition clearAllCheckpoints :: "string \<Rightarrow> jsval \<Rightarrow> unit io" where
  "clearAllCheckpoints pfx sessionId =
     (if \<not> truthy sessionId then raise (Error ''Session ID is required.'')
      else saveCheckpoints pfx sessionId (JArr []))"

section \<open>BrowserChatHistoryService\<close>

text \<open>
  The class of \<^verbatim>\<open>BrowserChatHistoryService\<close>; \<open>pfx\<close> is its field \<^verbatim>\<open>storageKeyPrefix\<close>
  (its other field, \<^verbatim>\<open>sessionsListKey\<close>, is \<open>pfx\<close> followed by \<^verbatim>\<open>sessions_v1\<close>). Every
  call of \<^verbatim>\<open>Date.now()\<close> is an argument of its own, and so is the localized time that
  names a session created without a name.
\<close>

definition storageKeyPrefix :: "string option \<Rightarrow> string" where
  "storageKeyPrefix opt =
     (case opt of None \<Rightarrow> ''tokenRingChat_'' | Some p \<Rightarrow> if p = [] then ''tokenRingChat_'' else p)"

definition sessionsListKey :: "string \<Rightarrow> string" where
  "sessionsListKey pfx = pfx @ ''sessions_v1''"

definition getSessionsList :: "string \<Rightarrow> jsval io" where
  "getSessionsList pfx = readList (Inr (sessionsListKey pfx))"

definition saveSessionsList :: "string \<Rightarrow> jsval \<Rightarrow> unit io" where
  "saveSessionsList pfx sessions = writeList (Inr (sessionsListKey pfx)) sessions"

definition getSessionKey :: "string \<Rightarrow> jsval \<Rightarrow> error + string" where
  "getSessionKey pfx sessionId =
     (if \<not> truthy sessionId then Inl (Error ''Session ID is required for message operations.'')
      else Inr (pfx @ ''history_'' @ toStr sessionId))"

definition getMessages :: "string \<Rightarrow> jsval \<Rightarrow> jsval io" where
  "getMessages pfx sessionId = readList (getSessionKey pfx sessionId)"

definition saveMessages :: "string \<Rightarrow> jsval \<Rightarrow> jsval \<Rightarrow> unit io" where
  "saveMessages pfx sessionId messages = writeList (getSessionKey pfx sessionId) messages"

definition lastActivityOf :: "jsval \<Rightarrow> jsval" where
  "lastActivityOf s = propOf s ''lastActivity''"

definition listSessions :: "string \<Rightarrow> jsval list io" where
  "listSessions pfx =
     bnd (getSessionsList pfx) (\<lambda>sessions.
     bnd (lift (asArray sessions)) (\<lambda>xs.
     lift (sortDesc lastActivityOf xs)))"

text \<open>\<^verbatim>\<open>name && name.trim() ? name.trim() : d\<close>: a truthy name that is not a string has
  no \<^verbatim>\<open>trim\<close>.\<close>

definition trimmedOr :: "jsval \<Rightarrow> string \<Rightarrow> error + string" where
  "trimmedOr name d =
     (if \<not> truthy name then Inr d
      else case name of
             JStr s \<Rightarrow> Inr (if trim s \<noteq> [] then trim s else d)
           | _ \<Rightarrow> Inl TypeError)"

text \<open>\<^verbatim>\<open>sessions.unshift(newSession)\<close>.\<close>

fun unshift :: "jsval \<Rightarrow> jsval \<Rightarrow> error + jsval" where
  "unshift (JArr xs) v = Inr (JArr (v # xs))"
| "unshift x v = Inl TypeError"

definition createSession :: "string \<Rightarrow> jsval \<Rightarrow> int \<Rightarrow> string \<Rightarrow> jsval io" where
  "createSession pfx name now timeLabel =
     bnd (getSessionsList pfx) (\<lambda>sessions.
     let sessionId = JStr (decimal now) in
     bnd (lift (trimmedOr name (''Chat @ '' @ timeLabel))) (\<lambda>sessionName.
     let newSession =
           JObj [(''id'', sessionId),
                 (''title'', JStr sessionName),
                 (''name'', JStr sessionName),
                 (''lastActivity'', JNum now),
                 (''createdAt'', JNum now),
                 (''previewText'', JStr ''New chat session.'')] in
     bnd (lift (unshift sessions newSession)) (\<lambda>sessions'.
     bnd (saveSessionsList pfx sessions') (\<lambda>_.
     bnd (saveMessages pfx sessionId (JArr [])) (\<lambda>_.
     ok newSession)))))"

definition deleteSession :: "string \<Rightarrow> jsval \<Rightarrow> bool io" where
  "deleteSession pfx sessionId =
     (if \<not> truthy sessionId then ok False
      else
        bnd (getSessionsList pfx) (\<lambda>sessions.
        bnd (lift (asArray sessions)) (\<lambda>xs.
        bnd (lift (filterNotId xs sessionId)) (\<lambda>ys.
        if length ys < length xs
        then bnd (saveSessionsList pfx (JArr ys)) (\<lambda>_.
             bnd (lift (getSessionKey pfx sessionId)) (\<lambda>k.
             bnd (removeItem k) (\<lambda>_.
             ok True)))
        else ok False))))"

text \<open>The assignments to the properties of \<^verbatim>\<open>sessions[sessionIndex]\<close>.\<close>

fun assignProps :: "jsval \<Rightarrow> (string \<times> jsval) list \<Rightarrow> error + jsval" where
  "assignProps x [] = Inr x"
| "assignProps x ((k, v) # kvs) =
     (case assignProp x k v of Inl e \<Rightarrow> Inl e | Inr y \<Rightarrow> assignProps y kvs)"

text \<open>\<^verbatim>\<open>!newName || !newName.trim()\<close>.\<close>

definition blank :: "jsval \<Rightarrow> error + bool" where
  "blank newName =
     (if \<not> truthy newName then Inr True
      else case newName of JStr s \<Rightarrow> Inr (trim s = []) | _ \<Rightarrow> Inl TypeError)"

definition renameSession :: "string \<Rightarrow> jsval \<Rightarrow> jsval \<Rightarrow> int \<Rightarrow> jsval io" where
  "renameSession pfx sessionId newName now =
     (if \<not> truthy sessionId then ok JNull
      else
        bnd (lift (blank newName)) (\<lambda>b.
        if b then ok JNull
        else
          bnd (getSessionsList pfx) (\<lambda>sessions.
          bnd (lift (asArray sessions)) (\<lambda>xs.
          bnd (lift (findIndexStrict xs sessionId)) (\<lambda>sessionIndex.
          case sessionIndex of
            None \<Rightarrow> ok JNull
          | Some i \<Rightarrow>
              bnd (lift (assignProps (at xs (int i))
                     [(''name'', JStr (trim (toStr newName))),
                      (''title'', JStr (trim (toStr newName))),
                      (''lastActivity'', JNum now)])) (\<lambda>session.
              bnd (saveSessionsList pfx (JArr (xs[i := session]))) (\<lambda>_.
              ok session)))))))"

definition updateSessionMetadata :: "string \<Rightarrow> jsval \<Rightarrow> jsval \<Rightarrow> int \<Rightarrow> unit io" where
  "updateSessionMetadata pfx sessionId lastMessageText now =
     bnd (getSessionsList pfx) (\<lambda>sessions.
     bnd (lift (asArray sessions)) (\<lambda>xs.
     bnd (lift (findIndexStrict xs sessionId)) (\<lambda>sessionIndex.
     case sessionIndex of
       None \<Rightarrow> ok ()
     | Some i \<Rightarrow>
         let preview = take 50 (toStr (orElse lastMessageText (JStr []))) in
         bnd (lift (assignProps (at xs (int i))
                [(''lastActivity'', JNum now),
                 (''previewText'',
                    JStr (if length preview = 50 then preview @ ''...'' else preview))])) (\<lambda>session.
         saveSessionsList pfx (JArr (xs[i := session]))))))"

definition addMessage ::
    "string \<Rightarrow> jsval \<Rightarrow> jsval \<Rightarrow> int \<Rightarrow> int \<Rightarrow> int \<Rightarrow> int \<Rightarrow> jsval io" where
  "addMessage pfx sessionId msg nowId nowTimestamp nowCreatedAt nowActivity =
     (if \<not> truthy sessionId then raise (Error ''Session ID is required to add a message.'')
      else if \<not> truthy msg then raise (Error ''Invalid message object.'')
      else if \<not> isObject msg then raise (Error ''Invalid message object.'')
      else
        bnd (getMessages pfx sessionId) (\<lambda>messages.
        let messageToStore =
              JObj (spread
                [(''id'', orElse (propOf msg ''id'') (JStr (decimal nowId))),
                 (''timestamp'', orElse (propOf msg ''timestamp'') (JNum nowTimestamp)),
                 (''createdAt'', orElse (propOf msg ''createdAt'') (JNum nowCreatedAt)),
                 (''sessionId'', sessionId)]
                msg) in
        bnd (lift (push messages messageToStore)) (\<lambda>messages'.
        bnd (saveMessages pfx sessionId messages') (\<lambda>_.
        bnd (updateSessionMetadata pfx sessionId
               (orElse (propOf msg ''content'') (propOf msg ''text'')) nowActivity) (\<lambda>_.
        ok messageToStore)))))"

text \<open>The recency of a message: \<^verbatim>\<open>m.timestamp || m.createdAt || 0\<close>.\<close>

definition recencyOf :: "jsval \<Rightarrow> jsval" where
  "recencyOf m = orElse (orElse (propOf m ''timestamp'') (propOf m ''createdAt'')) (JNum 0)"

text \<open>\<^verbatim>\<open>xs.slice(0, limit)\<close>: a negative limit counts from the end.\<close>

definition slice0 :: "jsval list \<Rightarrow> int \<Rightarrow> jsval list" where
  "slice0 xs limit =
     (if 0 \<le> limit then take (nat limit) xs else take (length xs - nat (- limit)) xs)"

definition getRecentMessages :: "string \<Rightarrow> jsval \<Rightarrow> int \<Rightarrow> jsval list io" where
  "getRecentMessages pfx sessionId limit =
     (if \<not> truthy sessionId then ok []
      else
        bnd (getMessages pfx sessionId) (\<lambda>messages.
        bnd (lift (asArray messages)) (\<lambda>ms.
        bnd (lift (sortDesc recencyOf ms)) (\<lambda>sortedMessages.
        ok (rev (slice0 sortedMessages limit))))))"

definition clearSessionHistory :: "string \<Rightarrow> jsval \<Rightarrow> int \<Rightarrow> unit io" where
  "clearSessionHistory pfx sessionId now =
     (if \<not> truthy sessionId then raise (Error ''Session ID is required to clear history.'')
      else
        bnd (saveMessages pfx sessionId (JArr [])) (\<lambda>_.
        updateSessionMetadata pfx sessionId (JStr ''Chat history cleared.'') now))"

definition getThreadTree :: "string \<Rightarrow> jsval \<Rightarrow> jsval list io" where
  "getThreadTree pfx sessionId =
     (if \<not> truthy sessionId then raise (Error ''Session ID is required for getThreadTree.'')
      else getRecentMessages pfx sessionId 50)"

definition getChatHistoryByMessageId :: "string \<Rightarrow> jsval \<Rightarrow> jsval list io" where
  "getChatHistoryByMessageId pfx messageId = ok []"

text \<open>The text of a message that \<^verbatim>\<open>searchMessages\<close> looks into:
  \<^verbatim>\<open>m.text || m.content || ''\<close>.\<close>

definition textToSearch :: "jsval \<Rightarrow> jsval" where
  "textToSearch m = orElse (orElse (propOf m ''text'') (propOf m ''content'')) (JStr [])"

text \<open>The callback of the filter throws on a null message, and on a text that is not a
  string (it has no \<^verbatim>\<open>toLowerCase\<close>).\<close>

definition searchable :: "jsval \<Rightarrow> bool" where
  "searchable m = (\<not> nullish m \<and> (case textToSearch m of JStr s \<Rightarrow> True | _ \<Rightarrow> False))"

definition matches :: "string \<Rightarrow> jsval \<Rightarrow> bool" where
  "matches lowerKeyword m = includesStr (toLowerCase (toStr (textToSearch m))) lowerKeyword"

definition searchMessages :: "string \<Rightarrow> string \<Rightarrow> jsval \<Rightarrow> jsval list io" where
  "searchMessages pfx keyword sessionId =
     (if \<not> truthy sessionId then raise (Error ''Session ID is required for searchMessages.'')
      else if keyword = [] then ok []
      else
        bnd (getMessages pfx sessionId) (\<lambda>messages.
        let lowerKeyword = toLowerCase keyword in
        bnd (lift (asArray messages)) (\<lambda>ms.
        bnd (if list_all searchable ms then ok (filter (matches lowerKeyword) ms)
             else raise TypeError) (\<lambda>results.
        lift (sortDesc recencyOf results)))))"

section \<open>BrowserAgentStateStorage\<close>

text \<open>The class of \<^verbatim>\<open>BrowserAgentStateStorage.ts\<close>; \<open>pfx\<close> is its field
  \<^verbatim>\<open>storageKeyPrefix\<close>.\<close>

definition agentStorageKeyPrefix :: "string option \<Rightarrow> string" where
  "agentStorageKeyPrefix opt =
     (case opt of
        None \<Rightarrow> ''tokenRingAgentState_v1_''
      | Some p \<Rightarrow> if p = [] then ''tokenRingAgentState_v1_'' else p)"

definition agentStorageKey :: "string \<Rightarrow> string" where
  "agentStorageKey pfx = pfx @ ''checkpoints''"

definition getAllCheckpoints :: "string \<Rightarrow> jsval io" where
  "getAllCheckpoints pfx = readList (Inr (agentStorageKey pfx))"

definition saveAllCheckpoints :: "string \<Rightarrow> jsval \<Rightarrow> unit io" where
  "saveAllCheckpoints pfx checkpoints = writeList (Inr (agentStorageKey pfx)) checkpoints"

definition storeCheckpoint :: "string \<Rightarrow> jsval \<Rightarrow> int \<Rightarrow> string io" where
  "storeCheckpoint pfx checkpoint now =
     bnd (getAllCheckpoints pfx) (\<lambda>checkpoints.
     bnd (lift (getProp checkpoint ''agentId'')) (\<lambda>agentId.
     let ident = toStr agentId @ ''_'' @ decimal now;
         storedCheckpoint =
           JObj [(''id'', JStr ident),
                 (''agentId'', agentId),
                 (''name'', propOf checkpoint ''name''),
                 (''state'', propOf checkpoint ''state''),
                 (''createdAt'', orElse (propOf checkpoint ''createdAt'') (JNum now))] in
     bnd (lift (push checkpoints storedCheckpoint)) (\<lambda>checkpoints'.
     bnd (saveAllCheckpoints pfx checkpoints') (\<lambda>_.
     ok ident))))"

definition agentRetrieveCheckpoint :: "string \<Rightarrow> jsval \<Rightarrow> jsval io" where
  "agentRetrieveCheckpoint pfx checkpointId =
     bnd (getAllCheckpoints pfx) (\<lambda>checkpoints.
     bnd (lift (asArray checkpoints)) (\<lambda>cps.
     bnd (lift (findStrict cps checkpointId)) (\<lambda>checkpoint.
     ok (orElse checkpoint JNull))))"

definition createdAtOf :: "jsval \<Rightarrow> jsval" where
  "createdAtOf cp = propOf cp ''createdAt''"

text \<open>The list item of a checkpoint; reading the properties of a null element throws.\<close>

definition listItem :: "jsval \<Rightarrow> jsval" where
  "listItem cp =
     JObj [(''id'', propOf cp ''id''),
           (''name'', propOf cp ''name''),
           (''agentId'', propOf cp ''agentId''),
           (''createdAt'', propOf cp ''createdAt'')]"

definition listCheckpoints :: "string \<Rightarrow> jsval list io" where
  "listCheckpoints pfx =
     bnd (getAllCheckpoints pfx) (\<lambda>checkpoints.
     bnd (lift (asArray checkpoints)) (\<lambda>cps.
     if list_ex nullish cps then raise TypeError
     else lift (sortDesc createdAtOf (map listItem cps))))"

definition agentClearAllCheckpoints :: "string \<Rightarrow> unit io" where
  "agentClearAllCheckpoints pfx = saveAllCheckpoints pfx (JArr [])"

definition deleteCheckpoint :: "string \<Rightarrow> jsval \<Rightarrow> bool io" where
  "deleteCheckpoint pfx checkpointId =
     bnd (getAllCheckpoints pfx) (\<lambda>checkpoints.
     bnd (lift (asArray checkpoints)) (\<lambda>cps.
     bnd (lift (filterNotId cps checkpointId)) (\<lambda>filtered.
     if length filtered < length cps
     then bnd (saveAllCheckpoints pfx (JArr filtered)) (\<lambda>_. ok True)
     else ok False)))"

section \<open>Storages and inputs of the statements\<close>

text \<open>A storage that takes every write, and one that refuses every write (its quota is
  used up). In the storages of the examples the engine's errors have these texts.\<close>

fun engineTexts :: "error \<Rightarrow> string" where
  "engineTexts SyntaxError = ''Unexpected token in JSON''"
| "engineTexts TypeError = ''not a function or property of null''"
| "engineTexts QuotaExceededError = ''The quota has been exceeded.''"
| "engineTexts (Error m) = m"

definition accepting :: "storage \<Rightarrow> bool" where
  "accepting st = (\<forall>stored k t. \<not> refuses st stored k t)"

definition refusing :: "storage \<Rightarrow> bool" where
  "refusing st = (\<forall>stored k t. refuses st stored k t)"

definition emptyStorage :: storage where
  "emptyStorage = \<lparr>items = (\<lambda>k. None), refuses = (\<lambda>stored k t. False),
      texts = engineTexts\<rparr>"

definition fullStorage :: storage where
  "fullStorage = \<lparr>items = (\<lambda>k. None), refuses = (\<lambda>stored k t. True),
      texts = engineTexts\<rparr>"

text \<open>The accepting storage that holds the listed items.\<close>

definition holding :: "(string \<times> jsontext) list \<Rightarrow> storage" where
  "holding kvs = \<lparr>items = map_of kvs, refuses = (\<lambda>stored k t. False),
      texts = engineTexts\<rparr>"

text \<open>Contents of messages: a word of 101 letters, three lines, and a text of exactly 50
  characters.\<close>

definition longWord :: string where
  "longWord = replicate 101 CHR ''a''"

definition threeLines :: string where
  "threeLines = [CHR ''a'', CHR '' '', CHR ''b'', CHR 0x0A, CHR ''c'', CHR 0x0A, CHR ''d'']"

definition fifty :: string where
  "fifty = replicate 50 CHR ''x''"

text \<open>A request whose last message has the given content.\<close>

definition requestWith :: "string \<Rightarrow> jsval" where
  "requestWith content =
     JObj [(''messages'',
            JArr [JObj [(''role'', JStr ''system''), (''content'', JStr ''Be brief.'')],
                  JObj [(''role'', JStr ''user''), (''content'', JStr content)]])]"

text \<open>
  The state of a \<^verbatim>\<open>BrowserChatMessageStorage\<close> with \<open>n\<close> sessions and \<open>m\<close> messages
  created: the counters record holds the next two ids, and the ids of the stored
  sessions and of the stored messages are 1 to \<open>n\<close> and 1 to \<open>m\<close>, in the order of the
  lists.
\<close>

definition idOf :: "jsval \<Rightarrow> jsval" where
  "idOf x = propOf x ''id''"

definition countersAt :: "string \<Rightarrow> int \<Rightarrow> int \<Rightarrow> storage \<Rightarrow> bool" where
  "countersAt pfx s m st =
     (items st (pfx @ ''counters'')
        = Some (Json (JObj [(''sessionId'', JNum s), (''messageId'', JNum m)])))"

definition idsAt :: "string \<Rightarrow> int \<Rightarrow> storage \<Rightarrow> bool" where
  "idsAt key n st =
     (case items st key of
        Some (Json (JArr xs)) \<Rightarrow> map idOf xs = map JNum [1..n]
      | _ \<Rightarrow> False)"

definition consistent :: "string \<Rightarrow> int \<Rightarrow> int \<Rightarrow> storage \<Rightarrow> bool" where
  "consistent pfx n m st =
     (accepting st \<and> 0 \<le> n \<and> 0 \<le> m \<and> countersAt pfx (n + 1) (m + 1) st
      \<and> idsAt (pfx @ ''sessions'') n st \<and> idsAt (pfx @ ''messages'') m st)"

text \<open>The calls of a client that create sessions and messages, and the storage after a
  sequence of them (a call that throws leaves what it had written).\<close>

datatype call = NewSession jsval | Chat jsval jsval jsval int

fun perform :: "string \<Rightarrow> call \<Rightarrow> jsval io" where
  "perform pfx (NewSession title) = storeSession pfx title"
| "perform pfx (Chat currentMessage request response now) =
     storeChat pfx currentMessage request response now"

fun performAll :: "string \<Rightarrow> call list \<Rightarrow> storage \<Rightarrow> storage" where
  "performAll pfx [] st = st"
| "performAll pfx (c # cs) st = performAll pfx cs (snd (perform pfx c st))"

text \<open>A stored element that is an object (not an array, a primitive or null).\<close>

fun isRecord :: "jsval \<Rightarrow> bool" where
  "isRecord (JObj fs) = True"
| "isRecord v = False"

text \<open>
  The ids in a stored message of the message store: its id is a number, and its session
  id is a number or the decimal string of one (the caller of \<^verbatim>\<open>storeChat\<close> may pass
  either form).
\<close>

definition numeric :: "jsval \<Rightarrow> bool" where
  "numeric v = (case v of JNum n \<Rightarrow> True | _ \<Rightarrow> False)"

definition plainId :: "jsval \<Rightarrow> bool" where
  "plainId v =
     (case v of
        JNum n \<Rightarrow> True
      | JStr s \<Rightarrow> (case strToNum s of Some n \<Rightarrow> s = decimal n | None \<Rightarrow> False)
      | _ \<Rightarrow> False)"

definition storedMessage :: "jsval \<Rightarrow> bool" where
  "storedMessage m = (numeric (propOf m ''id'') \<and> plainId (propOf m ''sessionId''))"

text \<open>The number in a numeric value, and the time stamp of a checkpoint that has a
  numeric one.\<close>

definition num :: "jsval \<Rightarrow> int" where
  "num v = (case v of JNum n \<Rightarrow> n | _ \<Rightarrow> 0)"

definition stamped :: "jsval \<Rightarrow> bool" where
  "stamped cp = numeric (timestampOf cp)"

definition stamp :: "jsval \<Rightarrow> int" where
  "stamp cp = num (timestampOf cp)"

text \<open>The recency of a history message with a numeric one, and the text it is searched
  by.\<close>

definition recency :: "jsval \<Rightarrow> int" where
  "recency m = num (recencyOf m)"

definition searchText :: "jsval \<Rightarrow> string" where
  "searchText m = toStr (textToSearch m)"

text \<open>A current message and the label-independent fields of its checkpoint.\<close>

definition currentMessage0 :: jsval where
  "currentMessage0 = JObj [(''id'', JNum 7), (''sessionId'', JStr ''s1'')]"

text \<open>The storage that holds the listed items and refuses every write.\<close>

definition fullHolding :: "(string \<times> jsontext) list \<Rightarrow> storage" where
  "fullHolding kvs = \<lparr>items = map_of kvs, refuses = (\<lambda>stored k t. True),
      texts = engineTexts\<rparr>"

text \<open>The checkpoint that \<^verbatim>\<open>createCheckpoint\<close> builds for the label \<^verbatim>\<open>first\<close> at the clock
  reading 1000.\<close>

definition checkpoint0 :: jsval where
  "checkpoint0 =
     JObj [(''id'', JStr ''1000''),
           (''label'', JStr ''first''),
           (''messageId'', JNum 7),
           (''currentMessage'', currentMessage0),
           (''timestamp'', JNum 1000),
           (''createdAt'', JNum 1000)]"

text \<open>A storage that refuses every write; it holds the sessions list of a chat history
  with the prefix \<^verbatim>\<open>p_\<close> and, under the other keys, texts that do not parse.\<close>

definition brokenStorage :: storage where
  "brokenStorage =
     fullHolding [(''p_s1'', Malformed ''{x''),
                  (''p_history_s1'', Malformed ''{x''),
                  (''p_sessions'', Malformed ''{x''),
                  (''p_messages'', Malformed ''{x''),
                  (''p_checkpoints'', Malformed ''{x''),
                  (''q_sessions_v1'', Malformed ''{x''),
                  (''p_sessions_v1'', Json (JArr [JObj [(''id'', JStr ''s1'')]]))]"

text \<open>A storage that refuses every write to one key, whatever it does with the others,
  and, for an example, the storage of a message store after its constructor that refuses
  the writes of its messages and no other write.\<close>

definition refusingKey :: "storage \<Rightarrow> string \<Rightarrow> bool" where
  "refusingKey st k = (\<forall>stored t. refuses st stored k t)"

definition messagesRefused :: storage where
  "messagesRefused =
     \<lparr>items = map_of [(''chat_sessions'', Json (JArr [])),
                      (''chat_messages'', Json (JArr [])),
                      (''chat_counters'',
                       Json (JObj [(''sessionId'', JNum 1), (''messageId'', JNum 1)]))],
      refuses = (\<lambda>stored k t. k = ''chat_messages''),
      texts = engineTexts\<rparr>"

text \<open>The value that a read inside \<^verbatim>\<open>try\<close> and \<^verbatim>\<open>catch\<close> yields, and the storage that a
  write inside \<^verbatim>\<open>try\<close> and \<^verbatim>\<open>catch\<close> leaves.\<close>

definition listAt :: "error + string \<Rightarrow> storage \<Rightarrow> jsval" where
  "listAt key st = (case fst (readList key st) of Inl e \<Rightarrow> JArr [] | Inr v \<Rightarrow> v)"

definition written :: "error + string \<Rightarrow> jsval \<Rightarrow> storage \<Rightarrow> storage" where
  "written key v st = snd (writeList key v st)"

text \<open>The storage of an engine whose \<^verbatim>\<open>SyntaxError\<close> quotes the text that did not parse,
  with a stored text that does not.\<close>

definition quotingStorage :: storage where
  "quotingStorage =
     \<lparr>items = map_of [(''p_messages'', Malformed ''not found'')],
      refuses = (\<lambda>stored k t. False),
      texts = (\<lambda>e. ''Unexpected token o, not found is not valid JSON'')\<rparr>"

section \<open>Properties\<close>

lemmas io_defs =
  Let_def ok_def raise_def lift_def bnd_def tryCatch_def getItem_def setItem_def removeItem_def

lemma setField_absent: "map_of fs k = None \<Longrightarrow> setField fs k v = fs @ [(k, v)]"
  by (induction fs) (auto split: if_splits)

lemma field_setField_same: "field (setField fs k v) k = v"
  by (induction fs) (auto simp: field_def)

lemma field_setField_other: "k' \<noteq> k \<Longrightarrow> field (setField fs k v) k' = field fs k'"
  by (induction fs) (auto simp: field_def)

lemma readList_state: "snd (readList key st) = st"
  by (cases key) (auto simp: readList_def io_defs split: option.splits sum.splits)


subsection \<open>Sorting newest first\<close>

lemma numeric_num: "numeric v \<Longrightarrow> v = JNum (num v)"
  by (cases v) (simp_all add: numeric_def num_def)

lemma minus_numeric:
  "numeric a \<Longrightarrow> numeric b \<Longrightarrow> minus a b = Some (num a - num b)"
  by (cases a; cases b) (simp_all add: numeric_def num_def minus_def)

lemma insertBy_insort:
  assumes "numeric (key x)" "list_all (\<lambda>y. numeric (key y)) ys"
  shows "insertBy (\<lambda>a b. minus (key b) (key a)) x ys = insort_key (\<lambda>c. - num (key c)) x ys"
  using assms by (induction ys) (auto simp: minus_numeric)

lemma sortBy_sort_key:
  assumes "list_all (\<lambda>y. numeric (key y)) xs"
  shows "sortBy (\<lambda>a b. minus (key b) (key a)) xs = sort_key (\<lambda>c. - num (key c)) xs"
  using assms
proof (induction xs)
  case Nil
  then show ?case by (simp add: sortBy_def)
next
  case (Cons x xs)
  then have "list_all (\<lambda>y. numeric (key y)) (sort_key (\<lambda>c. - num (key c)) xs)"
    by (simp add: list_all_iff)
  with Cons show ?case
    by (simp add: sortBy_def insertBy_insort sort_key_def)
qed

lemma sortDesc_sort_key:
  assumes "list_all (\<lambda>y. numeric (key y)) xs" "\<not> list_ex nullish xs"
  shows "sortDesc key xs = Inr (sort_key (\<lambda>c. - num (key c)) xs)"
  using assms by (simp add: sortDesc_def sortBy_sort_key)

lemma sort_key_desc:
  "sorted_wrt (\<lambda>a b. num (key b) \<le> num (key a)) (sort_key (\<lambda>c. - num (key c)) xs)"
proof -
  have "sorted (map (\<lambda>c. - num (key c)) (sort_key (\<lambda>c. - num (key c)) xs))"
    by (rule sorted_sort_key)
  then show ?thesis
    by (simp add: sorted_wrt_map)
qed

lemma hd_sort_key_max:
  assumes "xs \<noteq> []"
  shows "\<forall>d\<in>set xs. num (key d) \<le> num (key (hd (sort_key (\<lambda>c. - num (key c)) xs)))"
proof -
  let ?S = "sort_key (\<lambda>c. - num (key c)) xs"
  from assms have ne: "?S \<noteq> []"
    by (metis length_0_conv length_sort)
  then obtain c cs where S: "?S = c # cs"
    by (cases ?S) auto
  with sort_key_desc [of key xs] have "\<forall>d\<in>set cs. num (key d) \<le> num (key c)"
    by simp
  moreover have "set xs = set (c # cs)"
    using S set_sort [of "\<lambda>c. - num (key c)" xs] by simp
  ultimately show ?thesis
    using S by auto
qed

lemma hd_sort_key_first:
  assumes "xs \<noteq> []"
  shows "hd (sort_key (\<lambda>c. - num (key c)) xs)
     = hd (filter (\<lambda>d. num (key d) = num (key (hd (sort_key (\<lambda>c. - num (key c)) xs)))) xs)"
proof -
  let ?f = "\<lambda>c. - num (key c)"
  let ?S = "sort_key ?f xs"
  from assms have ne: "?S \<noteq> []"
    by (metis length_0_conv length_sort)
  then obtain c cs where S: "?S = c # cs"
    by (cases ?S) auto
  have "filter (\<lambda>y. ?f y = ?f c) ?S = filter (\<lambda>y. ?f y = ?f c) xs"
    by (rule sort_key_stable)
  with S have "hd (filter (\<lambda>y. ?f y = ?f c) xs) = c"
    by (metis (mono_tags, lifting) filter.simps(2) list.sel(1))
  with S show ?thesis
    by simp
qed

subsection \<open>The newest checkpoint\<close>

lemma stamped_record: "stamped cp \<Longrightarrow> \<exists>fs. cp = JObj fs"
  by (cases cp) (auto simp: stamped_def timestampOf_def numeric_def split: if_splits)

lemma stamped_not_nullish: "list_all stamped xs \<Longrightarrow> \<not> list_ex nullish xs"
  using stamped_record by (fastforce simp: list_all_iff list_ex_iff)

lemma sortDesc_stamped:
  assumes "list_all stamped xs"
  shows "sortDesc timestampOf xs = Inr (sort_key (\<lambda>c. - stamp c) xs)"
proof -
  from assms have "list_all (\<lambda>y. numeric (timestampOf y)) xs"
    by (simp add: list_all_iff stamped_def)
  with stamped_not_nullish [OF assms] show ?thesis
    by (simp add: sortDesc_sort_key stamp_def)
qed

lemma getCheckpoints_array:
  assumes "truthy sid" "items st (pfx @ toStr sid) = Some (Json (JArr xs))"
  shows "getCheckpoints pfx sid st = (Inr (JArr xs), st)"
  using assms by (simp add: getCheckpoints_def readList_def getStorageKey_def io_defs)

lemma last_of_increasing:
  assumes "sorted_wrt (<) (map stamp created)" "c \<in> set created"
    "\<forall>d\<in>set created. stamp d \<le> stamp c"
  shows "c = last created"
proof -
  from assms(2) obtain ys l where cr: "created = ys @ [l]"
    by (cases created rule: rev_cases) auto
  with assms(1) have below: "\<forall>y\<in>set ys. stamp y < stamp l"
    by (auto simp: sorted_wrt_append)
  from cr assms(3) have "stamp l \<le> stamp c"
    by simp
  with below have "c \<notin> set ys"
    by auto
  with assms(2) cr show ?thesis
    by simp
qed

text \<open>
  C2, as the claim states it, fails when two checkpoints have the same time stamp: both
  are created at the clock reading 1000, the stable sort leaves them in their stored
  order, and index 0 is the one created first, not the one created last.
\<close>

theorem C2_counterexample:
  "fst (bnd (createCheckpoint ''tokenRingCheckpoints_v1_'' (JStr ''first'') currentMessage0
               (JStr ''s1'') 1000 ''T1'') (\<lambda>_.
        bnd (createCheckpoint ''tokenRingCheckpoints_v1_'' (JStr ''second'') currentMessage0
               (JStr ''s1'') 1000 ''T1'') (\<lambda>_.
        retrieveCheckpoint ''tokenRingCheckpoints_v1_'' (JNum 0) (JStr ''s1''))) emptyStorage)
     = Inr (JObj [(''id'', JStr ''1000''),
                  (''label'', JStr ''first''),
                  (''messageId'', JNum 7),
                  (''currentMessage'', currentMessage0),
                  (''timestamp'', JNum 1000),
                  (''createdAt'', JNum 1000)])"
  by code_simp

text \<open>
  C2, amended. For a session whose stored list is a non-empty array of checkpoints with
  numeric time stamps, \<^verbatim>\<open>retrieveCheckpoint\<close> with the number 0 returns a checkpoint of
  the list with the greatest time stamp, the first such in the stored order. When the
  time stamps strictly increase in the order of creation, this is the checkpoint created
  last, in whatever order the list is stored.
\<close>

theorem C2_newest_checkpoint:
  assumes "truthy sid"
    and "items st (pfx @ toStr sid) = Some (Json (JArr stored))"
    and "stored \<noteq> []" and "list_all stamped stored"
  shows "\<exists>c. retrieveCheckpoint pfx (JNum 0) sid st = (Inr c, st)
       \<and> c \<in> set stored
       \<and> (\<forall>d\<in>set stored. stamp d \<le> stamp c)
       \<and> c = hd (filter (\<lambda>d. stamp d = stamp c) stored)
       \<and> (\<forall>created. mset created = mset stored \<and> sorted_wrt (<) (map stamp created)
             \<longrightarrow> c = last created)"
proof -
  let ?S = "sort_key (\<lambda>c. - stamp c) stored"
  let ?c = "hd ?S"
  from assms(3) have ne: "?S \<noteq> []"
    by (metis length_0_conv length_sort)
  then have mem: "?c \<in> set stored"
    using hd_in_set [OF ne] by simp
  with assms(4) obtain fs where fs: "?c = JObj fs"
    using stamped_record [of ?c] by (auto simp: list_all_iff)
  from ne assms(3) have at0: "at ?S 0 = ?c"
    by (simp add: at_def hd_conv_nth)
  have call: "retrieveCheckpoint pfx (JNum 0) sid st = (Inr ?c, st)"
    using assms(1) getCheckpoints_array [OF assms(1,2)] sortDesc_stamped [OF assms(4)] at0 fs
    by (simp add: retrieveCheckpoint_def io_defs orElse_def)
  have mx: "\<forall>d\<in>set stored. stamp d \<le> stamp ?c"
    using hd_sort_key_max [OF assms(3), of timestampOf] by (simp add: stamp_def)
  have first: "?c = hd (filter (\<lambda>d. stamp d = stamp ?c) stored)"
    using hd_sort_key_first [OF assms(3), of timestampOf] by (simp add: stamp_def)
  have newest: "?c = last created"
    if "mset created = mset stored \<and> sorted_wrt (<) (map stamp created)" for created
  proof -
    from that have "set created = set stored"
      by (metis set_mset_mset)
    with that mem mx show ?thesis
      by (intro last_of_increasing) auto
  qed
  from call mem mx first newest show ?thesis
    by blast
qed

theorem C2_newest_checkpoint_witness:
  "truthy (JStr ''s1'')
   \<and> list_all stamped [JObj [(''id'', JStr ''30''), (''timestamp'', JNum 30)],
                        JObj [(''id'', JStr ''10''), (''timestamp'', JNum 10)],
                        JObj [(''id'', JStr ''20''), (''timestamp'', JNum 20)]]
   \<and> sorted_wrt (<) (map stamp [JObj [(''id'', JStr ''10''), (''timestamp'', JNum 10)],
                                 JObj [(''id'', JStr ''20''), (''timestamp'', JNum 20)],
                                 JObj [(''id'', JStr ''30''), (''timestamp'', JNum 30)]])
   \<and> fst (retrieveCheckpoint ''tokenRingCheckpoints_v1_'' (JNum 0) (JStr ''s1'')
            (holding [(''tokenRingCheckpoints_v1_s1'',
               Json (JArr [JObj [(''id'', JStr ''30''), (''timestamp'', JNum 30)],
                           JObj [(''id'', JStr ''10''), (''timestamp'', JNum 10)],
                           JObj [(''id'', JStr ''20''), (''timestamp'', JNum 20)]]))]))
       = Inr (JObj [(''id'', JStr ''30''), (''timestamp'', JNum 30)])"
proof -
  let ?a = "JObj [(''id'', JStr ''10''), (''timestamp'', JNum 10)]"
  let ?b = "JObj [(''id'', JStr ''20''), (''timestamp'', JNum 20)]"
  let ?c = "JObj [(''id'', JStr ''30''), (''timestamp'', JNum 30)]"
  let ?st = "holding [(''tokenRingCheckpoints_v1_s1'', Json (JArr [?c, ?a, ?b]))]"
  have t: "truthy (JStr ''s1'')"
    by simp
  have it: "items ?st (''tokenRingCheckpoints_v1_'' @ toStr (JStr ''s1''))
              = Some (Json (JArr [?c, ?a, ?b]))"
    by (simp add: holding_def)
  have ne: "[?c, ?a, ?b] \<noteq> []"
    by simp
  have sd: "list_all stamped [?c, ?a, ?b]"
    by code_simp
  have inc: "sorted_wrt (<) (map stamp [?a, ?b, ?c])"
    by code_simp
  have ms: "mset [?a, ?b, ?c] = mset [?c, ?a, ?b]"
    by (simp add: add.commute)
  from C2_newest_checkpoint [OF t it ne sd] obtain c
    where r: "retrieveCheckpoint ''tokenRingCheckpoints_v1_'' (JNum 0) (JStr ''s1'') ?st = (Inr c, ?st)"
      and l: "\<forall>created. mset created = mset [?c, ?a, ?b] \<and> sorted_wrt (<) (map stamp created)
             \<longrightarrow> c = last created"
    by blast
  from l ms inc have "c = last [?a, ?b, ?c]"
    by blast
  with r have "fst (retrieveCheckpoint ''tokenRingCheckpoints_v1_'' (JNum 0) (JStr ''s1'') ?st)
      = Inr ?c"
    by simp
  with t sd inc show ?thesis
    by blast
qed

subsection \<open>The session title\<close>

lemma deriveTitle_no_messages:
  assumes "map_of fs ''messages'' = None \<or> map_of fs ''messages'' = Some (JArr [])"
  shows "deriveTitle (JObj fs) = Inr (JStr ''New Chat'')"
  using assms by (auto simp: deriveTitle_def getProp_def optProp_def field_def)

lemma titleReplace_short:
  assumes "s \<noteq> []" "length s \<le> 100" "list_all (\<lambda>c. \<not> isLineTerminator c) s"
  shows "titleReplace s = s"
proof -
  from assms(3) have whole: "takeWhile (\<lambda>d. \<not> isLineTerminator d) s = s"
    by (simp add: list_all_iff)
  from assms(1) obtain n where n: "length s = Suc n"
    by (cases s) auto
  with assms(2) have "min 100 (length s) = Suc n"
    by simp
  moreover have "tryLen (Suc n) s = Some (s, [])"
    using n by simp
  ultimately show ?thesis
    by (simp add: titleReplace_def whole)
qed

text \<open>
  C3. The title \<^verbatim>\<open>storeChat\<close> derives is not always the content cut at a word boundary
  within its first 100 characters. A content of 101 letters without white space does not
  match the expression, and the whole content is the title. In a content of three lines
  the match ends at the second line break, so the third line stays in the title: from
  the lines \<^verbatim>\<open>a b\<close>, \<^verbatim>\<open>c\<close>, \<^verbatim>\<open>d\<close> the stored title is \<^verbatim>\<open>a b\<close>, a line break and \<^verbatim>\<open>d\<close>, which
  is no prefix of the content.
\<close>

theorem C3_title_not_cut:
  "deriveTitle (requestWith longWord) = Inr (JStr longWord)
   \<and> length longWord = 101
   \<and> deriveTitle (requestWith threeLines)
       = Inr (JStr [CHR ''a'', CHR '' '', CHR ''b'', CHR 0x0A, CHR ''d''])
   \<and> fst (bnd (initializeStorage ''chat_'') (\<lambda>_.
           bnd (storeChat ''chat_'' (JObj []) (requestWith threeLines) JNull 1000) (\<lambda>_.
           retrieveAllSessions ''chat_'')) emptyStorage)
       = Inr (JArr [JObj [(''id'', JNum 1),
                          (''title'', JStr [CHR ''a'', CHR '' '', CHR ''b'', CHR 0x0A, CHR ''d''])]])"
  by code_simp

subsection \<open>The preview text\<close>

text \<open>
  C4. \<^verbatim>\<open>addMessage\<close> appends the ellipsis when the preview has 50 characters, which is
  also the case when the text has exactly 50 and nothing was cut: after a message whose
  content is 50 characters long, the stored preview of the session is the content
  followed by three dots.
\<close>

theorem C4_ellipsis_without_truncation:
  "length fifty = 50
   \<and> fst (bnd (createSession ''tokenRingChat_'' (JStr ''Chat'') 1000 ''10:00'') (\<lambda>s.
           bnd (addMessage ''tokenRingChat_'' (propOf s ''id'') (JObj [(''content'', JStr fifty)])
                  1001 1002 1003 1004) (\<lambda>m.
           getSessionsList ''tokenRingChat_'')) emptyStorage)
       = Inr (JArr [JObj [(''id'', JStr ''1000''),
                          (''title'', JStr ''Chat''),
                          (''name'', JStr ''Chat''),
                          (''lastActivity'', JNum 1004),
                          (''createdAt'', JNum 1000),
                          (''previewText'', JStr (fifty @ ''...''))]])"
  by code_simp

subsection \<open>Ids of the message store\<close>

lemma accepting_items [simp]: "accepting (st\<lparr>items := f\<rparr>) = accepting st"
  by (simp add: accepting_def)

lemma field_jsonify_num:
  "field fs k = JNum n \<Longrightarrow>
   field (map (\<lambda>(k, v). (k, jsonify v)) (filter (\<lambda>(k, v). v \<noteq> JUndefined) fs)) k = JNum n"
  by (induction fs) (auto simp: field_def split: if_splits)

lemma idOf_jsonify:
  "idOf x = JNum k \<Longrightarrow> idOf (if x = JUndefined then JNull else jsonify x) = JNum k"
  by (cases x) (auto simp: idOf_def field_jsonify_num split: if_splits)

lemma ids_jsonify:
  "map idOf xs = map JNum ks \<Longrightarrow>
   map idOf (map (\<lambda>x. if x = JUndefined then JNull else jsonify x) xs) = map JNum ks"
proof (induction xs arbitrary: ks)
  case Nil
  then show ?case by simp
next
  case (Cons x xs)
  then obtain k ks' where ks: "ks = k # ks'" "idOf x = JNum k" "map idOf xs = map JNum ks'"
    by (cases ks) auto
  with Cons.IH [of ks'] idOf_jsonify [of x k] show ?case
    by simp
qed

lemma getNextId_session:
  assumes "accepting st" "countersAt pfx s m st" "s \<noteq> 0"
  shows "getNextId pfx ''sessionId'' st =
     (Inr (JNum s),
      st\<lparr>items := (items st)(pfx @ ''counters'' \<mapsto>
          Json (JObj [(''sessionId'', JNum (s + 1)), (''messageId'', JNum m)]))\<rparr>)"
  using assms
  by (simp add: getNextId_def parseItemOr_def io_defs getProp_def field_def orElse_def
        JSON_stringify_def accepting_def countersAt_def)

lemma getNextId_message:
  assumes "accepting st" "countersAt pfx s m st" "m \<noteq> 0"
  shows "getNextId pfx ''messageId'' st =
     (Inr (JNum m),
      st\<lparr>items := (items st)(pfx @ ''counters'' \<mapsto>
          Json (JObj [(''sessionId'', JNum s), (''messageId'', JNum (m + 1))]))\<rparr>)"
  using assms
  by (simp add: getNextId_def parseItemOr_def io_defs getProp_def field_def orElse_def
        JSON_stringify_def accepting_def countersAt_def)

lemma initializeStorage_fresh:
  assumes "accepting st" "\<not> present (items st (pfx @ ''sessions''))"
    "\<not> present (items st (pfx @ ''messages''))" "\<not> present (items st (pfx @ ''counters''))"
  shows "initializeStorage pfx st =
     (Inr (),
      st\<lparr>items := (items st)
         (pfx @ ''sessions'' \<mapsto> Json (JArr []),
          pfx @ ''messages'' \<mapsto> Json (JArr []),
          pfx @ ''counters'' \<mapsto> Json (JObj [(''sessionId'', JNum 1), (''messageId'', JNum 1)]))\<rparr>)"
  using assms
  by (simp add: initializeStorage_def seedItem_def io_defs JSON_stringify_def accepting_def)

lemma consistent_fresh:
  assumes "accepting st"
  shows "consistent pfx 0 0
     (st\<lparr>items := (items st)
         (pfx @ ''sessions'' \<mapsto> Json (JArr []),
          pfx @ ''messages'' \<mapsto> Json (JArr []),
          pfx @ ''counters'' \<mapsto> Json (JObj [(''sessionId'', JNum 1), (''messageId'', JNum 1)]))\<rparr>)"
  using assms by (simp add: consistent_def countersAt_def idsAt_def)

lemma storeSession_step:
  assumes "consistent pfx n m st"
  shows "\<exists>st'. storeSession pfx title st
             = (Inr (JObj [(''id'', JNum (n + 1)), (''title'', title)]), st')
           \<and> consistent pfx (n + 1) m st'"
proof -
  from assms obtain ss where ss: "items st (pfx @ ''sessions'') = Some (Json (JArr ss))"
      "map idOf ss = map JNum [1..n]"
    by (auto simp: consistent_def idsAt_def split: option.splits jsontext.splits jsval.splits)
  from assms have acc: "accepting st" and c: "countersAt pfx (n + 1) (m + 1) st"
      and n: "0 \<le> n" and m: "0 \<le> m"
    by (auto simp: consistent_def)
  have up: "[1..n + 1] = [1..n] @ [n + 1]"
    using n by (simp add: upto_rec2)
  from assms have ms: "idsAt (pfx @ ''messages'') m st" by (simp add: consistent_def)
  show ?thesis
    using acc c n m ss ms getNextId_session [OF acc c] ids_jsonify [OF ss(2)] up
    by (simp add: storeSession_def parseItemOr_def io_defs JSON_stringify_def consistent_def
          countersAt_def idsAt_def accepting_def idOf_def field_def)
qed

text \<open>The second half of \<^verbatim>\<open>storeChat\<close>: the message is numbered, appended and written.\<close>

lemma storeMessage_step:
  assumes "consistent pfx n m st"
  shows "\<exists>st'.
     bnd (parseItemOr (pfx @ ''messages'') (JArr [])) (\<lambda>messages.
     bnd (getNextId pfx ''messageId'') (\<lambda>mid.
     bnd (lift (push messages (JObj ((''id'', mid) # rest)))) (\<lambda>messages'.
     bnd (setItem (pfx @ ''messages'') (JSON_stringify messages')) (\<lambda>_.
     ok (JObj ((''id'', mid) # rest)))))) st
       = (Inr (JObj ((''id'', JNum (m + 1)) # rest)), st')
     \<and> consistent pfx n (m + 1) st'"
proof -
  from assms obtain ms where ms: "items st (pfx @ ''messages'') = Some (Json (JArr ms))"
      "map idOf ms = map JNum [1..m]"
    by (auto simp: consistent_def idsAt_def split: option.splits jsontext.splits jsval.splits)
  from assms have acc: "accepting st" and c: "countersAt pfx (n + 1) (m + 1) st"
      and n: "0 \<le> n" and m: "0 \<le> m"
    by (auto simp: consistent_def)
  have up: "[1..m + 1] = [1..m] @ [m + 1]"
    using m by (simp add: upto_rec2)
  from assms have ss: "idsAt (pfx @ ''sessions'') n st" by (simp add: consistent_def)
  show ?thesis
    using acc c n m ss ms getNextId_message [OF acc c] ids_jsonify [OF ms(2)] up
    by (simp add: parseItemOr_def io_defs JSON_stringify_def consistent_def
          countersAt_def idsAt_def accepting_def idOf_def field_def)
qed

lemma storeChat_known_session:
  assumes "consistent pfx n m st" "truthy (optProp cm ''sessionId'')"
  shows "\<exists>msg st'. storeChat pfx cm rq rs now st = (Inr msg, st')
           \<and> idOf msg = JNum (m + 1) \<and> propOf msg ''sessionId'' = optProp cm ''sessionId''
           \<and> consistent pfx n (m + 1) st'"
proof -
  define rest where "rest =
     [(''sessionId'', optProp cm ''sessionId''),
      (''previousMessageId'', orElse (optProp cm ''id'') JNull),
      (''request'', rq), (''response'', rs),
      (''cumulativeInputLength'', JNum 0), (''updatedAt'', JNum now)]"
  from storeMessage_step [OF assms(1), of rest] obtain st' where
    "bnd (parseItemOr (pfx @ ''messages'') (JArr [])) (\<lambda>messages.
     bnd (getNextId pfx ''messageId'') (\<lambda>mid.
     bnd (lift (push messages (JObj ((''id'', mid) # rest)))) (\<lambda>messages'.
     bnd (setItem (pfx @ ''messages'') (JSON_stringify messages')) (\<lambda>_.
     ok (JObj ((''id'', mid) # rest)))))) st
       = (Inr (JObj ((''id'', JNum (m + 1)) # rest)), st')"
    and "consistent pfx n (m + 1) st'"
    by blast
  then show ?thesis
    using assms(2)
    by (simp add: storeChat_def tryCatch_def bnd_def ok_def Let_def idOf_def field_def rest_def)
qed

lemma storeChat_new_session:
  assumes "consistent pfx n m st" "\<not> truthy (optProp cm ''sessionId'')"
    "deriveTitle rq = Inr title"
  shows "\<exists>msg st'. storeChat pfx cm rq rs now st = (Inr msg, st')
           \<and> idOf msg = JNum (m + 1) \<and> propOf msg ''sessionId'' = JNum (n + 1)
           \<and> consistent pfx (n + 1) (m + 1) st'"
proof -
  define rest where "rest =
     [(''sessionId'', JNum (n + 1)),
      (''previousMessageId'', orElse (optProp cm ''id'') JNull),
      (''request'', rq), (''response'', rs),
      (''cumulativeInputLength'', JNum 0), (''updatedAt'', JNum now)]"
  from storeSession_step [OF assms(1), of title] obtain st1 where
    s1: "storeSession pfx title st = (Inr (JObj [(''id'', JNum (n + 1)), (''title'', title)]), st1)"
    and c1: "consistent pfx (n + 1) m st1"
    by blast
  from storeMessage_step [OF c1, of rest] obtain st' where
    "bnd (parseItemOr (pfx @ ''messages'') (JArr [])) (\<lambda>messages.
     bnd (getNextId pfx ''messageId'') (\<lambda>mid.
     bnd (lift (push messages (JObj ((''id'', mid) # rest)))) (\<lambda>messages'.
     bnd (setItem (pfx @ ''messages'') (JSON_stringify messages')) (\<lambda>_.
     ok (JObj ((''id'', mid) # rest)))))) st1
       = (Inr (JObj ((''id'', JNum (m + 1)) # rest)), st')"
    and "consistent pfx (n + 1) (m + 1) st'"
    by blast
  then show ?thesis
    using assms(2,3) s1
    by (simp add: storeChat_def tryCatch_def bnd_def ok_def lift_def Let_def idOf_def field_def
          rest_def)
qed

lemma storeChat_no_title:
  assumes "\<not> truthy (optProp cm ''sessionId'')" "deriveTitle rq = Inl e"
  shows "storeChat pfx cm rq rs now st
           = (Inl (Error (''Failed to store chat message: '' @ message st e)), st)"
  using assms by (simp add: storeChat_def tryCatch_def bnd_def lift_def raise_def)

lemma perform_consistent:
  assumes "consistent pfx n m st"
  shows "\<exists>n' m'. consistent pfx n' m' (snd (perform pfx c st))"
proof (cases c)
  case (NewSession title)
  from storeSession_step [OF assms, of title] obtain st'
    where "storeSession pfx title st
             = (Inr (JObj [(''id'', JNum (n + 1)), (''title'', title)]), st')"
      and "consistent pfx (n + 1) m st'"
    by blast
  with NewSession have "consistent pfx (n + 1) m (snd (perform pfx c st))"
    by simp
  then show ?thesis by blast
next
  case (Chat cm rq rs now)
  show ?thesis
  proof (cases "truthy (optProp cm ''sessionId'')")
    case True
    from storeChat_known_session [OF assms True, of rq rs now] obtain msg st'
      where "storeChat pfx cm rq rs now st = (Inr msg, st')"
        and "consistent pfx n (m + 1) st'"
      by blast
    with Chat have "consistent pfx n (m + 1) (snd (perform pfx c st))"
      by simp
    then show ?thesis by blast
  next
    case False
    show ?thesis
    proof (cases "deriveTitle rq")
      case (Inl e)
      with storeChat_no_title [OF False, of rq e pfx rs now st] Chat assms
      have "consistent pfx n m (snd (perform pfx c st))"
        by simp
      then show ?thesis by blast
    next
      case (Inr title)
      from storeChat_new_session [OF assms False Inr, of rs now] obtain msg st'
        where "storeChat pfx cm rq rs now st = (Inr msg, st')"
          and "consistent pfx (n + 1) (m + 1) st'"
        by blast
      with Chat have "consistent pfx (n + 1) (m + 1) (snd (perform pfx c st))"
        by simp
      then show ?thesis by blast
    qed
  qed
qed

lemma performAll_consistent:
  "consistent pfx n m st \<Longrightarrow> \<exists>n' m'. consistent pfx n' m' (performAll pfx cs st)"
proof (induction cs arbitrary: n m st)
  case Nil
  then show ?case by auto
next
  case (Cons c cs)
  from perform_consistent [OF Cons.prems, of c] obtain n1 m1
    where "consistent pfx n1 m1 (snd (perform pfx c st))"
    by blast
  from Cons.IH [OF this] show ?case
    by simp
qed

lemma three_sessions_two_messages:
  assumes "consistent pfx 0 0 st"
    "truthy (optProp cm1 ''sessionId'')" "truthy (optProp cm2 ''sessionId'')"
  shows "countersAt pfx 4 3
     (performAll pfx [NewSession t1, NewSession t2, NewSession t3,
                      Chat cm1 rq1 rs1 now1, Chat cm2 rq2 rs2 now2] st)"
proof -
  from storeSession_step [OF assms(1), of t1] obtain st1
    where s1: "snd (storeSession pfx t1 st) = st1" "consistent pfx 1 0 st1"
    by auto
  from storeSession_step [OF s1(2), of t2] obtain st2
    where s2: "snd (storeSession pfx t2 st1) = st2" "consistent pfx 2 0 st2"
    by auto
  from storeSession_step [OF s2(2), of t3] obtain st3
    where s3: "snd (storeSession pfx t3 st2) = st3" "consistent pfx 3 0 st3"
    by auto
  from storeChat_known_session [OF s3(2) assms(2), of rq1 rs1 now1] obtain st4
    where s4: "snd (storeChat pfx cm1 rq1 rs1 now1 st3) = st4" "consistent pfx 3 1 st4"
    by auto
  from storeChat_known_session [OF s4(2) assms(3), of rq2 rs2 now2] obtain st5
    where s5: "snd (storeChat pfx cm2 rq2 rs2 now2 st4) = st5" "consistent pfx 3 2 st5"
    by auto
  from s1 s2 s3 s4 s5 show ?thesis
    by (simp add: consistent_def)
qed

text \<open>
  C5. A \<^verbatim>\<open>BrowserChatMessageStorage\<close> is constructed on a storage that takes every write
  and holds none of its three keys. Then the constructor leaves both counters at 1, and
  after any sequence of calls the stored sessions and messages are numbered 1, 2, 3, ...
  in their order and the counters record holds the next id of each. In a state with \<open>n\<close>
  sessions and \<open>m\<close> messages, \<^verbatim>\<open>getNextId\<close> returns \<open>n + 1\<close> for a session and \<open>m + 1\<close>
  for a message and has written the counter, one higher, when it returns;
  \<^verbatim>\<open>storeSession\<close> returns the session with id \<open>n + 1\<close>, and \<^verbatim>\<open>storeChat\<close> returns the
  message with id \<open>m + 1\<close> (in a new session with id \<open>n + 1\<close> when no session id is
  given). Three sessions and then two messages leave the record at \<^verbatim>\<open>sessionId\<close> 4 and
  \<^verbatim>\<open>messageId\<close> 3.
\<close>

theorem C5_ids_count_from_one:
  assumes "accepting st0"
    and "\<not> present (items st0 (pfx @ ''sessions''))"
    and "\<not> present (items st0 (pfx @ ''messages''))"
    and "\<not> present (items st0 (pfx @ ''counters''))"
  shows "fst (initializeStorage pfx st0) = Inr ()
     \<and> consistent pfx 0 0 (snd (initializeStorage pfx st0))
     \<and> (\<exists>n m. consistent pfx n m (performAll pfx calls (snd (initializeStorage pfx st0))))
     \<and> (consistent pfx n m st \<longrightarrow>
          getNextId pfx ''sessionId'' st =
            (Inr (JNum (n + 1)),
             st\<lparr>items := (items st)(pfx @ ''counters'' \<mapsto>
                Json (JObj [(''sessionId'', JNum (n + 1 + 1)), (''messageId'', JNum (m + 1))]))\<rparr>)
        \<and> getNextId pfx ''messageId'' st =
            (Inr (JNum (m + 1)),
             st\<lparr>items := (items st)(pfx @ ''counters'' \<mapsto>
                Json (JObj [(''sessionId'', JNum (n + 1)), (''messageId'', JNum (m + 1 + 1))]))\<rparr>)
        \<and> (\<exists>st'. storeSession pfx title st
                    = (Inr (JObj [(''id'', JNum (n + 1)), (''title'', title)]), st')
                \<and> consistent pfx (n + 1) m st')
        \<and> (truthy (optProp cm ''sessionId'') \<longrightarrow>
             (\<exists>msg st'. storeChat pfx cm rq rs now st = (Inr msg, st')
                \<and> idOf msg = JNum (m + 1) \<and> consistent pfx n (m + 1) st'))
        \<and> (\<not> truthy (optProp cm ''sessionId'') \<and> deriveTitle rq = Inr title \<longrightarrow>
             (\<exists>msg st'. storeChat pfx cm rq rs now st = (Inr msg, st')
                \<and> idOf msg = JNum (m + 1) \<and> propOf msg ''sessionId'' = JNum (n + 1)
                \<and> consistent pfx (n + 1) (m + 1) st')))
     \<and> (truthy (optProp cm1 ''sessionId'') \<and> truthy (optProp cm2 ''sessionId'') \<longrightarrow>
          countersAt pfx 4 3
            (performAll pfx [NewSession t1, NewSession t2, NewSession t3,
                             Chat cm1 rq1 rs1 now1, Chat cm2 rq2 rs2 now2]
               (snd (initializeStorage pfx st0))))"
proof -
  define st1 where "st1 = st0\<lparr>items := (items st0)
         (pfx @ ''sessions'' \<mapsto> Json (JArr []),
          pfx @ ''messages'' \<mapsto> Json (JArr []),
          pfx @ ''counters'' \<mapsto> Json (JObj [(''sessionId'', JNum 1), (''messageId'', JNum 1)]))\<rparr>"
  have init: "initializeStorage pfx st0 = (Inr (), st1)"
    unfolding st1_def using assms by (rule initializeStorage_fresh)
  have c0: "consistent pfx 0 0 st1"
    unfolding st1_def using assms(1) by (rule consistent_fresh)
  have run: "\<exists>n m. consistent pfx n m (performAll pfx calls st1)"
    using c0 by (rule performAll_consistent)
  have scenario: "countersAt pfx 4 3
            (performAll pfx [NewSession t1, NewSession t2, NewSession t3,
                             Chat cm1 rq1 rs1 now1, Chat cm2 rq2 rs2 now2] st1)"
    if "truthy (optProp cm1 ''sessionId'')" "truthy (optProp cm2 ''sessionId'')"
    using c0 that by (rule three_sessions_two_messages)
  have step: "getNextId pfx ''sessionId'' st =
            (Inr (JNum (n + 1)),
             st\<lparr>items := (items st)(pfx @ ''counters'' \<mapsto>
                Json (JObj [(''sessionId'', JNum (n + 1 + 1)), (''messageId'', JNum (m + 1))]))\<rparr>)
        \<and> getNextId pfx ''messageId'' st =
            (Inr (JNum (m + 1)),
             st\<lparr>items := (items st)(pfx @ ''counters'' \<mapsto>
                Json (JObj [(''sessionId'', JNum (n + 1)), (''messageId'', JNum (m + 1 + 1))]))\<rparr>)
        \<and> (\<exists>st'. storeSession pfx title st
                    = (Inr (JObj [(''id'', JNum (n + 1)), (''title'', title)]), st')
                \<and> consistent pfx (n + 1) m st')
        \<and> (truthy (optProp cm ''sessionId'') \<longrightarrow>
             (\<exists>msg st'. storeChat pfx cm rq rs now st = (Inr msg, st')
                \<and> idOf msg = JNum (m + 1) \<and> consistent pfx n (m + 1) st'))
        \<and> (\<not> truthy (optProp cm ''sessionId'') \<and> deriveTitle rq = Inr title \<longrightarrow>
             (\<exists>msg st'. storeChat pfx cm rq rs now st = (Inr msg, st')
                \<and> idOf msg = JNum (m + 1) \<and> propOf msg ''sessionId'' = JNum (n + 1)
                \<and> consistent pfx (n + 1) (m + 1) st'))"
    if c: "consistent pfx n m st"
  proof (intro conjI impI)
    from c have acc: "accepting st" and ca: "countersAt pfx (n + 1) (m + 1) st"
      and n: "n + 1 \<noteq> 0" and m: "m + 1 \<noteq> 0"
      by (auto simp: consistent_def)
    show "getNextId pfx ''sessionId'' st =
            (Inr (JNum (n + 1)),
             st\<lparr>items := (items st)(pfx @ ''counters'' \<mapsto>
                Json (JObj [(''sessionId'', JNum (n + 1 + 1)), (''messageId'', JNum (m + 1))]))\<rparr>)"
      using acc ca n by (rule getNextId_session)
    show "getNextId pfx ''messageId'' st =
            (Inr (JNum (m + 1)),
             st\<lparr>items := (items st)(pfx @ ''counters'' \<mapsto>
                Json (JObj [(''sessionId'', JNum (n + 1)), (''messageId'', JNum (m + 1 + 1))]))\<rparr>)"
      using acc ca m by (rule getNextId_message)
    show "\<exists>st'. storeSession pfx title st
                    = (Inr (JObj [(''id'', JNum (n + 1)), (''title'', title)]), st')
                \<and> consistent pfx (n + 1) m st'"
      using c by (rule storeSession_step)
  next
    assume "truthy (optProp cm ''sessionId'')"
    with storeChat_known_session [OF c this, of rq rs now]
    show "\<exists>msg st'. storeChat pfx cm rq rs now st = (Inr msg, st')
                \<and> idOf msg = JNum (m + 1) \<and> consistent pfx n (m + 1) st'"
      by blast
  next
    assume "\<not> truthy (optProp cm ''sessionId'') \<and> deriveTitle rq = Inr title"
    then show "\<exists>msg st'. storeChat pfx cm rq rs now st = (Inr msg, st')
                \<and> idOf msg = JNum (m + 1) \<and> propOf msg ''sessionId'' = JNum (n + 1)
                \<and> consistent pfx (n + 1) (m + 1) st'"
      using storeChat_new_session [OF c, of cm rq title rs now] by blast
  qed
  from init have st1: "snd (initializeStorage pfx st0) = st1" "fst (initializeStorage pfx st0) = Inr ()"
    by simp_all
  show ?thesis
    unfolding st1 using c0 run step scenario by blast
qed

theorem C5_ids_count_from_one_witness:
  "accepting emptyStorage
   \<and> \<not> present (items emptyStorage (''chat_'' @ ''counters''))
   \<and> consistent ''chat_'' 0 0 (snd (initializeStorage ''chat_'' emptyStorage))
   \<and> (\<exists>n m. consistent ''chat_'' n m
         (performAll ''chat_'' [Chat JNull (requestWith ''hello'') JNull 5, NewSession (JStr ''x'')]
            (snd (initializeStorage ''chat_'' emptyStorage))))
   \<and> fst (getNextId ''chat_'' ''messageId'' (snd (initializeStorage ''chat_'' emptyStorage)))
       = Inr (JNum 1)
   \<and> fst (storeSession ''chat_'' (JStr ''a'') (snd (initializeStorage ''chat_'' emptyStorage)))
       = Inr (JObj [(''id'', JNum 1), (''title'', JStr ''a'')])
   \<and> (\<exists>msg. fst (storeChat ''chat_'' JNull (requestWith ''hello'') JNull 5
                   (snd (initializeStorage ''chat_'' emptyStorage))) = Inr msg
          \<and> idOf msg = JNum 1 \<and> propOf msg ''sessionId'' = JNum 1)
   \<and> countersAt ''chat_'' 4 3
        (performAll ''chat_''
           [NewSession (JStr ''a''), NewSession (JStr ''b''), NewSession (JStr ''c''),
            Chat (JObj [(''sessionId'', JNum 1)]) (requestWith ''hello'') JNull 10,
            Chat (JObj [(''sessionId'', JNum 1), (''id'', JNum 1)]) (requestWith ''again'') JNull 20]
           (snd (initializeStorage ''chat_'' emptyStorage)))"
proof -
  let ?st1 = "snd (initializeStorage ''chat_'' emptyStorage)"
  have a: "accepting emptyStorage"
    by (simp add: accepting_def emptyStorage_def)
  have p: "\<not> present (items emptyStorage (''chat_'' @ k))" for k
    by (simp add: emptyStorage_def)
  have t: "truthy (optProp (JObj [(''sessionId'', JNum 1)]) ''sessionId'')"
    "truthy (optProp (JObj [(''sessionId'', JNum 1), (''id'', JNum 1)]) ''sessionId'')"
    by (simp_all add: optProp_def field_def)
  have f: "\<not> truthy (optProp JNull ''sessionId'')"
    by (simp add: optProp_def)
  have d: "deriveTitle (requestWith ''hello'') = Inr (JStr ''hello'')"
    by code_simp
  note inst = C5_ids_count_from_one [OF a p p p,
      where calls = "[Chat JNull (requestWith ''hello'') JNull 5, NewSession (JStr ''x'')]"
        and n = 0 and m = 0 and st = ?st1 and title = "JStr ''hello''"
        and cm = JNull and rq = "requestWith ''hello''" and rs = JNull and now = 5
        and ?cm1.0 = "JObj [(''sessionId'', JNum 1)]"
        and ?cm2.0 = "JObj [(''sessionId'', JNum 1), (''id'', JNum 1)]"
        and ?t1.0 = "JStr ''a''" and ?t2.0 = "JStr ''b''" and ?t3.0 = "JStr ''c''"
        and ?rq1.0 = "requestWith ''hello''" and ?rs1.0 = JNull and ?now1.0 = 10
        and ?rq2.0 = "requestWith ''again''" and ?rs2.0 = JNull and ?now2.0 = 20]
  from inst have c: "consistent ''chat_'' 0 0 ?st1"
    by blast
  from inst have r: "\<exists>n m. consistent ''chat_'' n m
         (performAll ''chat_'' [Chat JNull (requestWith ''hello'') JNull 5, NewSession (JStr ''x'')] ?st1)"
    by blast
  from inst c have "getNextId ''chat_'' ''messageId'' ?st1 =
            (Inr (JNum (0 + 1)),
             ?st1\<lparr>items := (items ?st1)(''chat_'' @ ''counters'' \<mapsto>
                Json (JObj [(''sessionId'', JNum (0 + 1)), (''messageId'', JNum (0 + 1 + 1))]))\<rparr>)"
    by blast
  then have g: "fst (getNextId ''chat_'' ''messageId'' ?st1) = Inr (JNum 1)"
    by simp
  from inst c f d obtain msg st' where
    "storeChat ''chat_'' JNull (requestWith ''hello'') JNull 5 ?st1 = (Inr msg, st')"
    "idOf msg = JNum (0 + 1)" "propOf msg ''sessionId'' = JNum (0 + 1)"
    by blast
  then have ch: "\<exists>msg. fst (storeChat ''chat_'' JNull (requestWith ''hello'') JNull 5 ?st1) = Inr msg
          \<and> idOf msg = JNum 1 \<and> propOf msg ''sessionId'' = JNum 1"
    by simp
  from C5_ids_count_from_one [OF a p p p, where n = 0 and m = 0 and st = ?st1
      and title = "JStr ''a''"] c
  obtain st'' where "storeSession ''chat_'' (JStr ''a'') ?st1
      = (Inr (JObj [(''id'', JNum (0 + 1)), (''title'', JStr ''a'')]), st'')"
    by blast
  then have one: "fst (storeSession ''chat_'' (JStr ''a'') ?st1)
      = Inr (JObj [(''id'', JNum 1), (''title'', JStr ''a'')])"
    by simp
  from inst t have sc: "countersAt ''chat_'' 4 3
        (performAll ''chat_''
           [NewSession (JStr ''a''), NewSession (JStr ''b''), NewSession (JStr ''c''),
            Chat (JObj [(''sessionId'', JNum 1)]) (requestWith ''hello'') JNull 10,
            Chat (JObj [(''sessionId'', JNum 1), (''id'', JNum 1)]) (requestWith ''again'') JNull 20]
           ?st1)"
    by blast
  from a p [of "''counters''"] c r g one ch sc show ?thesis
    by blast
qed

subsection \<open>Clearing the message store\<close>

lemma clearAllData_accepting:
  assumes "accepting st"
  shows "clearAllData pfx st =
     (Inr (),
      st\<lparr>items := (items st)
         (pfx @ ''sessions'' \<mapsto> Json (JArr []),
          pfx @ ''messages'' \<mapsto> Json (JArr []),
          pfx @ ''counters'' \<mapsto> Json (JObj [(''sessionId'', JNum 1), (''messageId'', JNum 1)]))\<rparr>)"
  using assms
  by (simp add: clearAllData_def initializeStorage_def seedItem_def io_defs JSON_stringify_def
        accepting_def fun_upd_twist)

text \<open>
  C6. On a storage that takes every write, whatever it holds, \<^verbatim>\<open>clearAllData\<close> leaves
  the empty list of sessions, the empty list of messages and both counters at 1. A
  \<^verbatim>\<open>storeChat\<close> that follows, without a session id and with a request from which a
  title is derived, returns a message with id 1 in a session with id 1; after it the
  store holds one session and one message, both with id 1, and both counters are at 2.
\<close>

theorem C6_clear_then_store:
  assumes "accepting st" "\<not> truthy (optProp cm ''sessionId'')" "deriveTitle rq = Inr title"
  shows "\<exists>st1 msg st2.
       clearAllData pfx st = (Inr (), st1)
     \<and> items st1 (pfx @ ''sessions'') = Some (Json (JArr []))
     \<and> items st1 (pfx @ ''messages'') = Some (Json (JArr []))
     \<and> countersAt pfx 1 1 st1
     \<and> storeChat pfx cm rq rs now st1 = (Inr msg, st2)
     \<and> idOf msg = JNum 1
     \<and> propOf msg ''sessionId'' = JNum 1
     \<and> consistent pfx 1 1 st2"
proof -
  define st1 where "st1 = st\<lparr>items := (items st)
         (pfx @ ''sessions'' \<mapsto> Json (JArr []),
          pfx @ ''messages'' \<mapsto> Json (JArr []),
          pfx @ ''counters'' \<mapsto> Json (JObj [(''sessionId'', JNum 1), (''messageId'', JNum 1)]))\<rparr>"
  have clear: "clearAllData pfx st = (Inr (), st1)"
    unfolding st1_def using assms(1) by (rule clearAllData_accepting)
  have c0: "consistent pfx 0 0 st1"
    unfolding st1_def using assms(1) by (rule consistent_fresh)
  have keys: "items st1 (pfx @ ''sessions'') = Some (Json (JArr []))"
    "items st1 (pfx @ ''messages'') = Some (Json (JArr []))" "countersAt pfx 1 1 st1"
    by (simp_all add: st1_def countersAt_def)
  from storeChat_new_session [OF c0 assms(2,3), of rs now] obtain msg st2
    where "storeChat pfx cm rq rs now st1 = (Inr msg, st2)" "idOf msg = JNum 1"
      "propOf msg ''sessionId'' = JNum 1" "consistent pfx 1 1 st2"
    by auto
  with clear keys show ?thesis
    by blast
qed

theorem C6_clear_then_store_witness:
  "accepting (holding [(''chat_counters'', Json (JObj [(''sessionId'', JNum 9), (''messageId'', JNum 30)]))])
   \<and> \<not> truthy (optProp (JObj []) ''sessionId'')
   \<and> deriveTitle (requestWith ''hello there'') = Inr (JStr ''hello there'')
   \<and> (\<exists>msg. fst (bnd (clearAllData ''chat_'') (\<lambda>_.
                  storeChat ''chat_'' (JObj []) (requestWith ''hello there'') JNull 77)
                (holding [(''chat_counters'',
                           Json (JObj [(''sessionId'', JNum 9), (''messageId'', JNum 30)]))]))
              = Inr msg
          \<and> idOf msg = JNum 1 \<and> propOf msg ''sessionId'' = JNum 1)"
proof -
  have a: "accepting (holding kvs)" for kvs
    by (simp add: accepting_def holding_def)
  have n: "\<not> truthy (optProp (JObj []) ''sessionId'')"
    by (simp add: optProp_def field_def)
  have d: "deriveTitle (requestWith ''hello there'') = Inr (JStr ''hello there'')"
    by code_simp
  let ?st = "holding [(''chat_counters'',
                       Json (JObj [(''sessionId'', JNum 9), (''messageId'', JNum 30)]))]"
  from C6_clear_then_store [OF a n d, where pfx = "''chat_''" and rs = JNull and now = 77]
  obtain st1 msg st2 where "clearAllData ''chat_'' ?st = (Inr (), st1)"
    and "storeChat ''chat_'' (JObj []) (requestWith ''hello there'') JNull 77 st1 = (Inr msg, st2)"
    and "idOf msg = JNum 1" and "propOf msg ''sessionId'' = JNum 1"
    by blast
  then have "fst (bnd (clearAllData ''chat_'') (\<lambda>_.
                  storeChat ''chat_'' (JObj []) (requestWith ''hello there'') JNull 77) ?st)
              = Inr msg
          \<and> idOf msg = JNum 1 \<and> propOf msg ''sessionId'' = JNum 1"
    by (simp add: bnd_def)
  with a n d show ?thesis
    by blast
qed

subsection \<open>Searching the messages of a session\<close>

lemma includesStr_sublist: "includesStr s p = sublist p s"
  by (induction s) (auto simp: sublist_Cons_right)

lemma sublist_map_iff:
  "sublist (map f p) (map f s) = (\<exists>u. sublist u s \<and> map f u = map f p)"
proof
  assume "sublist (map f p) (map f s)"
  then obtain ps ss where "map f s = ps @ map f p @ ss"
    by (auto simp: sublist_def)
  then obtain a b c where "s = a @ b @ c" "map f b = map f p"
    by (metis append_eq_map_conv)
  then show "\<exists>u. sublist u s \<and> map f u = map f p"
    by auto
next
  assume "\<exists>u. sublist u s \<and> map f u = map f p"
  then obtain u where "sublist u s" "map f u = map f p"
    by blast
  then show "sublist (map f p) (map f s)"
    by (metis map_mono_sublist)
qed

lemma matches_substring:
  "matches (toLowerCase kw) m
     = (\<exists>u. sublist u (searchText m) \<and> toLowerCase u = toLowerCase kw)"
  by (simp add: matches_def includesStr_sublist toLowerCase_def searchText_def sublist_map_iff)

lemma searchable_not_nullish: "list_all searchable xs \<Longrightarrow> \<not> list_ex nullish xs"
  by (auto simp: list_all_iff list_ex_iff searchable_def)

text \<open>
  What \<^verbatim>\<open>searchMessages\<close> returns. With a session id, it returns the empty list for the
  empty keyword. For another keyword, on a log that reads as an array of messages whose
  text is a string and whose recency is a number, it returns the messages that match,
  sorted by recency, newest first. A message matches when a run of characters of its text
  equals the keyword up to the case of the letters; its text is its \<^verbatim>\<open>text\<close> property, or
  its \<^verbatim>\<open>content\<close> when it has no text or an empty one, and its recency is its
  \<^verbatim>\<open>timestamp\<close>, or its \<^verbatim>\<open>createdAt\<close> without one.
\<close>

lemma searchMessages_newest_first:
  assumes "truthy sid"
  shows "searchMessages pfx [] sid st = (Inr [], st)
     \<and> (kw \<noteq> [] \<and> fst (getMessages pfx sid st) = Inr (JArr ms) \<and> list_all searchable ms
          \<and> list_all (\<lambda>m. numeric (recencyOf m)) ms \<longrightarrow>
        searchMessages pfx kw sid st
          = (Inr (sort_key (\<lambda>m. - recency m) (filter (matches (toLowerCase kw)) ms)), st)
        \<and> sorted_wrt (\<lambda>a b. recency b \<le> recency a)
             (sort_key (\<lambda>m. - recency m) (filter (matches (toLowerCase kw)) ms))
        \<and> set (sort_key (\<lambda>m. - recency m) (filter (matches (toLowerCase kw)) ms))
             = {m \<in> set ms. \<exists>u. sublist u (searchText m) \<and> toLowerCase u = toLowerCase kw})"
proof (intro conjI impI)
  show "searchMessages pfx [] sid st = (Inr [], st)"
    using assms by (simp add: searchMessages_def ok_def)
next
  assume h: "kw \<noteq> [] \<and> fst (getMessages pfx sid st) = Inr (JArr ms) \<and> list_all searchable ms
          \<and> list_all (\<lambda>m. numeric (recencyOf m)) ms"
  let ?found = "filter (matches (toLowerCase kw)) ms"
  from h have get: "getMessages pfx sid st = (Inr (JArr ms), st)"
    using readList_state [of "getSessionKey pfx sid" st]
    by (simp add: getMessages_def prod_eq_iff)
  from h have "list_all (\<lambda>m. numeric (recencyOf m)) ?found" "\<not> list_ex nullish ?found"
    using searchable_not_nullish [of ms] by (auto simp: list_all_iff list_ex_iff)
  then have "sortDesc recencyOf ?found = Inr (sort_key (\<lambda>m. - num (recencyOf m)) ?found)"
    by (rule sortDesc_sort_key)
  with h get assms show "searchMessages pfx kw sid st
          = (Inr (sort_key (\<lambda>m. - recency m) ?found), st)"
    by (simp add: searchMessages_def io_defs recency_def)
  show "sorted_wrt (\<lambda>a b. recency b \<le> recency a) (sort_key (\<lambda>m. - recency m) ?found)"
    using sort_key_desc [of recencyOf ?found] by (simp add: recency_def)
  show "set (sort_key (\<lambda>m. - recency m) ?found)
          = {m \<in> set ms. \<exists>u. sublist u (searchText m) \<and> toLowerCase u = toLowerCase kw}"
    by (auto simp: matches_substring)
qed

text \<open>
  C7. \<^verbatim>\<open>searchMessages\<close> is documented to search \<^verbatim>\<open>across message content and text
  fields\<close>, and it looks into \<^verbatim>\<open>m.text || m.content || ''\<close>: the content of a message
  that has a text is not searched. The log of the session \<^verbatim>\<open>s1\<close> holds four messages;
  the keyword \<^verbatim>\<open>alpha\<close> is in the content of the first three, in capitals, and in the
  text of the last. The search returns the message without a text, the message with an
  empty text and the message with the keyword in its text, newest first, and not the
  first message, whose text is \<^verbatim>\<open>beta\<close> and whose content is \<^verbatim>\<open>ALPHA\<close>. For the empty
  keyword it returns the empty list.
\<close>

theorem C7_content_not_searched:
  "fst (searchMessages ''tokenRingChat_'' ''alpha'' (JStr ''s1'')
          (holding [(''tokenRingChat_history_s1'',
             Json (JArr [JObj [(''text'', JStr ''beta''), (''content'', JStr ''ALPHA''),
                               (''timestamp'', JNum 40)],
                         JObj [(''content'', JStr ''Alpha two''), (''timestamp'', JNum 10)],
                         JObj [(''text'', JStr []), (''content'', JStr ''the ALPHA''),
                               (''timestamp'', JNum 30)],
                         JObj [(''text'', JStr ''alphabet''), (''content'', JStr ''gamma''),
                               (''timestamp'', JNum 20)]]))]))
     = Inr [JObj [(''text'', JStr []), (''content'', JStr ''the ALPHA''),
                  (''timestamp'', JNum 30)],
            JObj [(''text'', JStr ''alphabet''), (''content'', JStr ''gamma''),
                  (''timestamp'', JNum 20)],
            JObj [(''content'', JStr ''Alpha two''), (''timestamp'', JNum 10)]]
   \<and> fst (searchMessages ''tokenRingChat_'' [] (JStr ''s1'')
          (holding [(''tokenRingChat_history_s1'',
             Json (JArr [JObj [(''text'', JStr ''beta''), (''content'', JStr ''ALPHA''),
                               (''timestamp'', JNum 40)],
                         JObj [(''content'', JStr ''Alpha two''), (''timestamp'', JNum 10)],
                         JObj [(''text'', JStr []), (''content'', JStr ''the ALPHA''),
                               (''timestamp'', JNum 30)],
                         JObj [(''text'', JStr ''alphabet''), (''content'', JStr ''gamma''),
                               (''timestamp'', JNum 20)]]))]))
     = Inr []"
  by code_simp

subsection \<open>The fields of a stored history message\<close>

lemma setField_keys:
  "map fst (setField fs k v) = (if k \<in> fst ` set fs then map fst fs else map fst fs @ [k])"
  by (induction fs) (auto split: if_splits)

lemma distinct_setField: "distinct (map fst fs) \<Longrightarrow> distinct (map fst (setField fs k v))"
  by (simp add: setField_keys)

lemma foldl_setField_distinct:
  "distinct (map fst base) \<Longrightarrow>
   distinct (map fst (foldl (\<lambda>acc kv. setField acc (fst kv) (snd kv)) base fs))"
  by (induction fs arbitrary: base) (simp_all add: distinct_setField)

lemma foldl_setField_other:
  "k \<notin> fst ` set fs \<Longrightarrow>
   field (foldl (\<lambda>acc kv. setField acc (fst kv) (snd kv)) base fs) k = field base k"
  by (induction fs arbitrary: base) (auto simp: field_setField_other)

lemma foldl_setField_field:
  "distinct (map fst fs) \<Longrightarrow> map_of fs k = Some v \<Longrightarrow>
   field (foldl (\<lambda>acc kv. setField acc (fst kv) (snd kv)) base fs) k = v"
proof (induction fs arbitrary: base)
  case Nil
  then show ?case by simp
next
  case (Cons kv fs)
  show ?case
  proof (cases "fst kv = k")
    case True
    with Cons.prems have "snd kv = v" "k \<notin> fst ` set fs"
      by (cases kv; auto)+
    with True show ?thesis
      by (simp add: foldl_setField_other field_setField_same)
  next
    case False
    with Cons.prems have "distinct (map fst fs)" "map_of fs k = Some v"
      by (cases kv; auto)+
    then show ?thesis
      by (simp add: Cons.IH)
  qed
qed

lemma spread_field:
  "distinct (map fst fs) \<Longrightarrow> map_of fs k = Some v \<Longrightarrow> field (spread base (JObj fs)) k = v"
  by (simp add: spread_def foldl_setField_field)

lemma spread_default:
  "map_of fs k = None \<Longrightarrow> field (spread base (JObj fs)) k = field base k"
  by (simp add: spread_def foldl_setField_other map_of_eq_None_iff)

lemma spread_distinct:
  "distinct (map fst base) \<Longrightarrow> distinct (map fst (spread base x))"
  by (simp add: spread_def foldl_setField_distinct)

lemma field_absent: "k \<notin> fst ` set gs \<Longrightarrow> field gs k = JUndefined"
  by (simp add: field_def map_of_eq_None_iff [THEN iffD2])

lemma jsonify_field:
  "distinct (map fst gs) \<Longrightarrow>
   field (map (\<lambda>(k, v). (k, jsonify v)) (filter (\<lambda>(k, v). v \<noteq> JUndefined) gs)) k
     = jsonify (field gs k)"
proof (induction gs)
  case Nil
  then show ?case by (simp add: field_def)
next
  case (Cons kv gs)
  obtain k' v' where kv: "kv = (k', v')" by (cases kv)
  show ?case
  proof (cases "k' = k")
    case True
    with Cons.prems kv have "k \<notin> fst ` set gs" by auto
    then have "k \<notin> fst ` set (map (\<lambda>(k, v). (k, jsonify v)) (filter (\<lambda>(k, v). v \<noteq> JUndefined) gs))"
      by (auto simp: image_iff)
    then have "field (map (\<lambda>(k, v). (k, jsonify v)) (filter (\<lambda>(k, v). v \<noteq> JUndefined) gs)) k = JUndefined"
      by (rule field_absent)
    with True kv show ?thesis
      by (auto simp: field_def)
  next
    case False
    with Cons kv show ?thesis
      by (auto simp: field_def)
  qed
qed

lemma findIndexStrict_records:
  "list_all isRecord ss \<Longrightarrow>
   \<exists>r. findIndexStrict ss v = Inr r \<and> (\<forall>i. r = Some i \<longrightarrow> i < length ss)"
proof (induction ss)
  case Nil
  then show ?case by simp
next
  case (Cons s ss)
  then obtain r where "findIndexStrict ss v = Inr r" "\<forall>i. r = Some i \<longrightarrow> i < length ss"
    by auto
  moreover from Cons.prems obtain fs where "s = JObj fs"
    by (cases s) auto
  ultimately show ?case
    by (cases r) (auto simp: getProp_def)
qed

lemma assignProps_record:
  "\<exists>gs. assignProps (JObj fs) kvs = Inr (JObj gs)"
  by (induction kvs arbitrary: fs) auto

lemma writeList_total: "\<exists>st'. writeList key v st = (Inr (), st')"
  by (cases key) (auto simp: writeList_def io_defs)

lemma updateSessionMetadata_records:
  assumes "items st (sessionsListKey pfx) = Some (Json (JArr ss))" "list_all isRecord ss"
  shows "\<exists>st'. updateSessionMetadata pfx sid t now st = (Inr (), st')
     \<and> (\<forall>k. k \<noteq> sessionsListKey pfx \<longrightarrow> items st' k = items st k)"
proof -
  from findIndexStrict_records [OF assms(2), of sid] obtain r
    where r: "findIndexStrict ss sid = Inr r" "\<forall>i. r = Some i \<longrightarrow> i < length ss"
    by blast
  show ?thesis
  proof (cases r)
    case None
    with r assms show ?thesis
      by (simp add: updateSessionMetadata_def getSessionsList_def readList_def io_defs)
  next
    case (Some i)
    with r have i: "i < length ss" by simp
    with assms(2) obtain fs where fs: "ss ! i = JObj fs"
      by (cases "ss ! i") (auto simp: list_all_length)
    from assignProps_record [of fs] obtain gs where
      gs: "assignProps (JObj fs) [(''lastActivity'', JNum now),
                 (''previewText'',
                    JStr (if length (take 50 (toStr (orElse t (JStr [])))) = 50
                          then take 50 (toStr (orElse t (JStr []))) @ ''...''
                          else take 50 (toStr (orElse t (JStr [])))))] = Inr (JObj gs)"
      by blast
    show ?thesis
      using r Some i fs gs assms
      by (auto simp: updateSessionMetadata_def getSessionsList_def readList_def io_defs at_def
            saveSessionsList_def writeList_def)
  qed
qed

text \<open>
  C8. \<^verbatim>\<open>addMessage\<close> is called with a session id and a message object that has a
  property \<open>k\<close> with value \<open>v\<close>, on a storage that takes the write, where the log of
  the session reads as an array and the list of sessions is an array of objects. Then the
  call returns a record whose property \<open>k\<close> is \<open>v\<close>, and the record appended to the log
  under the key of the session id has, once written as JSON, the property \<open>k\<close> with
  the JSON form of \<open>v\<close>: a \<^verbatim>\<open>sessionId\<close>, \<^verbatim>\<open>id\<close>, \<^verbatim>\<open>timestamp\<close> or \<^verbatim>\<open>createdAt\<close> of
  the message replaces the generated one, also when it differs from the session id of
  the call.
\<close>

theorem C8_message_fields_override:
  assumes "accepting st" "truthy sid" "distinct (map fst fs)" "map_of fs k = Some v"
    and "fst (getMessages pfx sid st) = Inr (JArr log)"
    and "items st (sessionsListKey pfx) = Some (Json (JArr ss))" "list_all isRecord ss"
  shows "\<exists>r st' stored.
       addMessage pfx sid (JObj fs) nowId nowTimestamp nowCreatedAt nowActivity st = (Inr r, st')
     \<and> propOf r k = v
     \<and> items st' (pfx @ ''history_'' @ toStr sid) = Some (Json (JArr stored))
     \<and> stored \<noteq> []
     \<and> propOf (last stored) k = jsonify v"
proof -
  define base where "base =
     [(''id'', orElse (propOf (JObj fs) ''id'') (JStr (decimal nowId))),
      (''timestamp'', orElse (propOf (JObj fs) ''timestamp'') (JNum nowTimestamp)),
      (''createdAt'', orElse (propOf (JObj fs) ''createdAt'') (JNum nowCreatedAt)),
      (''sessionId'', sid)]"
  define gs where "gs = spread base (JObj fs)"
  define key where "key = pfx @ ''history_'' @ toStr sid"
  define st1 where "st1 = st\<lparr>items := (items st)(key \<mapsto> JSON_stringify (JArr (log @ [JObj gs])))\<rparr>"
  have dist: "distinct (map fst gs)"
    unfolding gs_def by (rule spread_distinct) (simp add: base_def)
  have gk: "field gs k = v"
    unfolding gs_def using assms(3,4) by (rule spread_field)
  have get: "getMessages pfx sid st = (Inr (JArr log), st)"
    using assms(5) readList_state [of "getSessionKey pfx sid" st]
    by (simp add: getMessages_def prod_eq_iff)
  have save: "saveMessages pfx sid (JArr (log @ [JObj gs])) st = (Inr (), st1)"
    using assms(1,2)
    by (simp add: saveMessages_def writeList_def getSessionKey_def io_defs accepting_def
          st1_def key_def)
  have neq: "key \<noteq> sessionsListKey pfx"
    by (simp add: key_def sessionsListKey_def)
  with assms(6) have s1: "items st1 (sessionsListKey pfx) = Some (Json (JArr ss))"
    by (simp add: st1_def)
  from updateSessionMetadata_records [OF s1 assms(7),
      of sid "orElse (propOf (JObj fs) ''content'') (propOf (JObj fs) ''text'')" nowActivity]
  obtain st' where upd: "updateSessionMetadata pfx sid
        (orElse (propOf (JObj fs) ''content'') (propOf (JObj fs) ''text'')) nowActivity st1
        = (Inr (), st')"
    and same: "\<forall>k. k \<noteq> sessionsListKey pfx \<longrightarrow> items st' k = items st1 k"
    by blast
  have call: "addMessage pfx sid (JObj fs) nowId nowTimestamp nowCreatedAt nowActivity st
      = (Inr (JObj gs), st')"
    using assms(2) get save upd
    by (simp add: addMessage_def bnd_def ok_def lift_def Let_def gs_def base_def)
  let ?stored = "map (\<lambda>x. if x = JUndefined then JNull else jsonify x) log @ [jsonify (JObj gs)]"
  from same neq have "items st' key = items st1 key"
    by simp
  then have kept: "items st' (pfx @ ''history_'' @ toStr sid) = Some (Json (JArr ?stored))"
    by (simp add: st1_def key_def JSON_stringify_def)
  have lastk: "propOf (last ?stored) k = jsonify v"
    using jsonify_field [OF dist, of k] gk by simp
  from gk have "propOf (JObj gs) k = v"
    by simp
  with call kept lastk show ?thesis
    by (intro exI [of _ "JObj gs"] exI [of _ st'] exI [of _ ?stored]) simp
qed

theorem C8_message_fields_override_witness:
  "accepting (holding [(''tokenRingChat_sessions_v1'', Json (JArr [JObj [(''id'', JStr ''s1'')]]))])
   \<and> truthy (JStr ''s1'')
   \<and> (\<exists>r st'.
         addMessage ''tokenRingChat_'' (JStr ''s1'')
           (JObj [(''sessionId'', JStr ''other''), (''id'', JNum 0), (''content'', JStr ''hi'')])
           1 2 3 4
           (holding [(''tokenRingChat_sessions_v1'', Json (JArr [JObj [(''id'', JStr ''s1'')]]))])
           = (Inr r, st')
       \<and> propOf r ''sessionId'' = JStr ''other''
       \<and> (\<exists>stored. items st' (''tokenRingChat_'' @ ''history_'' @ toStr (JStr ''s1''))
                       = Some (Json (JArr stored))
                  \<and> propOf (last stored) ''sessionId'' = JStr ''other''))"
proof -
  let ?st = "holding [(''tokenRingChat_sessions_v1'', Json (JArr [JObj [(''id'', JStr ''s1'')]]))]"
  let ?fs = "[(''sessionId'', JStr ''other''), (''id'', JNum 0), (''content'', JStr ''hi'')]"
  have a: "accepting ?st"
    by (simp add: accepting_def holding_def)
  have t: "truthy (JStr ''s1'')"
    by simp
  have d: "distinct (map fst ?fs)"
    by simp
  have m: "map_of ?fs ''sessionId'' = Some (JStr ''other'')"
    by simp
  have g: "fst (getMessages ''tokenRingChat_'' (JStr ''s1'') ?st) = Inr (JArr [])"
    by (simp add: getMessages_def readList_def getSessionKey_def io_defs holding_def)
  have s: "items ?st (sessionsListKey ''tokenRingChat_'')
             = Some (Json (JArr [JObj [(''id'', JStr ''s1'')]]))"
    by (simp add: holding_def sessionsListKey_def)
  have r: "list_all isRecord [JObj [(''id'', JStr ''s1'')]]"
    by simp
  from C8_message_fields_override [OF a t d m g s r, of 1 2 3 4]
  obtain r st' stored where
    "addMessage ''tokenRingChat_'' (JStr ''s1'') (JObj ?fs) 1 2 3 4 ?st = (Inr r, st')"
    "propOf r ''sessionId'' = JStr ''other''"
    "items st' (''tokenRingChat_'' @ ''history_'' @ toStr (JStr ''s1'')) = Some (Json (JArr stored))"
    "propOf (last stored) ''sessionId'' = jsonify (JStr ''other'')"
    by blast
  with a t show ?thesis
    by auto
qed

subsection \<open>String and number forms of an id\<close>

declare digitsOf.simps [simp del]

lemma of_char_digitChar: "d < 10 \<Longrightarrow> (of_char (digitChar d) :: nat) = 48 + d"
  by (simp add: digitChar_def)

lemma isDigit_digitChar: "d < 10 \<Longrightarrow> isDigit (digitChar d)"
  by (simp add: isDigit_def of_char_digitChar)

lemma digitVal_digitChar: "d < 10 \<Longrightarrow> digitVal (digitChar d) = d"
  by (simp add: digitVal_def of_char_digitChar)

lemma digitsOf_digits: "list_all isDigit (digitsOf n)"
  by (induction n rule: digitsOf.induct) (subst digitsOf.simps, simp add: isDigit_digitChar)

lemma digitsOf_nonempty: "digitsOf n \<noteq> []"
  by (subst digitsOf.simps) simp

lemma natOfDigits_snoc: "natOfDigits (s @ [c]) = 10 * natOfDigits s + digitVal c"
  by (simp add: natOfDigits_def)

lemma natOfDigits_digitsOf: "natOfDigits (digitsOf n) = n"
proof (induction n rule: digitsOf.induct)
  case (1 n)
  show ?case
  proof (cases "n < 10")
    case True
    then show ?thesis
      by (subst digitsOf.simps) (simp add: natOfDigits_def digitVal_digitChar)
  next
    case False
    with 1 show ?thesis
      by (subst digitsOf.simps) (simp add: natOfDigits_snoc digitVal_digitChar)
  qed
qed

lemma isDigit_not_space: "isDigit c \<Longrightarrow> \<not> isWhiteSpace c"
  by (auto simp: isDigit_def isWhiteSpace_def)

lemma trim_unchanged:
  "s \<noteq> [] \<Longrightarrow> \<not> isWhiteSpace (hd s) \<Longrightarrow> \<not> isWhiteSpace (last s) \<Longrightarrow> trim s = s"
proof -
  assume s: "s \<noteq> []" and h: "\<not> isWhiteSpace (hd s)" and l: "\<not> isWhiteSpace (last s)"
  from s h have "dropWhile isWhiteSpace s = s"
    by (cases s) auto
  moreover from s l have "dropWhile isWhiteSpace (rev s) = rev s"
    by (cases "rev s") (auto simp: last_rev [symmetric] hd_rev)
  ultimately show ?thesis
    by (simp add: trim_def)
qed

lemma digits_trim: "s \<noteq> [] \<Longrightarrow> list_all isDigit s \<Longrightarrow> trim s = s"
  by (rule trim_unchanged) (auto simp: list_all_iff isDigit_not_space)

lemma strToNum_decimal: "strToNum (decimal i) = Some i"
proof (cases "i < 0")
  case True
  let ?d = "digitsOf (nat (- i))"
  have "\<not> isWhiteSpace CHR ''-''"
    by (simp add: isWhiteSpace_def)
  moreover have "\<not> isWhiteSpace (last ?d)"
    using digitsOf_digits [of "nat (- i)"] digitsOf_nonempty [of "nat (- i)"]
    by (auto simp: list_all_iff isDigit_not_space)
  ultimately have "trim (CHR ''-'' # ?d) = CHR ''-'' # ?d"
    using digitsOf_nonempty [of "nat (- i)"] by (intro trim_unchanged) auto
  with True show ?thesis
    by (simp add: strToNum_def decimal_def digitsOf_digits digitsOf_nonempty natOfDigits_digitsOf)
next
  case False
  let ?d = "digitsOf (nat i)"
  obtain c r where cr: "?d = c # r"
    using digitsOf_nonempty [of "nat i"] by (cases ?d) auto
  with digitsOf_digits [of "nat i"] have "isDigit c"
    by simp
  then have c: "c \<noteq> CHR ''-''" "c \<noteq> CHR ''+''"
    by (auto simp: isDigit_def)
  have "trim ?d = ?d"
    by (rule digits_trim) (simp_all add: digitsOf_nonempty digitsOf_digits)
  with False cr c digitsOf_digits [of "nat i"] natOfDigits_digitsOf [of "nat i"] show ?thesis
    by (simp add: strToNum_def decimal_def)
qed

lemma decimal_inj: "decimal i = decimal j \<Longrightarrow> i = j"
  by (metis option.inject strToNum_decimal)

lemma looseEq_num_forms: "looseEq (JNum k) (JStr (decimal n)) = looseEq (JNum k) (JNum n)"
  by (simp add: looseEq_def toPrimitive_def strToNum_decimal)

lemma looseEq_str_forms:
  "looseEq (JStr (decimal k)) (JStr (decimal n)) = looseEq (JStr (decimal k)) (JNum n)"
proof -
  have "(decimal k = decimal n) = (k = n)"
    using decimal_inj by blast
  then show ?thesis
    by (simp add: looseEq_def toPrimitive_def strToNum_decimal)
qed

lemma looseEq_forms:
  assumes "plainId v"
  shows "looseEq v (JStr (decimal n)) = looseEq v (JNum n)"
proof (cases v)
  case (JNum k)
  then show ?thesis by (simp only: looseEq_num_forms)
next
  case (JStr s)
  with assms obtain k where "strToNum s = Some k" "s = decimal k"
    by (cases "strToNum s") (simp_all add: plainId_def)
  with JStr show ?thesis by (simp only: looseEq_str_forms)
qed (use assms in \<open>simp_all add: plainId_def\<close>)

lemma numeric_plainId: "numeric v \<Longrightarrow> plainId v"
  by (cases v) (auto simp: numeric_def plainId_def)

lemma storedMessage_record: "storedMessage m \<Longrightarrow> \<exists>fs. m = JObj fs"
  by (cases m) (auto simp: storedMessage_def numeric_def split: if_splits)

lemma findById_forms:
  "list_all storedMessage ms \<Longrightarrow> findById ms (JStr (decimal n)) = findById ms (JNum n)"
proof (induction ms)
  case Nil
  then show ?case by simp
next
  case (Cons m ms)
  then have "storedMessage m" by simp
  then have "looseEq (propOf m ''id'') (JStr (decimal n)) = looseEq (propOf m ''id'') (JNum n)"
    by (intro looseEq_forms numeric_plainId) (simp add: storedMessage_def)
  with Cons show ?case
    by (simp add: getProp_def)
qed

lemma filterBySession_forms:
  "list_all storedMessage ms \<Longrightarrow>
   filterBySession ms (JStr (decimal n)) = filterBySession ms (JNum n)"
proof (induction ms)
  case Nil
  then show ?case by simp
next
  case (Cons m ms)
  then have "storedMessage m" by simp
  then have "looseEq (propOf m ''sessionId'') (JStr (decimal n))
      = looseEq (propOf m ''sessionId'') (JNum n)"
    by (intro looseEq_forms) (simp add: storedMessage_def)
  with Cons show ?case
    by (auto simp: getProp_def split: sum.splits)
qed

lemma findById_finds:
  "list_all storedMessage ms \<Longrightarrow> \<exists>m\<in>set ms. propOf m ''id'' = JNum n \<Longrightarrow>
   \<exists>m'. findById ms (JNum n) = Inr m' \<and> m' \<in> set ms \<and> propOf m' ''id'' = JNum n"
proof (induction ms)
  case Nil
  then show ?case by simp
next
  case (Cons m ms)
  from Cons.prems(1) obtain fs where m: "m = JObj fs"
    using storedMessage_record [of m] by auto
  from Cons.prems(1) obtain k where k: "propOf m ''id'' = JNum k"
    by (cases "propOf m ''id''") (auto simp: storedMessage_def numeric_def)
  show ?case
  proof (cases "k = n")
    case True
    with k m show ?thesis
      by (auto simp: getProp_def looseEq_def toPrimitive_def)
  next
    case False
    with k Cons.prems have "\<exists>m\<in>set ms. propOf m ''id'' = JNum n"
      by auto
    with Cons obtain m' where "findById ms (JNum n) = Inr m'" "m' \<in> set ms"
        "propOf m' ''id'' = JNum n"
      by auto
    with False k m show ?thesis
      by (auto simp: getProp_def looseEq_def toPrimitive_def)
  qed
qed

lemma filterBySession_records:
  "list_all storedMessage ms \<Longrightarrow>
   filterBySession ms v = Inr (filter (\<lambda>m. looseEq (propOf m ''sessionId'') v) ms)"
proof (induction ms)
  case Nil
  then show ?case by simp
next
  case (Cons m ms)
  then obtain fs where "m = JObj fs"
    using storedMessage_record [of m] by auto
  with Cons show ?case
    by (simp add: getProp_def)
qed

text \<open>
  C9. The stored messages are an array of records with numeric ids, whose session ids
  are numbers or decimal strings. Then \<^verbatim>\<open>retrieveMessageById\<close> gives the same result for
  the number \<open>n\<close> and for its decimal string, which is the first stored message with id
  \<open>n\<close> when there is one, and \<^verbatim>\<open>retrieveMessagesBySession\<close> gives the same messages for
  the number \<open>n\<close> and for its decimal string: those whose session id is loosely equal
  to \<open>n\<close>.
\<close>

theorem C9_string_and_number_ids:
  assumes "items st (pfx @ ''messages'') = Some (Json (JArr ms))" "list_all storedMessage ms"
  shows "retrieveMessageById pfx (JStr (decimal n)) st = retrieveMessageById pfx (JNum n) st
     \<and> ((\<exists>m\<in>set ms. propOf m ''id'' = JNum n) \<longrightarrow>
          (\<exists>m'. m' \<in> set ms \<and> propOf m' ''id'' = JNum n
              \<and> retrieveMessageById pfx (JStr (decimal n)) st = (Inr m', st)))
     \<and> retrieveMessagesBySession pfx (JStr (decimal n)) st
           = retrieveMessagesBySession pfx (JNum n) st
     \<and> retrieveMessagesBySession pfx (JNum n) st
           = (Inr (filter (\<lambda>m. looseEq (propOf m ''sessionId'') (JNum n)) ms), st)"
proof (intro conjI impI)
  show byId: "retrieveMessageById pfx (JStr (decimal n)) st = retrieveMessageById pfx (JNum n) st"
    using assms findById_forms [OF assms(2), of n]
    by (simp add: retrieveMessageById_def parseItemOr_def io_defs split: sum.splits)
  show "retrieveMessagesBySession pfx (JStr (decimal n)) st
          = retrieveMessagesBySession pfx (JNum n) st"
    using assms filterBySession_forms [OF assms(2), of n]
    by (simp add: retrieveMessagesBySession_def parseItemOr_def io_defs)
  show "retrieveMessagesBySession pfx (JNum n) st
          = (Inr (filter (\<lambda>m. looseEq (propOf m ''sessionId'') (JNum n)) ms), st)"
    using assms filterBySession_records [OF assms(2), of "JNum n"]
    by (simp add: retrieveMessagesBySession_def parseItemOr_def io_defs)
  assume "\<exists>m\<in>set ms. propOf m ''id'' = JNum n"
  with findById_finds [OF assms(2), of n] obtain m'
    where m': "findById ms (JNum n) = Inr m'" "m' \<in> set ms" "propOf m' ''id'' = JNum n"
    by blast
  with assms(2) obtain fs where "m' = JObj fs"
    using storedMessage_record [of m'] by (auto simp: list_all_iff)
  with m' assms(1) have "retrieveMessageById pfx (JNum n) st = (Inr m', st)"
    by (simp add: retrieveMessageById_def parseItemOr_def io_defs)
  with byId m' show "\<exists>m'. m' \<in> set ms \<and> propOf m' ''id'' = JNum n
              \<and> retrieveMessageById pfx (JStr (decimal n)) st = (Inr m', st)"
    by auto
qed

theorem C9_string_and_number_ids_witness:
  "list_all storedMessage
     [JObj [(''id'', JNum 1), (''sessionId'', JNum 1)],
      JObj [(''id'', JNum 2), (''sessionId'', JStr ''1'')]]
   \<and> fst (retrieveMessageById ''chat_'' (JStr ''2'')
          (holding [(''chat_messages'',
             Json (JArr [JObj [(''id'', JNum 1), (''sessionId'', JNum 1)],
                         JObj [(''id'', JNum 2), (''sessionId'', JStr ''1'')]]))]))
       = Inr (JObj [(''id'', JNum 2), (''sessionId'', JStr ''1'')])
   \<and> fst (retrieveMessagesBySession ''chat_'' (JStr ''1'')
          (holding [(''chat_messages'',
             Json (JArr [JObj [(''id'', JNum 1), (''sessionId'', JNum 1)],
                         JObj [(''id'', JNum 2), (''sessionId'', JStr ''1'')]]))]))
       = Inr [JObj [(''id'', JNum 1), (''sessionId'', JNum 1)],
              JObj [(''id'', JNum 2), (''sessionId'', JStr ''1'')]]"
proof -
  let ?m1 = "JObj [(''id'', JNum 1), (''sessionId'', JNum 1)]"
  let ?m2 = "JObj [(''id'', JNum 2), (''sessionId'', JStr ''1'')]"
  let ?st = "holding [(''chat_messages'', Json (JArr [?m1, ?m2]))]"
  have d1: "decimal 1 = ''1''" and d2: "decimal 2 = ''2''"
    by code_simp+
  have sm: "list_all storedMessage [?m1, ?m2]"
    by code_simp
  have it: "items ?st (''chat_'' @ ''messages'') = Some (Json (JArr [?m1, ?m2]))"
    by (simp add: holding_def)
  have ex: "\<exists>m\<in>set [?m1, ?m2]. propOf m ''id'' = JNum 2"
    by (simp add: field_def)
  from C9_string_and_number_ids [OF it sm, of 2] ex obtain m'
    where "m' \<in> set [?m1, ?m2]" "propOf m' ''id'' = JNum 2"
      "retrieveMessageById ''chat_'' (JStr (decimal 2)) ?st = (Inr m', ?st)"
    by blast
  then have r1: "fst (retrieveMessageById ''chat_'' (JStr ''2'') ?st) = Inr ?m2"
    by (auto simp: d2 field_def)
  from C9_string_and_number_ids [OF it sm, of 1]
  have "retrieveMessagesBySession ''chat_'' (JStr (decimal 1)) ?st
          = (Inr (filter (\<lambda>m. looseEq (propOf m ''sessionId'') (JNum 1)) [?m1, ?m2]), ?st)"
    by simp
  moreover have "filter (\<lambda>m. looseEq (propOf m ''sessionId'') (JNum 1)) [?m1, ?m2] = [?m1, ?m2]"
    by code_simp
  ultimately have r2: "fst (retrieveMessagesBySession ''chat_'' (JStr ''1'') ?st) = Inr [?m1, ?m2]"
    by (simp add: d1)
  from sm r1 r2 show ?thesis
    by blast
qed

subsection \<open>Allocation without a counters record\<close>

text \<open>
  C10, as the claim states it, fails for a counters text that does not parse:
  \<^verbatim>\<open>JSON.parse\<close> throws inside \<^verbatim>\<open>getNextId\<close>, no id is returned and the text stays as
  it is.
\<close>

theorem C10_counterexample:
  "fst (getNextId ''chat_'' ''sessionId'' (holding [(''chat_counters'', Malformed ''{oops'')]))
     = Inl SyntaxError
   \<and> items (snd (getNextId ''chat_'' ''sessionId''
                   (holding [(''chat_counters'', Malformed ''{oops'')]))) ''chat_counters''
     = Some (Malformed ''{oops'')"
  by code_simp

text \<open>
  C10, amended. On a storage that takes the write: when the counters record is missing
  (or is the empty string), \<^verbatim>\<open>getNextId\<close> returns 1 and stores a record with the
  requested counter at 2; when the record is an object without the requested field, it
  returns 1 and adds the field with 2; so after the record is removed the next id is 1
  again, whatever was issued before. When the text of the record does not parse,
  \<^verbatim>\<open>getNextId\<close> throws the parser's error and stores nothing.
\<close>

theorem C10_getNextId_restarts:
  "accepting st \<Longrightarrow>
     (\<not> present (items st (pfx @ ''counters'')) \<longrightarrow>
        getNextId pfx ty st =
          (Inr (JNum 1),
           st\<lparr>items := (items st)(pfx @ ''counters'' \<mapsto> Json (JObj [(ty, JNum 2)]))\<rparr>))
   \<and> (items st (pfx @ ''counters'') = Some (Json (JObj fs)) \<and> map_of fs ty = None \<longrightarrow>
        getNextId pfx ty st =
          (Inr (JNum 1),
           st\<lparr>items := (items st)(pfx @ ''counters'' \<mapsto>
                            JSON_stringify (JObj (fs @ [(ty, JNum 2)])))\<rparr>))
   \<and> fst (bnd (removeItem (pfx @ ''counters'')) (\<lambda>_. getNextId pfx ty) st) = Inr (JNum 1)
   \<and> (items st (pfx @ ''counters'') = Some (Malformed s) \<and> s \<noteq> [] \<longrightarrow>
        getNextId pfx ty st = (Inl SyntaxError, st))"
proof (intro conjI impI)
  assume acc: "accepting st"
  {
    assume "\<not> present (items st (pfx @ ''counters''))"
    with acc show "getNextId pfx ty st =
          (Inr (JNum 1),
           st\<lparr>items := (items st)(pfx @ ''counters'' \<mapsto> Json (JObj [(ty, JNum 2)]))\<rparr>)"
      by (cases "items st (pfx @ ''counters'')")
         (simp_all add: getNextId_def parseItemOr_def io_defs getProp_def field_def orElse_def
            JSON_stringify_def accepting_def)
  next
    assume "items st (pfx @ ''counters'') = Some (Json (JObj fs)) \<and> map_of fs ty = None"
    with acc show "getNextId pfx ty st =
          (Inr (JNum 1),
           st\<lparr>items := (items st)(pfx @ ''counters'' \<mapsto>
                            JSON_stringify (JObj (fs @ [(ty, JNum 2)])))\<rparr>)"
      by (simp add: getNextId_def parseItemOr_def io_defs getProp_def field_def orElse_def
            accepting_def setField_absent)
  next
    from acc show "fst (bnd (removeItem (pfx @ ''counters'')) (\<lambda>_. getNextId pfx ty) st) = Inr (JNum 1)"
      by (simp add: getNextId_def parseItemOr_def io_defs getProp_def field_def orElse_def
            accepting_def)
  next
    assume "items st (pfx @ ''counters'') = Some (Malformed s) \<and> s \<noteq> []"
    then show "getNextId pfx ty st = (Inl SyntaxError, st)"
      by (simp add: getNextId_def parseItemOr_def io_defs)
  }
qed

theorem C10_getNextId_restarts_witness:
  "accepting emptyStorage
   \<and> fst (getNextId ''chat_'' ''messageId'' emptyStorage) = Inr (JNum 1)
   \<and> items (snd (getNextId ''chat_'' ''messageId'' emptyStorage)) ''chat_counters''
       = Some (Json (JObj [(''messageId'', JNum 2)]))
   \<and> accepting (holding [(''chat_counters'', Json (JObj [(''sessionId'', JNum 7)]))])
   \<and> items (snd (getNextId ''chat_'' ''messageId''
                   (holding [(''chat_counters'', Json (JObj [(''sessionId'', JNum 7)]))])))
         ''chat_counters''
       = Some (Json (JObj [(''sessionId'', JNum 7), (''messageId'', JNum 2)]))
   \<and> fst (bnd (removeItem ''chat_counters'') (\<lambda>_. getNextId ''chat_'' ''sessionId'')
           (holding [(''chat_counters'', Json (JObj [(''sessionId'', JNum 7)]))]))
       = Inr (JNum 1)
   \<and> accepting (holding [(''chat_counters'', Malformed ''{oops'')])
   \<and> getNextId ''chat_'' ''sessionId'' (holding [(''chat_counters'', Malformed ''{oops'')])
       = (Inl SyntaxError, holding [(''chat_counters'', Malformed ''{oops'')])"
proof -
  have a1: "accepting emptyStorage"
    by (simp add: accepting_def emptyStorage_def)
  have a2: "accepting (holding kvs)" for kvs
    by (simp add: accepting_def holding_def)
  have p1: "\<not> present (items emptyStorage (''chat_'' @ ''counters''))"
    by (simp add: emptyStorage_def)
  have p2: "items (holding [(''chat_counters'', Json (JObj [(''sessionId'', JNum 7)]))])
              (''chat_'' @ ''counters'') = Some (Json (JObj [(''sessionId'', JNum 7)]))
            \<and> map_of [(''sessionId'', JNum 7)] ''messageId'' = None"
    by (simp add: holding_def)
  have p3: "items (holding [(''chat_counters'', Malformed ''{oops'')]) (''chat_'' @ ''counters'')
              = Some (Malformed ''{oops'') \<and> ''{oops'' \<noteq> []"
    by (simp add: holding_def)
  have r1: "getNextId ''chat_'' ''messageId'' emptyStorage =
          (Inr (JNum 1),
           emptyStorage\<lparr>items := (items emptyStorage)(''chat_'' @ ''counters'' \<mapsto>
              Json (JObj [(''messageId'', JNum 2)]))\<rparr>)"
    using C10_getNextId_restarts [where st = emptyStorage and pfx = "''chat_''"
        and ty = "''messageId''"] a1 p1
    by blast
  have r2: "getNextId ''chat_'' ''messageId''
              (holding [(''chat_counters'', Json (JObj [(''sessionId'', JNum 7)]))]) =
          (Inr (JNum 1),
           (holding [(''chat_counters'', Json (JObj [(''sessionId'', JNum 7)]))])
             \<lparr>items := (items (holding [(''chat_counters'', Json (JObj [(''sessionId'', JNum 7)]))]))
                 (''chat_'' @ ''counters'' \<mapsto>
                    JSON_stringify (JObj ([(''sessionId'', JNum 7)] @ [(''messageId'', JNum 2)])))\<rparr>)"
    using C10_getNextId_restarts
        [where st = "holding [(''chat_counters'', Json (JObj [(''sessionId'', JNum 7)]))]"
           and pfx = "''chat_''" and ty = "''messageId''" and fs = "[(''sessionId'', JNum 7)]"]
      a2 p2
    by blast
  have r3: "fst (bnd (removeItem (''chat_'' @ ''counters'')) (\<lambda>_. getNextId ''chat_'' ''sessionId'')
           (holding [(''chat_counters'', Json (JObj [(''sessionId'', JNum 7)]))])) = Inr (JNum 1)"
    using C10_getNextId_restarts
        [where st = "holding [(''chat_counters'', Json (JObj [(''sessionId'', JNum 7)]))]"
           and pfx = "''chat_''" and ty = "''sessionId''"]
      a2
    by blast
  have r4: "getNextId ''chat_'' ''sessionId'' (holding [(''chat_counters'', Malformed ''{oops'')])
       = (Inl SyntaxError, holding [(''chat_counters'', Malformed ''{oops'')])"
    using C10_getNextId_restarts
        [where st = "holding [(''chat_counters'', Malformed ''{oops'')]"
           and pfx = "''chat_''" and ty = "''sessionId''" and s = "''{oops''"]
      a2 p3
    by blast
  show ?thesis
    using a1 a2 r1 r2 r3 r4 by (simp add: JSON_stringify_def)
qed

subsection \<open>Refused writes and failed reads\<close>

lemma fst_bnd:
  "fst (bnd m f st) = (case fst (m st) of Inl e \<Rightarrow> Inl e | Inr x \<Rightarrow> fst (f x (snd (m st))))"
  by (cases "m st") (simp add: bnd_def split: sum.splits)

lemma snd_bnd:
  "snd (bnd m f st) = (case fst (m st) of Inl e \<Rightarrow> snd (m st) | Inr x \<Rightarrow> snd (f x (snd (m st))))"
  by (cases "m st") (simp add: bnd_def split: sum.splits)

lemma fst_tryCatch:
  "fst (tryCatch m h st) = (case fst (m st) of Inl e \<Rightarrow> fst (h e (snd (m st))) | Inr x \<Rightarrow> Inr x)"
  by (cases "m st") (simp add: tryCatch_def split: sum.splits)

text \<open>The reads and writes of the checkpoint, chat history and agent state services
  never throw.\<close>

lemma readList_listAt: "readList key st = (Inr (listAt key st), st)"
  by (cases key)
     (auto simp: readList_def listAt_def io_defs split: option.splits jsontext.splits sum.splits)

lemma writeList_written: "writeList key v st = (Inr (), written key v st)"
  by (cases key) (auto simp: writeList_def written_def io_defs)

lemma listAt_policy [simp]: "listAt key (st\<lparr>refuses := r\<rparr>) = listAt key st"
  by (cases key)
     (auto simp: readList_def listAt_def io_defs split: option.splits jsontext.splits sum.splits)

lemma listAt_items: "items st' k = items st k \<Longrightarrow> listAt (Inr k) st' = listAt (Inr k) st"
  by (auto simp: readList_def listAt_def io_defs split: option.splits jsontext.splits sum.splits)

lemma listAt_malformed: "items st k = Some (Malformed s) \<Longrightarrow> listAt (Inr k) st = JArr []"
  by (simp add: readList_def listAt_def io_defs)

lemma written_other: "k' \<noteq> k \<Longrightarrow> items (written (Inr k) v st) k' = items st k'"
  by (auto simp: writeList_def written_def io_defs)

lemma written_error [simp]: "written (Inl e) v st = st"
  by (auto simp: writeList_def written_def io_defs)

lemma written_refused:
  "refuses st (items st) k (JSON_stringify v) \<Longrightarrow> written (Inr k) v st = st"
  by (auto simp: writeList_def written_def io_defs)

lemma written_refusing: "refusing st \<Longrightarrow> written key v st = st"
  by (cases key) (auto simp: writeList_def written_def io_defs refusing_def)

lemma listAt_written:
  "k \<noteq> k' \<Longrightarrow> listAt (Inr k) (written (Inr k') v st) = listAt (Inr k) st"
  by (rule listAt_items) (simp add: written_other)

text \<open>The list of sessions is not the log of a session: writing the log leaves what
  \<^verbatim>\<open>_updateSessionMetadata\<close> reads.\<close>

lemma sessions_after_log:
  "listAt (Inr (sessionsListKey pfx)) (written (getSessionKey pfx sid) v st)
     = listAt (Inr (sessionsListKey pfx)) st"
  by (simp add: getSessionKey_def sessionsListKey_def listAt_written)

lemma updateSessionMetadata_result:
  assumes "listAt (Inr (sessionsListKey pfx)) st' = listAt (Inr (sessionsListKey pfx)) st"
  shows "fst (updateSessionMetadata pfx sid t now st')
           = fst (updateSessionMetadata pfx sid t now st)"
  using assms
  by (simp add: updateSessionMetadata_def getSessionsList_def saveSessionsList_def
        readList_listAt writeList_written bnd_def ok_def lift_def Let_def
        split: sum.splits option.splits)

lemma updateSessionMetadata_after_log:
  "fst (updateSessionMetadata pfx sid t now
          (written (getSessionKey pfx sid) v (st\<lparr>refuses := r\<rparr>)))
     = fst (updateSessionMetadata pfx sid t now (written (getSessionKey pfx sid) v st))"
  by (rule updateSessionMetadata_result) (simp add: sessions_after_log)

text \<open>What each call returns does not depend on the writes that the storage refuses.\<close>

lemma createCheckpoint_result:
  "fst (createCheckpoint pfx label cm sid now isoNow (st\<lparr>refuses := r\<rparr>))
     = fst (createCheckpoint pfx label cm sid now isoNow st)"
  by (simp add: createCheckpoint_def getCheckpoints_def saveCheckpoints_def readList_listAt
        writeList_written bnd_def ok_def lift_def raise_def Let_def split: sum.splits)

lemma clearAllCheckpoints_result:
  "fst (clearAllCheckpoints pfx sid (st\<lparr>refuses := r\<rparr>)) = fst (clearAllCheckpoints pfx sid st)"
  by (simp add: clearAllCheckpoints_def saveCheckpoints_def writeList_written raise_def)

lemma createSession_result:
  "fst (createSession pfx name now timeLabel (st\<lparr>refuses := r\<rparr>))
     = fst (createSession pfx name now timeLabel st)"
  by (simp add: createSession_def getSessionsList_def saveSessionsList_def saveMessages_def
        readList_listAt writeList_written bnd_def ok_def lift_def raise_def Let_def
        split: sum.splits)

lemma deleteSession_result:
  "fst (deleteSession pfx sid (st\<lparr>refuses := r\<rparr>)) = fst (deleteSession pfx sid st)"
  by (simp add: deleteSession_def getSessionsList_def saveSessionsList_def
        readList_listAt writeList_written removeItem_def bnd_def ok_def lift_def raise_def Let_def
        split: sum.splits)

lemma renameSession_result:
  "fst (renameSession pfx sid newName now (st\<lparr>refuses := r\<rparr>))
     = fst (renameSession pfx sid newName now st)"
  by (simp add: renameSession_def getSessionsList_def saveSessionsList_def
        readList_listAt writeList_written bnd_def ok_def lift_def raise_def Let_def
        split: sum.splits option.splits)

lemma addMessage_result:
  "fst (addMessage pfx sid msg nowId nowTimestamp nowCreatedAt nowActivity (st\<lparr>refuses := r\<rparr>))
     = fst (addMessage pfx sid msg nowId nowTimestamp nowCreatedAt nowActivity st)"
  by (simp add: addMessage_def getMessages_def saveMessages_def readList_listAt
        writeList_written fst_bnd ok_def lift_def raise_def Let_def
        updateSessionMetadata_after_log split: sum.splits)

lemma clearSessionHistory_result:
  "fst (clearSessionHistory pfx sid now (st\<lparr>refuses := r\<rparr>))
     = fst (clearSessionHistory pfx sid now st)"
  by (simp add: clearSessionHistory_def saveMessages_def writeList_written fst_bnd raise_def
        updateSessionMetadata_after_log split: sum.splits)

lemma storeCheckpoint_result:
  "fst (storeCheckpoint pfx cp now (st\<lparr>refuses := r\<rparr>)) = fst (storeCheckpoint pfx cp now st)"
  by (simp add: storeCheckpoint_def getAllCheckpoints_def saveAllCheckpoints_def
        readList_listAt writeList_written bnd_def ok_def lift_def raise_def Let_def
        split: sum.splits)

lemma agentClearAllCheckpoints_result:
  "fst (agentClearAllCheckpoints pfx (st\<lparr>refuses := r\<rparr>)) = fst (agentClearAllCheckpoints pfx st)"
  by (simp add: agentClearAllCheckpoints_def saveAllCheckpoints_def writeList_written)

lemma deleteCheckpoint_result:
  "fst (deleteCheckpoint pfx i (st\<lparr>refuses := r\<rparr>)) = fst (deleteCheckpoint pfx i st)"
  by (simp add: deleteCheckpoint_def getAllCheckpoints_def saveAllCheckpoints_def
        readList_listAt writeList_written bnd_def ok_def lift_def raise_def Let_def
        split: sum.splits)

text \<open>On a storage that refuses every write, the calls that do not remove an item leave
  the storage as it was.\<close>

lemma updateSessionMetadata_unchanged:
  "refusing st \<Longrightarrow> snd (updateSessionMetadata pfx sid t now st) = st"
  by (simp add: updateSessionMetadata_def getSessionsList_def saveSessionsList_def
        readList_listAt writeList_written written_refusing snd_bnd ok_def lift_def Let_def
        split: sum.splits option.splits)

lemma refused_unchanged:
  assumes "refusing st"
  shows "snd (createCheckpoint pfx label cm sid now isoNow st) = st"
    and "snd (clearAllCheckpoints pfx sid st) = st"
    and "snd (createSession pfx name now timeLabel st) = st"
    and "snd (renameSession pfx sid newName now st) = st"
    and "snd (addMessage pfx sid msg nowId nowTimestamp nowCreatedAt nowActivity st) = st"
    and "snd (clearSessionHistory pfx sid now st) = st"
    and "snd (storeCheckpoint pfx cp now st) = st"
    and "snd (agentClearAllCheckpoints pfx st) = st"
    and "snd (deleteCheckpoint pfx i st) = st"
proof -
  note w = writeList_written written_refusing [OF assms] readList_listAt snd_bnd
    updateSessionMetadata_unchanged [OF assms]
  show "snd (createCheckpoint pfx label cm sid now isoNow st) = st"
    by (simp add: createCheckpoint_def getCheckpoints_def saveCheckpoints_def w
          ok_def lift_def raise_def Let_def split: sum.splits)
  show "snd (clearAllCheckpoints pfx sid st) = st"
    by (simp add: clearAllCheckpoints_def saveCheckpoints_def w raise_def)
  show "snd (createSession pfx name now timeLabel st) = st"
    by (simp add: createSession_def getSessionsList_def saveSessionsList_def saveMessages_def w
          ok_def lift_def raise_def Let_def split: sum.splits)
  show "snd (renameSession pfx sid newName now st) = st"
    by (simp add: renameSession_def getSessionsList_def saveSessionsList_def w
          ok_def lift_def raise_def Let_def split: sum.splits option.splits)
  show "snd (addMessage pfx sid msg nowId nowTimestamp nowCreatedAt nowActivity st) = st"
    by (simp add: addMessage_def getMessages_def saveMessages_def w
          ok_def lift_def raise_def Let_def split: sum.splits)
  show "snd (clearSessionHistory pfx sid now st) = st"
    by (simp add: clearSessionHistory_def saveMessages_def w raise_def)
  show "snd (storeCheckpoint pfx cp now st) = st"
    by (simp add: storeCheckpoint_def getAllCheckpoints_def saveAllCheckpoints_def w
          ok_def lift_def raise_def Let_def split: sum.splits)
  show "snd (agentClearAllCheckpoints pfx st) = st"
    by (simp add: agentClearAllCheckpoints_def saveAllCheckpoints_def w)
  show "snd (deleteCheckpoint pfx i st) = st"
    by (simp add: deleteCheckpoint_def getAllCheckpoints_def saveAllCheckpoints_def w
          ok_def lift_def raise_def Let_def split: sum.splits)
qed

text \<open>\<^verbatim>\<open>deleteSession\<close> removes the log after the write of the list, refused or not.\<close>

lemma deleteSession_refusing:
  assumes "refusing st"
  shows "snd (deleteSession pfx sid st)
     = (if fst (deleteSession pfx sid st) = Inr True
        then st\<lparr>items := (items st)(pfx @ ''history_'' @ toStr sid := None)\<rparr> else st)"
  by (simp add: deleteSession_def getSessionsList_def saveSessionsList_def getSessionKey_def
        readList_listAt writeList_written written_refusing [OF assms] removeItem_def
        bnd_def ok_def lift_def raise_def Let_def split: sum.splits)

text \<open>The message store: a refused write is thrown, and \<^verbatim>\<open>storeChat\<close> and
  \<^verbatim>\<open>clearAllData\<close> throw it on in an error of their own.\<close>

lemma refusing_items [simp]: "refusing (st\<lparr>items := f\<rparr>) = refusing st"
  by (simp add: refusing_def)

lemma refusingKey_items [simp]: "refusingKey (st\<lparr>items := f\<rparr>) k = refusingKey st k"
  by (simp add: refusingKey_def)

lemma refusing_key: "refusing st \<Longrightarrow> refusingKey st k"
  by (simp add: refusing_def refusingKey_def)

lemma setItem_refusedKey: "refusingKey st k \<Longrightarrow> setItem k t st = (Inl QuotaExceededError, st)"
  by (simp add: setItem_def refusingKey_def)

lemma setItem_refused: "refusing st \<Longrightarrow> setItem k t st = (Inl QuotaExceededError, st)"
  by (simp add: setItem_def refusing_def)

lemma setItem_policy [simp]: "refusingKey (snd (setItem k t st)) k' = refusingKey st k'"
  by (simp add: setItem_def)

lemma parseItemOr_state [simp]: "snd (parseItemOr k d st) = st"
  by (auto simp: parseItemOr_def io_defs split: option.splits)

lemma parseItemOr_cases:
  obtains e where "parseItemOr k d st = (Inl e, st)" | v where "parseItemOr k d st = (Inr v, st)"
  using parseItemOr_state [of k d st]
  by (cases "parseItemOr k d st"; cases "fst (parseItemOr k d st)") auto

lemma getNextId_policy [simp]: "refusingKey (snd (getNextId pfx ty st)) k = refusingKey st k"
  by (simp add: getNextId_def snd_bnd lift_def ok_def Let_def split: sum.splits)

lemma storeSession_policy [simp]:
  "refusingKey (snd (storeSession pfx title st)) k = refusingKey st k"
  by (simp add: storeSession_def snd_bnd lift_def ok_def Let_def split: sum.splits)

lemma getNextId_refusedKey:
  "refusingKey st (pfx @ ''counters'') \<Longrightarrow> fst (getNextId pfx ty st) \<noteq> Inr x"
  by (simp add: getNextId_def fst_bnd lift_def ok_def Let_def setItem_refusedKey split: sum.splits)

lemma storeChat_outcome:
  "(\<exists>msg. fst (storeChat pfx cm rq rs now st) = Inr msg)
   \<or> (\<exists>m. fst (storeChat pfx cm rq rs now st)
            = Inl (Error (''Failed to store chat message: '' @ m)))"
  by (simp add: storeChat_def fst_tryCatch raise_def split: sum.splits)

lemma storeChat_refusedKey:
  assumes "refusingKey st (pfx @ ''messages'') \<or> refusingKey st (pfx @ ''counters'')"
  shows "\<exists>m. fst (storeChat pfx cm rq rs now st)
              = Inl (Error (''Failed to store chat message: '' @ m))"
  using assms
  by (auto simp: storeChat_def fst_tryCatch fst_bnd snd_bnd raise_def lift_def ok_def Let_def
        setItem_refusedKey getNextId_refusedKey split: sum.splits)

lemma getNextId_refused:
  assumes "refusing st"
  shows "\<exists>e. getNextId pfx ty st = (Inl e, st)"
proof (cases rule: parseItemOr_cases [of "pfx @ ''counters''" "JObj []" st])
  case (1 e)
  then show ?thesis
    by (simp add: getNextId_def bnd_def)
next
  case (2 counters)
  show ?thesis
  proof (cases "getProp counters ty")
    case (Inl e)
    with 2 show ?thesis
      by (simp add: getNextId_def bnd_def lift_def)
  next
    case (Inr c)
    show ?thesis
    proof (cases "assignProp counters ty (plusOne (orElse c (JNum 1)))")
      case (Inl e)
      with 2 Inr show ?thesis
        by (simp add: getNextId_def bnd_def lift_def Let_def)
    next
      case (Inr counters')
      with 2 \<open>getProp counters ty = Inr c\<close> setItem_refused [OF assms] show ?thesis
        by (simp add: getNextId_def bnd_def lift_def Let_def)
    qed
  qed
qed

lemma storeSession_refused:
  assumes "refusing st"
  shows "\<exists>e. storeSession pfx title st = (Inl e, st)"
proof (cases rule: parseItemOr_cases [of "pfx @ ''sessions''" "JArr []" st])
  case (1 e)
  then show ?thesis
    by (simp add: storeSession_def bnd_def)
next
  case (2 sessions)
  with getNextId_refused [OF assms, of pfx "''sessionId''"] show ?thesis
    by (auto simp: storeSession_def bnd_def)
qed

lemma numberAndStore_refused:
  assumes "refusing st"
  shows "\<exists>e.
     bnd (parseItemOr (pfx @ ''messages'') (JArr [])) (\<lambda>messages.
     bnd (getNextId pfx ''messageId'') (\<lambda>mid. f messages mid)) st = (Inl e, st)"
proof (cases rule: parseItemOr_cases [of "pfx @ ''messages''" "JArr []" st])
  case (1 e)
  then show ?thesis
    by (simp add: bnd_def)
next
  case (2 messages)
  with getNextId_refused [OF assms, of pfx "''messageId''"] show ?thesis
    by (auto simp: bnd_def)
qed

lemma storeChat_refused:
  assumes "refusing st"
  shows "snd (storeChat pfx cm rq rs now st) = st"
proof -
  let ?rest = "\<lambda>sessionId. 
        bnd (parseItemOr (pfx @ ''messages'') (JArr [])) (\<lambda>messages.
        bnd (getNextId pfx ''messageId'') (\<lambda>mid.
        let msg = JObj [(''id'', mid),
                        (''sessionId'', sessionId),
                        (''previousMessageId'', orElse (optProp cm ''id'') JNull),
                        (''request'', rq),
                        (''response'', rs),
                        (''cumulativeInputLength'', JNum 0),
                        (''updatedAt'', JNum now)] in
        bnd (lift (push messages msg)) (\<lambda>messages'.
        bnd (setItem (pfx @ ''messages'') (JSON_stringify messages')) (\<lambda>_.
        ok msg))))"
  have rest: "\<exists>e. ?rest sessionId st = (Inl e, st)" for sessionId
    using assms by (rule numberAndStore_refused)
  let ?first = "if \<not> truthy (optProp cm ''sessionId'')
             then bnd (lift (deriveTitle rq)) (\<lambda>title.
                  bnd (storeSession pfx title) (\<lambda>session.
                  ok (propOf session ''id'')))
             else ok (optProp cm ''sessionId'')"
  have first: "(\<exists>e. ?first st = (Inl e, st)) \<or> (\<exists>v. ?first st = (Inr v, st))"
  proof (cases "truthy (optProp cm ''sessionId'')")
    case True
    then show ?thesis by (simp add: ok_def)
  next
    case False
    show ?thesis
    proof (cases "deriveTitle rq")
      case (Inl e)
      with False show ?thesis by (simp add: bnd_def lift_def)
    next
      case (Inr title)
      with False storeSession_refused [OF assms, of pfx title] show ?thesis
        by (auto simp: bnd_def lift_def)
    qed
  qed
  have "\<exists>e. bnd ?first ?rest st = (Inl e, st)"
    using first rest by (auto simp: bnd_def)
  then obtain e where "bnd ?first ?rest st = (Inl e, st)"
    by blast
  then show ?thesis
    by (simp add: storeChat_def tryCatch_def raise_def)
qed

lemma clearAllData_refusedKey:
  assumes "refusingKey st (pfx @ ''sessions'') \<or> refusingKey st (pfx @ ''messages'')
     \<or> refusingKey st (pfx @ ''counters'')"
  shows "fst (clearAllData pfx st)
       = Inl (Error (''Failed to clear data: '' @ message st QuotaExceededError))"
  using assms
  by (auto simp: clearAllData_def initializeStorage_def seedItem_def io_defs message_def
        refusingKey_def)

lemma clearAllData_refused:
  assumes "refusing st"
  shows "snd (clearAllData pfx st)
     = st\<lparr>items := (items st)(pfx @ ''sessions'' := None, pfx @ ''messages'' := None,
                              pfx @ ''counters'' := None)\<rparr>"
  using assms
  by (simp add: clearAllData_def initializeStorage_def seedItem_def io_defs refusing_def)

text \<open>A stored text that does not parse, read by the message store.\<close>

lemma messages_malformed:
  assumes "items st (pfx @ ''messages'') = Some (Malformed s)" "s \<noteq> []"
  shows "retrieveMessagesBySession pfx sid st
           = (Inl (Error (''Failed to retrieve messages for session: ''
                          @ message st SyntaxError)), st)"
    and "retrieveMessageById pfx i st
           = (if includesStr (message st SyntaxError) ''not found'' then Inl SyntaxError
              else Inl (Error (''Failed to retrieve message: '' @ message st SyntaxError)), st)"
  using assms
  by (simp_all add: retrieveMessagesBySession_def retrieveMessageById_def parseItemOr_def io_defs)

lemma sessions_malformed:
  assumes "items st (pfx @ ''sessions'') = Some (Malformed s)" "s \<noteq> []"
  shows "retrieveAllSessions pfx st
           = (Inl (Error (''Failed to retrieve sessions: '' @ message st SyntaxError)), st)"
  using assms
  by (simp add: retrieveAllSessions_def parseItemOr_def io_defs)

text \<open>
  C1, as the claim states it, fails in the checkpoint service: on a storage that refuses
  the write, \<^verbatim>\<open>createCheckpoint\<close> returns the new checkpoint as if it had been stored; no
  error reaches the caller and nothing is stored.
\<close>

theorem C1_counterexample:
  "fst (setItem ''tokenRingCheckpoints_v1_s1'' (JSON_stringify (JArr [checkpoint0])) fullStorage)
     = Inl QuotaExceededError
   \<and> fst (createCheckpoint ''tokenRingCheckpoints_v1_'' (JStr ''first'') currentMessage0
            (JStr ''s1'') 1000 ''T1'' fullStorage)
     = Inr checkpoint0
   \<and> items (snd (createCheckpoint ''tokenRingCheckpoints_v1_'' (JStr ''first'') currentMessage0
                   (JStr ''s1'') 1000 ''T1'' fullStorage)) ''tokenRingCheckpoints_v1_s1''
     = None"
  by code_simp

text \<open>
  C1, amended. A write that the storage refuses changes nothing in the storage; what the
  call has written or removed before it stays.

  \<^item> The message store throws the refused write on. \<^verbatim>\<open>storeChat\<close> returns a message or
    throws an error whose message starts with \<^verbatim>\<open>Failed to store chat message:\<close>, and it
    throws when the storage refuses the writes of the messages or of the counters;
    \<^verbatim>\<open>clearAllData\<close> throws \<^verbatim>\<open>Failed to clear data:\<close> with the message of the refusal
    when the storage refuses one of its three keys; the constructor, on a storage that
    refuses every write and lacks the item of the sessions, throws the refusal as it is.
    In the example, the storage refuses the messages and nothing else: \<^verbatim>\<open>storeChat\<close>
    throws, and the new session and both counters at 2 are stored.
  \<^item> The checkpoint, chat history and agent state services catch the refused write in
    their save helpers, which return normally. What \<^verbatim>\<open>createCheckpoint\<close>,
    \<^verbatim>\<open>clearAllCheckpoints\<close>, \<^verbatim>\<open>createSession\<close>, \<^verbatim>\<open>deleteSession\<close>, \<^verbatim>\<open>renameSession\<close>,
    \<^verbatim>\<open>addMessage\<close>, \<^verbatim>\<open>clearSessionHistory\<close>, \<^verbatim>\<open>storeCheckpoint\<close>, the agent's
    \<^verbatim>\<open>clearAllCheckpoints\<close> and \<^verbatim>\<open>deleteCheckpoint\<close> return or throw is the same whatever
    the storage refuses.
  \<^item> On a storage that refuses every write, each of these calls and \<^verbatim>\<open>storeChat\<close> leave
    the storage as it was, but for two: \<^verbatim>\<open>deleteSession\<close>, when it returns true, has
    removed the log of the session, which stays in the list, and \<^verbatim>\<open>clearAllData\<close> has
    removed its three items.
  \<^item> A stored text that does not parse reads as the empty list in the three services
    (the checkpoints of a session, the log of a session, the list of sessions, the
    checkpoints of the agents). The message store throws it on: \<^verbatim>\<open>retrieveAllSessions\<close>
    and \<^verbatim>\<open>retrieveMessagesBySession\<close> in an error of their own with the message of the
    engine's error, \<^verbatim>\<open>retrieveMessageById\<close> likewise, unless that message contains
    \<^verbatim>\<open>not found\<close>: then it throws the engine's error itself.
\<close>

theorem C1_refused_writes:
  "(refuses st (items st) k t \<longrightarrow> setItem k t st = (Inl QuotaExceededError, st))
   \<and> (truthy sid \<and> refuses st (items st) (pfx @ toStr sid) (JSON_stringify v) \<longrightarrow>
        saveCheckpoints pfx sid v st = (Inr (), st))
   \<and> (truthy sid \<and> refuses st (items st) (pfx @ ''history_'' @ toStr sid) (JSON_stringify v) \<longrightarrow>
        saveMessages pfx sid v st = (Inr (), st))
   \<and> (refuses st (items st) (sessionsListKey pfx) (JSON_stringify v) \<longrightarrow>
        saveSessionsList pfx v st = (Inr (), st))
   \<and> (refuses st (items st) (agentStorageKey pfx) (JSON_stringify v) \<longrightarrow>
        saveAllCheckpoints pfx v st = (Inr (), st))
   \<and> ((\<exists>stored. fst (storeChat pfx cm rq rs now st) = Inr stored)
        \<or> (\<exists>m. fst (storeChat pfx cm rq rs now st)
                 = Inl (Error (''Failed to store chat message: '' @ m))))
   \<and> (refusingKey st (pfx @ ''messages'') \<or> refusingKey st (pfx @ ''counters'') \<longrightarrow>
        (\<exists>m. fst (storeChat pfx cm rq rs now st)
               = Inl (Error (''Failed to store chat message: '' @ m))))
   \<and> (refusingKey st (pfx @ ''sessions'') \<or> refusingKey st (pfx @ ''messages'')
        \<or> refusingKey st (pfx @ ''counters'') \<longrightarrow>
        fst (clearAllData pfx st)
          = Inl (Error (''Failed to clear data: '' @ message st QuotaExceededError)))
   \<and> (refusing st \<and> \<not> present (items st (pfx @ ''sessions'')) \<longrightarrow>
        initializeStorage pfx st = (Inl QuotaExceededError, st))
   \<and> fst (storeChat ''chat_'' JNull (requestWith ''hello'') JNull 1000 messagesRefused)
        = Inl (Error (''Failed to store chat message: '' @ engineTexts QuotaExceededError))
   \<and> items (snd (storeChat ''chat_'' JNull (requestWith ''hello'') JNull 1000 messagesRefused))
        ''chat_sessions''
        = Some (Json (JArr [JObj [(''id'', JNum 1), (''title'', JStr ''hello'')]]))
   \<and> items (snd (storeChat ''chat_'' JNull (requestWith ''hello'') JNull 1000 messagesRefused))
        ''chat_counters''
        = Some (Json (JObj [(''sessionId'', JNum 2), (''messageId'', JNum 2)]))
   \<and> items (snd (storeChat ''chat_'' JNull (requestWith ''hello'') JNull 1000 messagesRefused))
        ''chat_messages''
        = Some (Json (JArr []))
   \<and> fst (createCheckpoint pfx label cm sid now isoNow (st\<lparr>refuses := r\<rparr>))
        = fst (createCheckpoint pfx label cm sid now isoNow st)
   \<and> fst (clearAllCheckpoints pfx sid (st\<lparr>refuses := r\<rparr>))
        = fst (clearAllCheckpoints pfx sid st)
   \<and> fst (createSession pfx name now timeLabel (st\<lparr>refuses := r\<rparr>))
        = fst (createSession pfx name now timeLabel st)
   \<and> fst (deleteSession pfx sid (st\<lparr>refuses := r\<rparr>)) = fst (deleteSession pfx sid st)
   \<and> fst (renameSession pfx sid newName now (st\<lparr>refuses := r\<rparr>))
        = fst (renameSession pfx sid newName now st)
   \<and> fst (addMessage pfx sid msg nowId nowTimestamp nowCreatedAt nowActivity
             (st\<lparr>refuses := r\<rparr>))
        = fst (addMessage pfx sid msg nowId nowTimestamp nowCreatedAt nowActivity st)
   \<and> fst (clearSessionHistory pfx sid now (st\<lparr>refuses := r\<rparr>))
        = fst (clearSessionHistory pfx sid now st)
   \<and> fst (storeCheckpoint pfx cp now (st\<lparr>refuses := r\<rparr>)) = fst (storeCheckpoint pfx cp now st)
   \<and> fst (agentClearAllCheckpoints pfx (st\<lparr>refuses := r\<rparr>))
        = fst (agentClearAllCheckpoints pfx st)
   \<and> fst (deleteCheckpoint pfx i (st\<lparr>refuses := r\<rparr>)) = fst (deleteCheckpoint pfx i st)
   \<and> (refusing st \<longrightarrow>
        snd (createCheckpoint pfx label cm sid now isoNow st) = st
        \<and> snd (clearAllCheckpoints pfx sid st) = st
        \<and> snd (createSession pfx name now timeLabel st) = st
        \<and> snd (renameSession pfx sid newName now st) = st
        \<and> snd (addMessage pfx sid msg nowId nowTimestamp nowCreatedAt nowActivity st) = st
        \<and> snd (clearSessionHistory pfx sid now st) = st
        \<and> snd (storeCheckpoint pfx cp now st) = st
        \<and> snd (agentClearAllCheckpoints pfx st) = st
        \<and> snd (deleteCheckpoint pfx i st) = st
        \<and> snd (storeChat pfx cm rq rs now st) = st
        \<and> snd (deleteSession pfx sid st)
            = (if fst (deleteSession pfx sid st) = Inr True
               then st\<lparr>items := (items st)(pfx @ ''history_'' @ toStr sid := None)\<rparr> else st)
        \<and> snd (clearAllData pfx st)
            = st\<lparr>items := (items st)(pfx @ ''sessions'' := None, pfx @ ''messages'' := None,
                                     pfx @ ''counters'' := None)\<rparr>)
   \<and> (truthy sid \<and> items st (pfx @ toStr sid) = Some (Malformed s) \<longrightarrow>
        getCheckpoints pfx sid st = (Inr (JArr []), st)
        \<and> listCheckpoint pfx sid st = (Inr [], st))
   \<and> (truthy sid \<and> items st (pfx @ ''history_'' @ toStr sid) = Some (Malformed s) \<longrightarrow>
        getMessages pfx sid st = (Inr (JArr []), st))
   \<and> (items st (sessionsListKey pfx) = Some (Malformed s) \<longrightarrow>
        getSessionsList pfx st = (Inr (JArr []), st))
   \<and> (items st (agentStorageKey pfx) = Some (Malformed s) \<longrightarrow>
        getAllCheckpoints pfx st = (Inr (JArr []), st))
   \<and> (items st (pfx @ ''sessions'') = Some (Malformed s) \<and> s \<noteq> [] \<longrightarrow>
        retrieveAllSessions pfx st
          = (Inl (Error (''Failed to retrieve sessions: '' @ message st SyntaxError)), st))
   \<and> (items st (pfx @ ''messages'') = Some (Malformed s) \<and> s \<noteq> [] \<longrightarrow>
        retrieveMessagesBySession pfx sid st
          = (Inl (Error (''Failed to retrieve messages for session: ''
                         @ message st SyntaxError)), st)
        \<and> retrieveMessageById pfx i st
          = (if includesStr (message st SyntaxError) ''not found'' then Inl SyntaxError
             else Inl (Error (''Failed to retrieve message: '' @ message st SyntaxError)), st))"
proof (intro conjI impI)
  show "fst (storeChat ''chat_'' JNull (requestWith ''hello'') JNull 1000 messagesRefused)
        = Inl (Error (''Failed to store chat message: '' @ engineTexts QuotaExceededError))"
    by code_simp
  show "items (snd (storeChat ''chat_'' JNull (requestWith ''hello'') JNull 1000 messagesRefused))
        ''chat_sessions''
        = Some (Json (JArr [JObj [(''id'', JNum 1), (''title'', JStr ''hello'')]]))"
    by code_simp
  show "items (snd (storeChat ''chat_'' JNull (requestWith ''hello'') JNull 1000 messagesRefused))
        ''chat_counters''
        = Some (Json (JObj [(''sessionId'', JNum 2), (''messageId'', JNum 2)]))"
    by code_simp
  show "items (snd (storeChat ''chat_'' JNull (requestWith ''hello'') JNull 1000 messagesRefused))
        ''chat_messages''
        = Some (Json (JArr []))"
    by code_simp
  show "(\<exists>stored. fst (storeChat pfx cm rq rs now st) = Inr stored)
        \<or> (\<exists>m. fst (storeChat pfx cm rq rs now st)
                 = Inl (Error (''Failed to store chat message: '' @ m)))"
    by (rule storeChat_outcome)
  show "fst (createCheckpoint pfx label cm sid now isoNow (st\<lparr>refuses := r\<rparr>))
        = fst (createCheckpoint pfx label cm sid now isoNow st)"
    by (rule createCheckpoint_result)
  show "fst (clearAllCheckpoints pfx sid (st\<lparr>refuses := r\<rparr>))
        = fst (clearAllCheckpoints pfx sid st)"
    by (rule clearAllCheckpoints_result)
  show "fst (createSession pfx name now timeLabel (st\<lparr>refuses := r\<rparr>))
        = fst (createSession pfx name now timeLabel st)"
    by (rule createSession_result)
  show "fst (deleteSession pfx sid (st\<lparr>refuses := r\<rparr>)) = fst (deleteSession pfx sid st)"
    by (rule deleteSession_result)
  show "fst (renameSession pfx sid newName now (st\<lparr>refuses := r\<rparr>))
        = fst (renameSession pfx sid newName now st)"
    by (rule renameSession_result)
  show "fst (addMessage pfx sid msg nowId nowTimestamp nowCreatedAt nowActivity
             (st\<lparr>refuses := r\<rparr>))
        = fst (addMessage pfx sid msg nowId nowTimestamp nowCreatedAt nowActivity st)"
    by (rule addMessage_result)
  show "fst (clearSessionHistory pfx sid now (st\<lparr>refuses := r\<rparr>))
        = fst (clearSessionHistory pfx sid now st)"
    by (rule clearSessionHistory_result)
  show "fst (storeCheckpoint pfx cp now (st\<lparr>refuses := r\<rparr>)) = fst (storeCheckpoint pfx cp now st)"
    by (rule storeCheckpoint_result)
  show "fst (agentClearAllCheckpoints pfx (st\<lparr>refuses := r\<rparr>))
        = fst (agentClearAllCheckpoints pfx st)"
    by (rule agentClearAllCheckpoints_result)
  show "fst (deleteCheckpoint pfx i (st\<lparr>refuses := r\<rparr>)) = fst (deleteCheckpoint pfx i st)"
    by (rule deleteCheckpoint_result)
next
  assume "refuses st (items st) k t"
  then show "setItem k t st = (Inl QuotaExceededError, st)"
    by (simp add: setItem_def)
next
  assume "truthy sid \<and> refuses st (items st) (pfx @ toStr sid) (JSON_stringify v)"
  then show "saveCheckpoints pfx sid v st = (Inr (), st)"
    by (simp add: saveCheckpoints_def getStorageKey_def writeList_written written_refused)
next
  assume "truthy sid \<and> refuses st (items st) (pfx @ ''history_'' @ toStr sid) (JSON_stringify v)"
  then show "saveMessages pfx sid v st = (Inr (), st)"
    by (simp add: saveMessages_def getSessionKey_def writeList_written written_refused)
next
  assume "refuses st (items st) (sessionsListKey pfx) (JSON_stringify v)"
  then show "saveSessionsList pfx v st = (Inr (), st)"
    by (simp add: saveSessionsList_def writeList_written written_refused)
next
  assume "refuses st (items st) (agentStorageKey pfx) (JSON_stringify v)"
  then show "saveAllCheckpoints pfx v st = (Inr (), st)"
    by (simp add: saveAllCheckpoints_def writeList_written written_refused)
next
  assume "refusingKey st (pfx @ ''messages'') \<or> refusingKey st (pfx @ ''counters'')"
  then show "\<exists>m. fst (storeChat pfx cm rq rs now st)
               = Inl (Error (''Failed to store chat message: '' @ m))"
    by (rule storeChat_refusedKey)
next
  assume "refusingKey st (pfx @ ''sessions'') \<or> refusingKey st (pfx @ ''messages'')
        \<or> refusingKey st (pfx @ ''counters'')"
  then show "fst (clearAllData pfx st)
          = Inl (Error (''Failed to clear data: '' @ message st QuotaExceededError))"
    by (rule clearAllData_refusedKey)
next
  assume "refusing st \<and> \<not> present (items st (pfx @ ''sessions''))"
  then show "initializeStorage pfx st = (Inl QuotaExceededError, st)"
    by (simp add: initializeStorage_def seedItem_def io_defs refusing_def)
next
  assume r: "refusing st"
  show "snd (createCheckpoint pfx label cm sid now isoNow st) = st"
    using r by (rule refused_unchanged)
  show "snd (clearAllCheckpoints pfx sid st) = st"
    using r by (rule refused_unchanged)
  show "snd (createSession pfx name now timeLabel st) = st"
    using r by (rule refused_unchanged)
  show "snd (renameSession pfx sid newName now st) = st"
    using r by (rule refused_unchanged)
  show "snd (addMessage pfx sid msg nowId nowTimestamp nowCreatedAt nowActivity st) = st"
    using r by (rule refused_unchanged)
  show "snd (clearSessionHistory pfx sid now st) = st"
    using r by (rule refused_unchanged)
  show "snd (storeCheckpoint pfx cp now st) = st"
    using r by (rule refused_unchanged)
  show "snd (agentClearAllCheckpoints pfx st) = st"
    using r by (rule refused_unchanged)
  show "snd (deleteCheckpoint pfx i st) = st"
    using r by (rule refused_unchanged)
  show "snd (storeChat pfx cm rq rs now st) = st"
    using r by (rule storeChat_refused)
  show "snd (deleteSession pfx sid st)
            = (if fst (deleteSession pfx sid st) = Inr True
               then st\<lparr>items := (items st)(pfx @ ''history_'' @ toStr sid := None)\<rparr> else st)"
    using r by (rule deleteSession_refusing)
  show "snd (clearAllData pfx st)
            = st\<lparr>items := (items st)(pfx @ ''sessions'' := None, pfx @ ''messages'' := None,
                                     pfx @ ''counters'' := None)\<rparr>"
    using r by (rule clearAllData_refused)
next
  assume h: "truthy sid \<and> items st (pfx @ toStr sid) = Some (Malformed s)"
  then show "getCheckpoints pfx sid st = (Inr (JArr []), st)"
    by (simp add: getCheckpoints_def getStorageKey_def readList_listAt listAt_malformed)
  from h show "listCheckpoint pfx sid st = (Inr [], st)"
    by (simp add: listCheckpoint_def getCheckpoints_def getStorageKey_def readList_listAt
          listAt_malformed bnd_def lift_def sortDesc_def sortBy_def)
next
  assume "truthy sid \<and> items st (pfx @ ''history_'' @ toStr sid) = Some (Malformed s)"
  then show "getMessages pfx sid st = (Inr (JArr []), st)"
    by (simp add: getMessages_def getSessionKey_def readList_listAt listAt_malformed)
next
  assume "items st (sessionsListKey pfx) = Some (Malformed s)"
  then show "getSessionsList pfx st = (Inr (JArr []), st)"
    by (simp add: getSessionsList_def readList_listAt listAt_malformed)
next
  assume "items st (agentStorageKey pfx) = Some (Malformed s)"
  then show "getAllCheckpoints pfx st = (Inr (JArr []), st)"
    by (simp add: getAllCheckpoints_def readList_listAt listAt_malformed)
next
  assume "items st (pfx @ ''sessions'') = Some (Malformed s) \<and> s \<noteq> []"
  then show "retrieveAllSessions pfx st
          = (Inl (Error (''Failed to retrieve sessions: '' @ message st SyntaxError)), st)"
    by (simp add: sessions_malformed)
next
  assume h: "items st (pfx @ ''messages'') = Some (Malformed s) \<and> s \<noteq> []"
  then show "retrieveMessagesBySession pfx sid st
          = (Inl (Error (''Failed to retrieve messages for session: ''
                         @ message st SyntaxError)), st)"
    by (simp add: messages_malformed)
  from h show "retrieveMessageById pfx i st
          = (if includesStr (message st SyntaxError) ''not found'' then Inl SyntaxError
             else Inl (Error (''Failed to retrieve message: '' @ message st SyntaxError)), st)"
    by (simp add: messages_malformed)
qed

theorem C1_refused_writes_witness:
  "refusing brokenStorage
   \<and> setItem ''p_messages'' (Json (JArr [])) brokenStorage
        = (Inl QuotaExceededError, brokenStorage)
   \<and> saveCheckpoints ''p_'' (JStr ''s1'') (JArr []) brokenStorage = (Inr (), brokenStorage)
   \<and> saveMessages ''p_'' (JStr ''s1'') (JArr []) brokenStorage = (Inr (), brokenStorage)
   \<and> saveSessionsList ''p_'' (JArr []) brokenStorage = (Inr (), brokenStorage)
   \<and> saveAllCheckpoints ''p_'' (JArr []) brokenStorage = (Inr (), brokenStorage)
   \<and> (\<exists>m. storeChat ''p_'' currentMessage0 (requestWith ''hello'') JNull 1000 brokenStorage
              = (Inl (Error (''Failed to store chat message: '' @ m)), brokenStorage))
   \<and> fst (clearAllData ''p_'' brokenStorage)
        = Inl (Error ''Failed to clear data: The quota has been exceeded.'')
   \<and> initializeStorage ''q_'' brokenStorage = (Inl QuotaExceededError, brokenStorage)
   \<and> createCheckpoint ''p_'' (JStr ''first'') currentMessage0 (JStr ''s1'') 1000 ''T1''
        brokenStorage
        = (Inr checkpoint0, brokenStorage)
   \<and> deleteSession ''p_'' (JStr ''s1'') brokenStorage
        = (Inr True, brokenStorage\<lparr>items := (items brokenStorage)(''p_history_s1'' := None)\<rparr>)
   \<and> listCheckpoint ''p_'' (JStr ''s1'') brokenStorage = (Inr [], brokenStorage)
   \<and> getMessages ''p_'' (JStr ''s1'') brokenStorage = (Inr (JArr []), brokenStorage)
   \<and> getSessionsList ''q_'' brokenStorage = (Inr (JArr []), brokenStorage)
   \<and> getAllCheckpoints ''p_'' brokenStorage = (Inr (JArr []), brokenStorage)
   \<and> retrieveAllSessions ''p_'' brokenStorage
        = (Inl (Error ''Failed to retrieve sessions: Unexpected token in JSON''), brokenStorage)
   \<and> retrieveMessagesBySession ''p_'' (JStr ''s1'') brokenStorage
        = (Inl (Error ''Failed to retrieve messages for session: Unexpected token in JSON''),
           brokenStorage)
   \<and> retrieveMessageById ''p_'' (JNum 1) brokenStorage
        = (Inl (Error ''Failed to retrieve message: Unexpected token in JSON''), brokenStorage)
   \<and> retrieveMessageById ''p_'' (JNum 1) quotingStorage = (Inl SyntaxError, quotingStorage)"
proof -
  note inst = C1_refused_writes [where pfx = "''p_''"
      and sid = "JStr ''s1''" and k = "''p_messages''" and t = "Json (JArr [])"
      and v = "JArr []" and cm = currentMessage0 and rq = "requestWith ''hello''"
      and rs = JNull and now = 1000 and label = "JStr ''first''" and isoNow = "''T1''"
      and i = "JNum 1" and r = "\<lambda>stored k t. False" and name = "JStr ''Chat''"
      and timeLabel = "''10:00''" and newName = "JStr ''Talk''"
      and msg = "JObj [(''content'', JStr ''hi'')]" and nowId = 1 and nowTimestamp = 2
      and nowCreatedAt = 3 and nowActivity = 4 and cp = "JObj [(''agentId'', JStr ''a1'')]"]
  note broken = inst [where st = brokenStorage and s = "''{x''"]
  note quoting = inst [where st = quotingStorage and s = "''not found''"]
  note other = C1_refused_writes [where st = brokenStorage and pfx = "''q_''"
      and sid = "JStr ''s1''" and k = "''p_messages''" and t = "Json (JArr [])"
      and v = "JArr []" and cm = currentMessage0 and rq = "requestWith ''hello''"
      and rs = JNull and now = 1000 and label = "JStr ''first''" and isoNow = "''T1''"
      and i = "JNum 1" and r = "\<lambda>stored k t. False" and name = "JStr ''Chat''"
      and timeLabel = "''10:00''" and newName = "JStr ''Talk''"
      and msg = "JObj [(''content'', JStr ''hi'')]" and nowId = 1 and nowTimestamp = 2
      and nowCreatedAt = 3 and nowActivity = 4 and cp = "JObj [(''agentId'', JStr ''a1'')]"
      and s = "''{x''"]
  have r: "refusing brokenStorage"
    by (simp add: refusing_def brokenStorage_def fullHolding_def)
  then have rk: "refusingKey brokenStorage (''p_'' @ ''messages'')"
    by (rule refusing_key)
  have w: "refuses brokenStorage (items brokenStorage) x y" for x y
    by (simp add: brokenStorage_def fullHolding_def)
  have m: "items brokenStorage (''p_'' @ toStr (JStr ''s1'')) = Some (Malformed ''{x'')"
    "items brokenStorage (''p_'' @ ''history_'' @ toStr (JStr ''s1'')) = Some (Malformed ''{x'')"
    "items brokenStorage (sessionsListKey ''q_'') = Some (Malformed ''{x'')"
    "items brokenStorage (agentStorageKey ''p_'') = Some (Malformed ''{x'')"
    "items brokenStorage (''p_'' @ ''sessions'') = Some (Malformed ''{x'')"
    "items brokenStorage (''p_'' @ ''messages'') = Some (Malformed ''{x'')"
    by (simp_all add: brokenStorage_def fullHolding_def sessionsListKey_def agentStorageKey_def)
  have q: "items quotingStorage (''p_'' @ ''messages'') = Some (Malformed ''not found'')"
    by (simp add: quotingStorage_def)
  have texts: "message brokenStorage QuotaExceededError = ''The quota has been exceeded.''"
    "message brokenStorage SyntaxError = ''Unexpected token in JSON''"
    "includesStr (message brokenStorage SyntaxError) ''not found'' = False"
    "includesStr (message quotingStorage SyntaxError) ''not found'' = True"
    by code_simp+
  have c1: "setItem ''p_messages'' (Json (JArr [])) brokenStorage
        = (Inl QuotaExceededError, brokenStorage)"
    using broken w by simp
  have c2: "saveCheckpoints ''p_'' (JStr ''s1'') (JArr []) brokenStorage = (Inr (), brokenStorage)"
    "saveMessages ''p_'' (JStr ''s1'') (JArr []) brokenStorage = (Inr (), brokenStorage)"
    "saveSessionsList ''p_'' (JArr []) brokenStorage = (Inr (), brokenStorage)"
    "saveAllCheckpoints ''p_'' (JArr []) brokenStorage = (Inr (), brokenStorage)"
    using broken w by simp_all
  have "\<exists>m. fst (storeChat ''p_'' currentMessage0 (requestWith ''hello'') JNull 1000 brokenStorage)
              = Inl (Error (''Failed to store chat message: '' @ m))"
    using broken rk by simp
  moreover have "snd (storeChat ''p_'' currentMessage0 (requestWith ''hello'') JNull 1000
        brokenStorage) = brokenStorage"
    using broken r by simp
  ultimately have c3: "\<exists>m. storeChat ''p_'' currentMessage0 (requestWith ''hello'') JNull 1000
        brokenStorage = (Inl (Error (''Failed to store chat message: '' @ m)), brokenStorage)"
    by (auto simp: prod_eq_iff)
  have c4: "fst (clearAllData ''p_'' brokenStorage)
        = Inl (Error (''Failed to clear data: '' @ message brokenStorage QuotaExceededError))"
    using broken rk by simp
  have "fst (createCheckpoint ''p_'' (JStr ''first'') currentMessage0 (JStr ''s1'') 1000 ''T1''
        brokenStorage) = Inr checkpoint0"
    by code_simp
  moreover have "snd (createCheckpoint ''p_'' (JStr ''first'') currentMessage0 (JStr ''s1'')
        1000 ''T1'' brokenStorage) = brokenStorage"
    using broken r by simp
  ultimately have c5: "createCheckpoint ''p_'' (JStr ''first'') currentMessage0 (JStr ''s1'')
        1000 ''T1'' brokenStorage = (Inr checkpoint0, brokenStorage)"
    by (simp add: prod_eq_iff)
  have d: "fst (deleteSession ''p_'' (JStr ''s1'') brokenStorage) = Inr True"
    by code_simp
  have "snd (deleteSession ''p_'' (JStr ''s1'') brokenStorage)
      = (if fst (deleteSession ''p_'' (JStr ''s1'') brokenStorage) = Inr True
         then brokenStorage\<lparr>items :=
                (items brokenStorage)(''p_'' @ ''history_'' @ toStr (JStr ''s1'') := None)\<rparr>
         else brokenStorage)"
    using broken r by simp
  with d have c6: "deleteSession ''p_'' (JStr ''s1'') brokenStorage
        = (Inr True, brokenStorage\<lparr>items := (items brokenStorage)(''p_history_s1'' := None)\<rparr>)"
    by (simp add: prod_eq_iff)
  have c7: "listCheckpoint ''p_'' (JStr ''s1'') brokenStorage = (Inr [], brokenStorage)"
    "getMessages ''p_'' (JStr ''s1'') brokenStorage = (Inr (JArr []), brokenStorage)"
    "getAllCheckpoints ''p_'' brokenStorage = (Inr (JArr []), brokenStorage)"
    using broken m by simp_all
  have c8: "getSessionsList ''q_'' brokenStorage = (Inr (JArr []), brokenStorage)"
    using other m by simp
  have "\<not> present (items brokenStorage (''q_'' @ ''sessions''))"
    by (simp add: brokenStorage_def fullHolding_def)
  with r have c11: "initializeStorage ''q_'' brokenStorage = (Inl QuotaExceededError, brokenStorage)"
    using other by simp
  have c9: "retrieveAllSessions ''p_'' brokenStorage
        = (Inl (Error (''Failed to retrieve sessions: '' @ message brokenStorage SyntaxError)),
           brokenStorage)"
    "retrieveMessagesBySession ''p_'' (JStr ''s1'') brokenStorage
        = (Inl (Error (''Failed to retrieve messages for session: ''
                       @ message brokenStorage SyntaxError)), brokenStorage)"
    "retrieveMessageById ''p_'' (JNum 1) brokenStorage
        = (if includesStr (message brokenStorage SyntaxError) ''not found'' then Inl SyntaxError
           else Inl (Error (''Failed to retrieve message: '' @ message brokenStorage SyntaxError)),
           brokenStorage)"
    using broken m by simp_all
  have c10: "retrieveMessageById ''p_'' (JNum 1) quotingStorage
        = (if includesStr (message quotingStorage SyntaxError) ''not found'' then Inl SyntaxError
           else Inl (Error (''Failed to retrieve message: ''
                            @ message quotingStorage SyntaxError)),
           quotingStorage)"
    using quoting q by simp
  from r c1 c2 c3 c4 c5 c6 c7 c8 c9 c10 c11 show ?thesis
    by (simp add: texts)
qed

end
